(* ===== verification/Prelude.thy ===== *)
theory Prelude
  imports Main "HOL-Library.Product_Lexorder" "HOL-Library.Multiset"
begin

text \<open>
  What the components share: the theorem collections, the two-way result of a Go call
  that returns a value or an error, Go's 64-bit integers as wrapped mathematical
  integers, PostgreSQL's 32-bit column range, and the list lemmas behind
  "update the rows that match".
\<close>

section \<open>Collections\<close>

named_theorems sql_defs \<open>definitions of the SQL statements and of the store calls\<close>
named_theorems inv_defs \<open>definitions of the table invariants\<close>
named_theorems go_defs \<open>definitions of the Go library functions\<close>

section \<open>Go integers\<close>

text \<open>
  A Go \<open>int\<close>, \<open>int64\<close> or \<open>time.Duration\<close> is 64 bits in two's complement; arithmetic
  wraps. \<open>wrap64\<close> brings a mathematical integer back into that range. A PostgreSQL
  \<open>INTEGER\<close> column does not wrap: a value outside \<open>int4_ok\<close> is an error.
\<close>

definition wrap64 :: "int \<Rightarrow> int" where
  [go_defs]: "wrap64 x = (x + 2 ^ 63) mod 2 ^ 64 - 2 ^ 63"

definition int64_ok :: "int \<Rightarrow> bool" where
  "int64_ok x \<longleftrightarrow> - (2 ^ 63) \<le> x \<and> x < 2 ^ 63"

definition int4_ok :: "int \<Rightarrow> bool" where
  "int4_ok x \<longleftrightarrow> - (2 ^ 31) \<le> x \<and> x < 2 ^ 31"

lemma wrap64_range: "int64_ok (wrap64 x)"
proof -
  have "0 \<le> (x + 2 ^ 63) mod 2 ^ 64" and "(x + 2 ^ 63) mod 2 ^ 64 < 2 ^ 64"
    by (rule pos_mod_sign, simp) (rule pos_mod_bound, simp)
  then show ?thesis unfolding wrap64_def int64_ok_def by auto
qed

lemma wrap64_id: "int64_ok x \<Longrightarrow> wrap64 x = x"
  unfolding wrap64_def int64_ok_def by (subst mod_pos_pos_trivial) auto

section \<open>Updating the rows that match\<close>

text \<open>
  \<open>UPDATE t SET f WHERE P\<close> over a table kept as a list of rows.
\<close>

definition update_where :: "('r \<Rightarrow> bool) \<Rightarrow> ('r \<Rightarrow> 'r) \<Rightarrow> 'r list \<Rightarrow> 'r list" where
  "update_where P f rows = map (\<lambda>r. if P r then f r else r) rows"

lemma length_update_where [simp]: "length (update_where P f rows) = length rows"
  by (simp add: update_where_def)

lemma update_where_Nil [simp]: "update_where P f [] = []"
  by (simp add: update_where_def)

lemma update_where_Cons [simp]:
  "update_where P f (r # rs) = (if P r then f r else r) # update_where P f rs"
  by (simp add: update_where_def)

lemma set_update_where:
  "set (update_where P f rows) = {f r |r. r \<in> set rows \<and> P r} \<union> {r \<in> set rows. \<not> P r}"
  by (auto simp: update_where_def)

lemma update_where_none: "(\<And>r. r \<in> set rows \<Longrightarrow> \<not> P r) \<Longrightarrow> update_where P f rows = rows"
  by (induction rows) auto

lemma map_update_where:
  "(\<And>r. P r \<Longrightarrow> k (f r) = k r) \<Longrightarrow> map k (update_where P f rows) = map k rows"
  by (induction rows) auto

lemma update_where_cong [fundef_cong]:
  "rows = rows' \<Longrightarrow> (\<And>r. r \<in> set rows' \<Longrightarrow> P r = P' r) \<Longrightarrow>
   (\<And>r. r \<in> set rows' \<Longrightarrow> P' r \<Longrightarrow> f r = f' r) \<Longrightarrow>
   update_where P f rows = update_where P' f' rows'"
  by (auto simp: update_where_def)

text \<open>Under a key that no two rows share, a row is found by its key.\<close>

lemma distinct_key_eq:
  "distinct (map k rows) \<Longrightarrow> r \<in> set rows \<Longrightarrow> r' \<in> set rows \<Longrightarrow> k r = k r' \<Longrightarrow> r = r'"
  by (metis inj_onD distinct_map)

lemma find_key:
  "distinct (map k rows) \<Longrightarrow> r \<in> set rows \<Longrightarrow> find (\<lambda>x. k x = k r) rows = Some r"
  by (induction rows) auto

lemma filter_key_single:
  "distinct (map k rows) \<Longrightarrow> r \<in> set rows \<Longrightarrow> filter (\<lambda>x. k x = k r) rows = [r]"
  by (induction rows) (auto simp: filter_empty_conv intro: rev_image_eqI)

lemma find_SomeD: "find P rows = Some r \<Longrightarrow> r \<in> set rows \<and> P r"
  by (induction rows) (auto split: if_splits)

lemma find_NoneD: "find P rows = None \<Longrightarrow> r \<in> set rows \<Longrightarrow> \<not> P r"
  by (induction rows) (auto split: if_splits)

lemma find_update_where:
  "(\<And>r. P r \<Longrightarrow> Q (f r) = Q r) \<Longrightarrow>
   find Q (update_where P f rows) = map_option (\<lambda>r. if P r then f r else r) (find Q rows)"
  by (induction rows) auto

lemma mem_replace: "x \<in> set xs \<Longrightarrow> y \<in> set (map (\<lambda>r. if r = x then y else r) xs)"
  by (induction xs) auto

lemma filter_map_if:
  "(\<And>r. \<not> P (f r)) \<Longrightarrow>
   filter P (map (\<lambda>r. if r \<in> S then f r else r) rs) = filter (\<lambda>r. P r \<and> r \<notin> S) rs"
  by (induction rs) auto

lemma length_filter_take_drop:
  "length (filter P xs) = length (filter P (take n xs)) + length (filter P (drop n xs))"
  by (metis append_take_drop_id filter_append length_append)

section \<open>ORDER BY and LIMIT\<close>

lemma sort_key_hd_least:
  assumes "sort_key k xs = y # ys" and "x \<in> set xs"
  shows "k y \<le> k x"
proof -
  have "sorted (map k (sort_key k xs))" by simp
  moreover have "x \<in> set (sort_key k xs)" using assms(2) by simp
  ultimately show ?thesis using assms(1) by auto
qed

lemma sort_key_hd_mem: "sort_key k xs = y # ys \<Longrightarrow> y \<in> set xs"
  by (metis list.set_intros(1) set_sort)

lemma sort_key_eq_Nil [simp]: "sort_key k xs = [] \<longleftrightarrow> xs = []"
  by (metis length_0_conv length_sort)

end
