(* ===== verification/Go_Lib.thy ===== *)
theory Go_Lib
  imports Prelude
begin

text \<open>
  The parts of Go's standard library the program's own decisions rest on: trimming and
  upper-casing (\<open>strings\<close>), decimal integers (\<open>strconv\<close>, \<open>fmt\<close>'s \<open>%d\<close>) and UTF-8
  validity (\<open>unicode/utf8\<close>). A Go string is a sequence of bytes, here a \<open>string\<close> whose
  characters are those bytes; \<open>len\<close> is \<open>length\<close>.
\<close>

section \<open>strings.TrimSpace\<close>

text \<open>
  The runes \<open>unicode.IsSpace\<close> accepts, as the bytes of their UTF-8 encodings: tab, line
  feed, vertical tab, form feed, carriage return and blank; U+0085 and U+00A0; U+1680;
  U+2000 to U+200A; U+2028, U+2029, U+202F, U+205F; U+3000.
\<close>

definition space_runes :: "string list" where
  "space_runes =
     [[CHR 0x09], [CHR 0x0A], [CHR 0x0B], [CHR 0x0C], [CHR 0x0D], [CHR 0x20],
      [CHR 0xC2, CHR 0x85], [CHR 0xC2, CHR 0xA0], [CHR 0xE1, CHR 0x9A, CHR 0x80],
      [CHR 0xE2, CHR 0x80, CHR 0x80], [CHR 0xE2, CHR 0x80, CHR 0x81],
      [CHR 0xE2, CHR 0x80, CHR 0x82], [CHR 0xE2, CHR 0x80, CHR 0x83],
      [CHR 0xE2, CHR 0x80, CHR 0x84], [CHR 0xE2, CHR 0x80, CHR 0x85],
      [CHR 0xE2, CHR 0x80, CHR 0x86], [CHR 0xE2, CHR 0x80, CHR 0x87],
      [CHR 0xE2, CHR 0x80, CHR 0x88], [CHR 0xE2, CHR 0x80, CHR 0x89],
      [CHR 0xE2, CHR 0x80, CHR 0x8A], [CHR 0xE2, CHR 0x80, CHR 0xA8],
      [CHR 0xE2, CHR 0x80, CHR 0xA9], [CHR 0xE2, CHR 0x80, CHR 0xAF],
      [CHR 0xE2, CHR 0x81, CHR 0x9F], [CHR 0xE3, CHR 0x80, CHR 0x80]]"

text \<open>Drop leading words of \<open>ws\<close> for as long as one of them is a prefix.\<close>

definition starts_with :: "string \<Rightarrow> string \<Rightarrow> bool" where
  "starts_with w s \<longleftrightarrow> take (length w) s = w"

function trim_with :: "string list \<Rightarrow> string \<Rightarrow> string" where
  "trim_with ws s =
     (case find (\<lambda>w. w \<noteq> [] \<and> starts_with w s) ws of
        None \<Rightarrow> s
      | Some w \<Rightarrow> trim_with ws (drop (length w) s))"
  by pat_completeness auto

lemma starts_with_length: "starts_with w s \<Longrightarrow> length w \<le> length s"
  unfolding starts_with_def by (metis length_take min.cobounded1)

termination trim_with
proof (relation "measure (\<lambda>(ws, s). length s)", simp)
  fix ws s w
  assume "find (\<lambda>w. w \<noteq> [] \<and> starts_with w s) ws = Some w"
  then have "w \<noteq> []" and "starts_with w s" by (auto dest: find_SomeD)
  then have "0 < length w" and "length w \<le> length s" by (auto dest: starts_with_length)
  then have "length s - length w < length s" by linarith
  then show "((ws, drop (length w) s), (ws, s)) \<in> measure (\<lambda>(ws, s). length s)" by simp
qed

declare trim_with.simps [simp del]

definition TrimSpace :: "string \<Rightarrow> string" where
  "TrimSpace s = rev (trim_with (map rev space_runes) (rev (trim_with space_runes s)))"

definition HasPrefix :: "string \<Rightarrow> string \<Rightarrow> bool" where
  "HasPrefix s p \<longleftrightarrow> starts_with p s"

definition TrimPrefix :: "string \<Rightarrow> string \<Rightarrow> string" where
  "TrimPrefix s p = (if HasPrefix s p then drop (length p) s else s)"

section \<open>strings.ToUpper\<close>

text \<open>
  ASCII letters, and the two runes outside ASCII whose upper case is ASCII (U+0131 gives
  I, U+017F gives S). Every other rune outside ASCII stays outside ASCII under
  \<open>unicode.ToUpper\<close>; its bytes are kept here, which no comparison with an ASCII word can
  tell apart.
\<close>

definition upper_char :: "char \<Rightarrow> char" where
  "upper_char c =
     (let n = (of_char c :: nat) in if 97 \<le> n \<and> n \<le> 122 then char_of (n - 32) else c)"

fun ToUpper :: "string \<Rightarrow> string" where
  "ToUpper [] = []"
| "ToUpper [c] = [upper_char c]"
| "ToUpper (c # c' # cs) =
     (if c = CHR 0xC4 \<and> c' = CHR 0xB1 then CHR ''I'' # ToUpper cs
      else if c = CHR 0xC5 \<and> c' = CHR 0xBF then CHR ''S'' # ToUpper cs
      else upper_char c # ToUpper (c' # cs))"

section \<open>strconv: decimal integers\<close>

definition digit_val :: "char \<Rightarrow> nat option" where
  "digit_val c = (let n = (of_char c :: nat) in if 48 \<le> n \<and> n \<le> 57 then Some (n - 48) else None)"

fun digits_val :: "nat \<Rightarrow> string \<Rightarrow> nat option" where
  "digits_val acc [] = Some acc"
| "digits_val acc (c # cs) =
     (case digit_val c of None \<Rightarrow> None | Some k \<Rightarrow> digits_val (10 * acc + k) cs)"

text \<open>
  \<open>strconv.ParseInt(s, 10, 64)\<close> and, on 64-bit platforms, \<open>strconv.Atoi\<close>: an optional
  sign, at least one decimal digit, nothing else, and a value that fits; \<open>None\<close> stands
  for the syntax and the range error alike, which the callers do not tell apart.
\<close>

definition ParseInt :: "string \<Rightarrow> int option" where
  "ParseInt s =
     (let neg = (take 1 s = ''-'');
          body = (if take 1 s = ''-'' \<or> take 1 s = ''+'' then drop 1 s else s)
      in if body = [] then None
         else case digits_val 0 body of
                None \<Rightarrow> None
              | Some n \<Rightarrow> (let v = (if neg then - int n else int n) in if int64_ok v then Some v else None))"

fun dec_nat :: "nat \<Rightarrow> string" where
  "dec_nat n =
     (if n < 10 then [char_of (48 + n)] else dec_nat (n div 10) @ [char_of (48 + n mod 10)])"

declare dec_nat.simps [simp del]

text \<open>\<open>strconv.FormatInt(n, 10)\<close>, \<open>strconv.Itoa\<close> and \<open>%d\<close>.\<close>

definition FormatInt :: "int \<Rightarrow> string" where
  "FormatInt n = (if n < 0 then ''-'' @ dec_nat (nat (- n)) else dec_nat (nat n))"

section \<open>fmt: quoted strings\<close>

text \<open>
  \<open>%q\<close>: the quote, the backslash and the control characters are escaped. Bytes outside ASCII are kept, as they
  are in a printable rune.
\<close>

definition hex_digit :: "nat \<Rightarrow> char" where
  "hex_digit n = char_of (if n < 10 then 48 + n else 87 + n)"

definition quote_char :: "char \<Rightarrow> string" where
  "quote_char c =
     (let n = (of_char c :: nat) in
      if n = 34 \<or> n = 92 then [CHR 0x5C, c]
      else if 7 \<le> n \<and> n \<le> 13 then [CHR 0x5C, ''abtnvfr'' ! (n - 7)]
      else if n < 32 \<or> n = 127 then [CHR 0x5C, CHR ''x'', hex_digit (n div 16), hex_digit (n mod 16)]
      else [c])"

definition Quote :: "string \<Rightarrow> string" where
  "Quote s = CHR 0x22 # concat (map quote_char s) @ [CHR 0x22]"

section \<open>utf8.ValidString\<close>

definition byte_in :: "nat \<Rightarrow> nat \<Rightarrow> char \<Rightarrow> bool" where
  "byte_in lo hi c \<longleftrightarrow> lo \<le> (of_char c :: nat) \<and> (of_char c :: nat) \<le> hi"

fun utf8_valid :: "string \<Rightarrow> bool" where
  "utf8_valid [] = True"
| "utf8_valid (c # cs) =
     (if byte_in 0 0x7F c then utf8_valid cs
      else if byte_in 0xC2 0xDF c then
        (case cs of c1 # r \<Rightarrow> byte_in 0x80 0xBF c1 \<and> utf8_valid r | _ \<Rightarrow> False)
      else if byte_in 0xE0 0xEF c then
        (case cs of c1 # c2 # r \<Rightarrow>
           byte_in (if c = CHR 0xE0 then 0xA0 else 0x80) (if c = CHR 0xED then 0x9F else 0xBF) c1 \<and>
           byte_in 0x80 0xBF c2 \<and> utf8_valid r | _ \<Rightarrow> False)
      else if byte_in 0xF0 0xF4 c then
        (case cs of c1 # c2 # c3 # r \<Rightarrow>
           byte_in (if c = CHR 0xF0 then 0x90 else 0x80) (if c = CHR 0xF4 then 0x8F else 0xBF) c1 \<and>
           byte_in 0x80 0xBF c2 \<and> byte_in 0x80 0xBF c3 \<and> utf8_valid r | _ \<Rightarrow> False)
      else False)"

declare utf8_valid.simps(2) [simp del]

text \<open>The length of the rune a string begins with, 0 where the bytes are not one.\<close>

fun rune_len :: "string \<Rightarrow> nat" where
  "rune_len [] = 0"
| "rune_len (c # cs) =
     (if byte_in 0 0x7F c then 1
      else if byte_in 0xC2 0xDF c then
        (case cs of c1 # r \<Rightarrow> if byte_in 0x80 0xBF c1 then 2 else 0 | _ \<Rightarrow> 0)
      else if byte_in 0xE0 0xEF c then
        (case cs of c1 # c2 # r \<Rightarrow>
           if byte_in (if c = CHR 0xE0 then 0xA0 else 0x80) (if c = CHR 0xED then 0x9F else 0xBF) c1 \<and>
              byte_in 0x80 0xBF c2 then 3 else 0 | _ \<Rightarrow> 0)
      else if byte_in 0xF0 0xF4 c then
        (case cs of c1 # c2 # c3 # r \<Rightarrow>
           if byte_in (if c = CHR 0xF0 then 0x90 else 0x80) (if c = CHR 0xF4 then 0x8F else 0xBF) c1 \<and>
              byte_in 0x80 0xBF c2 \<and> byte_in 0x80 0xBF c3 then 4 else 0 | _ \<Rightarrow> 0)
      else 0)"

declare rune_len.simps(2) [simp del]

text \<open>
  A string on its way through JSON: \<open>encoding/json\<close> writes every byte that is not part of a rune as
  U+FFFD, so what the other side decodes is valid.
\<close>

function to_valid :: "string \<Rightarrow> string" where
  "to_valid [] = []"
| "to_valid (c # cs) =
     (if rune_len (c # cs) = 0 then CHR 0xEF # CHR 0xBF # CHR 0xBD # to_valid cs
      else take (rune_len (c # cs)) (c # cs) @ to_valid (drop (rune_len (c # cs)) (c # cs)))"
  by pat_completeness auto

termination to_valid
  by (relation "measure length") auto

declare to_valid.simps(2) [simp del]

section \<open>time.Duration\<close>

definition pad_digits :: "nat \<Rightarrow> nat \<Rightarrow> string" where
  "pad_digits prec v = replicate (prec - length (dec_nat v)) CHR ''0'' @ dec_nat v"

text \<open>\<open>fmtFrac\<close>: the fraction of \<open>v / 10^prec\<close> without trailing zeros, with its point.\<close>

definition frac_text :: "nat \<Rightarrow> nat \<Rightarrow> string" where
  "frac_text prec v =
     (let ds = rev (dropWhile (\<lambda>c. c = CHR ''0'') (rev (pad_digits prec (v mod 10 ^ prec))))
      in if prec = 0 \<or> ds = [] then [] else CHR ''.'' # ds)"

definition duration_abs :: "nat \<Rightarrow> string" where
  "duration_abs u =
     (if u = 0 then ''0s''
      else if u < 10 ^ 3 then dec_nat u @ ''ns''
      else if u < 10 ^ 6 then dec_nat (u div 10 ^ 3) @ frac_text 3 u @ [CHR 0xC2, CHR 0xB5, CHR ''s'']
      else if u < 10 ^ 9 then dec_nat (u div 10 ^ 6) @ frac_text 6 u @ ''ms''
      else let sec = u div 10 ^ 9; mi = sec div 60; ho = mi div 60 in
           (if ho > 0 then dec_nat ho @ ''h'' else []) @
           (if mi > 0 then dec_nat (mi mod 60) @ ''m'' else []) @
           dec_nat (sec mod 60) @ frac_text 9 u @ ''s'')"

definition Duration_String :: "int \<Rightarrow> string" where
  "Duration_String d = (if d < 0 then ''-'' else []) @ duration_abs (nat \<bar>d\<bar>)"

section \<open>Text output\<close>

text \<open>\<open>utf8.RuneCountInString\<close>: a byte that starts no rune counts as one.\<close>

function rune_count :: "string \<Rightarrow> nat" where
  "rune_count [] = 0"
| "rune_count (c # cs) = Suc (rune_count (drop (max 1 (rune_len (c # cs))) (c # cs)))"
  by pat_completeness auto

termination rune_count
  by (relation "measure length") auto

text \<open>\<open>%-<n>s\<close>: widths count runes.\<close>

definition pad_right :: "nat \<Rightarrow> string \<Rightarrow> string" where
  "pad_right n s = s @ replicate (n - rune_count s) CHR '' ''"

definition line :: "string \<Rightarrow> string" where
  "line s = s @ [CHR 0x0A]"

section \<open>Facts\<close>

lemma trim_with_length: "length (trim_with ws s) \<le> length s"
proof (induction ws s rule: trim_with.induct)
  case (1 ws s)
  show ?case
  proof (cases "find (\<lambda>w. w \<noteq> [] \<and> starts_with w s) ws")
    case None
    then show ?thesis by (simp add: trim_with.simps [of ws s])
  next
    case (Some w)
    have "length (trim_with ws (drop (length w) s)) \<le> length (drop (length w) s)"
      by (rule "1.IH" [OF Some])
    then have "length (trim_with ws (drop (length w) s)) \<le> length s" by simp
    with Some show ?thesis by (simp add: trim_with.simps [of ws s])
  qed
qed

lemma trim_with_idem: "trim_with ws (trim_with ws s) = trim_with ws s"
proof (induction ws s rule: trim_with.induct)
  case (1 ws s)
  show ?case
  proof (cases "find (\<lambda>w. w \<noteq> [] \<and> starts_with w s) ws")
    case None
    then show ?thesis by (simp add: trim_with.simps [of ws s])
  next
    case (Some w)
    with "1.IH" show ?thesis by (simp add: trim_with.simps [of ws s])
  qed
qed

lemma digit_val_char: "k < 10 \<Longrightarrow> digit_val (char_of (48 + k)) = Some k"
  by (simp add: digit_val_def)

lemma digits_val_append:
  "digits_val a (xs @ ys) = (case digits_val a xs of None \<Rightarrow> None | Some b \<Rightarrow> digits_val b ys)"
  by (induction xs arbitrary: a) (auto split: option.splits)

lemma digits_val_dec_nat: "digits_val 0 (dec_nat n) = Some n"
proof (induction n rule: dec_nat.induct)
  case (1 n)
  show ?case
  proof (cases "n < 10")
    case True
    then show ?thesis by (subst dec_nat.simps) (simp add: digit_val_char)
  next
    case False
    with "1.IH" have "digits_val 0 (dec_nat (n div 10)) = Some (n div 10)" by simp
    moreover have "n mod 10 < 10" by simp
    ultimately show ?thesis using False
      by (subst dec_nat.simps) (simp add: digits_val_append digit_val_char)
  qed
qed

lemma dec_nat_hd_digit: "\<exists>c cs. dec_nat n = c # cs \<and> digit_val c \<noteq> None"
proof (induction n rule: dec_nat.induct)
  case (1 n)
  show ?case
  proof (cases "n < 10")
    case True
    then show ?thesis by (subst dec_nat.simps) (simp add: digit_val_char)
  next
    case False
    with "1.IH" obtain c cs where "dec_nat (n div 10) = c # cs" and "digit_val c \<noteq> None" by blast
    with False show ?thesis by (subst dec_nat.simps) simp
  qed
qed

lemma dec_nat_no_sign [simp]:
  "take (Suc 0) (dec_nat n) \<noteq> ''-''" "take (Suc 0) (dec_nat n) \<noteq> ''+''" "dec_nat n \<noteq> []"
  using dec_nat_hd_digit [of n] by (auto simp: digit_val_def split: if_splits)

lemma ParseInt_dec_nat: "int64_ok (int n) \<Longrightarrow> ParseInt (dec_nat n) = Some (int n)"
  by (simp add: ParseInt_def Let_def dec_nat_no_sign digits_val_dec_nat)

text \<open>Printing a 64-bit integer and parsing it back is the identity.\<close>

lemma ParseInt_FormatInt: "int64_ok n \<Longrightarrow> ParseInt (FormatInt n) = Some n"
proof (cases "n < 0")
  case True
  moreover assume "int64_ok n"
  ultimately show ?thesis
    by (simp add: FormatInt_def ParseInt_def Let_def dec_nat_no_sign digits_val_dec_nat)
next
  case False
  moreover assume "int64_ok n"
  ultimately show ?thesis by (simp add: FormatInt_def ParseInt_dec_nat)
qed

lemma ParseInt_range: "ParseInt s = Some v \<Longrightarrow> int64_ok v"
  by (auto simp: ParseInt_def Let_def split: if_splits option.splits)

lemma utf8_valid_ascii: "byte_in 0 0x7F c \<Longrightarrow> utf8_valid (c # cs) = utf8_valid cs"
  by (simp add: utf8_valid.simps(2))

lemma utf8_valid_replicate_ascii:
  "byte_in 0 0x7F c \<Longrightarrow> utf8_valid (replicate n c @ cs) = utf8_valid cs"
  by (induction n) (simp_all add: utf8_valid_ascii)

lemma rune_len_utf8_valid:
  "utf8_valid (c # cs) \<longleftrightarrow>
     rune_len (c # cs) \<noteq> 0 \<and> utf8_valid (drop (rune_len (c # cs)) (c # cs))"
proof -
  note defs = utf8_valid.simps(2) [of c] rune_len.simps(2) [of c]
  consider "byte_in 0 0x7F c" | "\<not> byte_in 0 0x7F c" "byte_in 0xC2 0xDF c"
    | "\<not> byte_in 0 0x7F c" "\<not> byte_in 0xC2 0xDF c" "byte_in 0xE0 0xEF c"
    | "\<not> byte_in 0 0x7F c" "\<not> byte_in 0xC2 0xDF c" "\<not> byte_in 0xE0 0xEF c" "byte_in 0xF0 0xF4 c"
    | "\<not> byte_in 0 0x7F c" "\<not> byte_in 0xC2 0xDF c" "\<not> byte_in 0xE0 0xEF c" "\<not> byte_in 0xF0 0xF4 c"
    by blast
  then show ?thesis
  proof cases
    case 2
    then show ?thesis by (cases cs) (simp_all add: defs)
  next
    case 3
    then show ?thesis by (cases cs; cases "tl cs") (auto simp: defs)
  next
    case 4
    then show ?thesis by (cases cs; cases "tl cs"; cases "tl (tl cs)") (auto simp: defs)
  qed (simp_all add: defs)
qed

text \<open>JSON leaves valid strings alone.\<close>

lemma to_valid_id: "utf8_valid s \<Longrightarrow> to_valid s = s"
proof (induction s rule: to_valid.induct)
  case (2 c cs)
  then show ?case by (simp add: rune_len_utf8_valid to_valid.simps(2))
qed simp

lemma to_valid_ascii: "byte_in 0 0x7F c \<Longrightarrow> to_valid (c # cs) = c # to_valid cs"
  by (simp add: to_valid.simps(2) rune_len.simps(2))

lemma to_valid_replicate_ascii:
  "byte_in 0 0x7F c \<Longrightarrow> to_valid (replicate n c @ cs) = replicate n c @ to_valid cs"
  by (induction n) (simp_all add: to_valid_ascii)

end
