(* ===== verification/Job.thy ===== *)
theory Job
  imports Prelude Go_Lib
begin

text \<open>
  The job model (\<open>internal/jobs/job.go\<close>): statuses, the rows of the two tables, the
  sentinel errors, validation of a creation request and the retry backoff. Durations are
  nanoseconds (\<open>time.Duration\<close>); timestamps are microseconds (\<open>TIMESTAMPTZ\<close>).
\<close>

section \<open>Status\<close>

datatype Status =
  StatusPending | StatusRunning | StatusCompleted | StatusFailed | StatusCanceled

text \<open>
  In Go a \<open>Status\<close> is a string. The schema's CHECK keeps every stored value among the
  five, so a row's status is this datatype; \<open>status_text\<close> is the string, and request
  parameters that have not been checked yet stay strings.
\<close>

fun status_text :: "Status \<Rightarrow> string" where
  "status_text StatusPending = ''PENDING''"
| "status_text StatusRunning = ''RUNNING''"
| "status_text StatusCompleted = ''COMPLETED''"
| "status_text StatusFailed = ''FAILED''"
| "status_text StatusCanceled = ''CANCELED''"

definition all_statuses :: "Status list" where
  "all_statuses = [StatusPending, StatusRunning, StatusCompleted, StatusFailed, StatusCanceled]"

instantiation Status :: enum
begin

definition enum_Status :: "Status list" where
  "enum_Status = [StatusPending, StatusRunning, StatusCompleted, StatusFailed, StatusCanceled]"

definition enum_all_Status :: "(Status \<Rightarrow> bool) \<Rightarrow> bool" where
  "enum_all_Status P \<longleftrightarrow>
     P StatusPending \<and> P StatusRunning \<and> P StatusCompleted \<and> P StatusFailed \<and> P StatusCanceled"

definition enum_ex_Status :: "(Status \<Rightarrow> bool) \<Rightarrow> bool" where
  "enum_ex_Status P \<longleftrightarrow>
     P StatusPending \<or> P StatusRunning \<or> P StatusCompleted \<or> P StatusFailed \<or> P StatusCanceled"

instance
proof
  show "(UNIV :: Status set) = set enum_class.enum"
    unfolding enum_Status_def using Status.exhaust by auto
  show "distinct (enum_class.enum :: Status list)" by (simp add: enum_Status_def)
  show "enum_class.enum_all P = Ball UNIV P" for P :: "Status \<Rightarrow> bool"
    unfolding enum_all_Status_def by (metis Status.exhaust UNIV_I)
  show "enum_class.enum_ex P = Bex UNIV P" for P :: "Status \<Rightarrow> bool"
    unfolding enum_ex_Status_def by (metis Status.exhaust UNIV_I)
qed

end

definition ValidStatus :: "string \<Rightarrow> bool" where
  "ValidStatus s \<longleftrightarrow>
     s = status_text StatusPending \<or> s = status_text StatusRunning \<or>
     s = status_text StatusCompleted \<or> s = status_text StatusFailed \<or>
     s = status_text StatusCanceled"

text \<open>The three states a job never leaves.\<close>

fun terminal :: "Status \<Rightarrow> bool" where
  "terminal StatusCompleted = True"
| "terminal StatusFailed = True"
| "terminal StatusCanceled = True"
| "terminal _ = False"

section \<open>Rows\<close>

type_synonym job_id = int
type_synonym worker_id = string
type_synonym duration = int
type_synonym timestamp = int

record Job =
  ID :: job_id
  Type :: string
  Payload :: string
  Status :: Status
  Attempts :: int
  MaxAttempts :: int
  CreatedAt :: timestamp
  UpdatedAt :: timestamp
  AvailableAt :: timestamp
  WorkerID :: "worker_id option"
  LeaseUntil :: "timestamp option"
  LastError :: "string option"
  ResultStdout :: "string option"
  ResultStderr :: "string option"
  ResultExitCode :: "int option"
  DurationMS :: "int option"

text \<open>A row of the workers table, and the API's view of it with the derived \<open>Alive\<close>.\<close>

record worker_row =
  WID :: worker_id
  Hostname :: string
  RegisteredAt :: timestamp
  LastHeartbeat :: timestamp
  JobsProcessed :: int
  CurrentJobID :: "job_id option"

record Worker = worker_row +
  Alive :: bool

section \<open>Errors\<close>

text \<open>
  The sentinel errors, and every other error the database layer returns (\<open>ErrDB\<close> with
  its message).
\<close>

datatype error =
  ErrNotFound | ErrNotClaimable | ErrNotOwned | ErrNotCancelable | ErrNoJobs | ErrUnknownWorker
| ErrDB string

section \<open>Validation\<close>

definition TypeShell :: string where
  "TypeShell = ''shell''"

definition MaxPayloadBytes :: nat where
  "MaxPayloadBytes = 64 * 1024"

datatype validation_error =
  TypeRequired | UnsupportedType string | PayloadRequired | PayloadTooLarge
| MaxAttemptsTooSmall | MaxAttemptsTooLarge

definition ValidateNew :: "string \<Rightarrow> string \<Rightarrow> int \<Rightarrow> validation_error option" where
  "ValidateNew typ0 payload maxAttempts =
     (let typ = TrimSpace typ0 in
      if typ = [] then Some TypeRequired
      else if typ \<noteq> TypeShell then Some (UnsupportedType typ)
      else if TrimSpace payload = [] then Some PayloadRequired
      else if length payload > MaxPayloadBytes then Some PayloadTooLarge
      else if maxAttempts < 1 then Some MaxAttemptsTooSmall
      else if maxAttempts > 100 then Some MaxAttemptsTooLarge
      else None)"

section \<open>Backoff\<close>

definition Second :: duration where
  "Second = 1000000000"

definition Minute :: duration where
  "Minute = 60 * Second"

record BackoffConfig =
  Base :: duration
  Max :: duration

definition DefaultBackoff :: BackoffConfig where
  "DefaultBackoff = \<lparr>Base = Second, Max = 5 * Minute\<rparr>"

text \<open>The ceiling and the base \<open>Delay\<close> works with once the zero values are replaced.\<close>

definition eff_base :: "BackoffConfig \<Rightarrow> duration" where
  "eff_base c = (if Base c \<le> 0 then Second else Base c)"

definition eff_max :: "BackoffConfig \<Rightarrow> duration" where
  "eff_max c = (if Max c \<le> 0 then 5 * Minute else Max c)"

text \<open>
  \<open>math.Pow(2, float64(attempt-1))\<close> is exact for the exponents 0 to 39 that reach it, and
  the product is an \<open>int64\<close> product, so it wraps.
\<close>

definition Delay :: "BackoffConfig \<Rightarrow> int \<Rightarrow> duration" where
  "Delay c attempt0 =
     (let attempt = (if attempt0 < 1 then 1 else attempt0);
          base = eff_base c;
          mx = eff_max c
      in if attempt > 40 then mx
         else let d = wrap64 (2 ^ nat (attempt - 1) * base)
              in if d \<le> 0 \<or> d > mx then mx else d)"

section \<open>Facts about statuses and validation\<close>

lemma status_text_inject [simp]: "status_text a = status_text b \<longleftrightarrow> a = b"
  by (cases a; cases b) simp_all

lemma ValidStatus_iff: "ValidStatus s \<longleftrightarrow> (\<exists>st. s = status_text st)"
  unfolding ValidStatus_def by (metis Status.exhaust)

lemma all_statuses_UNIV: "set all_statuses = UNIV"
  unfolding all_statuses_def using Status.exhaust by auto

lemma ValidateNew_None_iff:
  "ValidateNew typ payload n = None \<longleftrightarrow>
     TrimSpace typ = TypeShell \<and> TrimSpace payload \<noteq> [] \<and> length payload \<le> MaxPayloadBytes \<and>
     1 \<le> n \<and> n \<le> 100"
  by (auto simp: ValidateNew_def Let_def TypeShell_def)

section \<open>Facts about the backoff\<close>

lemma eff_max_pos: "0 < eff_max c"
  by (simp add: eff_max_def Minute_def Second_def)

lemma eff_base_pos: "0 < eff_base c"
  by (simp add: eff_base_def Second_def)

text \<open>
  Whatever the configuration and the attempt number, the retry delay is positive and
  never above the configured ceiling: a failed job is neither retried in a hot loop nor
  scheduled past the ceiling, wrap-around of the 64-bit product included.
\<close>

lemma Delay_positive_and_capped:
  "0 < Delay c attempt \<and> Delay c attempt \<le> eff_max c"
  using eff_max_pos [of c] by (auto simp: Delay_def Let_def)

lemma Delay_no_overflow:
  assumes "1 \<le> a" "a \<le> 40" and "2 ^ nat (a - 1) * eff_base c < 2 ^ 63"
  shows "Delay c a = min (2 ^ nat (a - 1) * eff_base c) (eff_max c)"
proof -
  have pos: "0 < 2 ^ nat (a - 1) * eff_base c" using eff_base_pos by simp
  then have "wrap64 (2 ^ nat (a - 1) * eff_base c) = 2 ^ nat (a - 1) * eff_base c"
    using assms(3) by (intro wrap64_id) (simp add: int64_ok_def)
  with assms(1,2) pos show ?thesis by (simp add: Delay_def Let_def min_def)
qed

lemma Delay_past_40: "40 < a \<Longrightarrow> Delay c a = eff_max c"
  by (simp add: Delay_def Let_def)

lemma default_simps [simp]:
  "eff_base DefaultBackoff = 1000000000" "eff_max DefaultBackoff = 300000000000"
  by (simp_all add: eff_base_def eff_max_def DefaultBackoff_def Second_def Minute_def)

lemma Delay_default_capped: "10 \<le> a \<Longrightarrow> Delay DefaultBackoff a = 300000000000"
proof (cases "a \<le> 40")
  case True
  moreover assume "10 \<le> a"
  ultimately have "a \<in> {10..40}" by simp
  moreover have "{10..40::int} = {10, 11, 12, 13, 14, 15, 16, 17, 18, 19, 20, 21, 22, 23, 24, 25,
      26, 27, 28, 29, 30, 31, 32, 33, 34, 35, 36, 37, 38, 39, 40}"
    by (simp add: simp_from_to)
  ultimately show ?thesis by (auto simp: Delay_def Let_def wrap64_def)
next
  case False
  then show ?thesis by (simp add: Delay_past_40)
qed

text \<open>
  C38. With the default policy the delay after \<open>attempt\<close> failures is exactly
  1s, 2s, 4s, ... doubling per attempt and cut off at 5 minutes, for every attempt number
  (counts below 1 are read as 1), although the product overflows \<open>int64\<close> from attempt 35 on.
\<close>

theorem Delay_default_exact:
  "Delay DefaultBackoff attempt = min (2 ^ nat (max 1 attempt - 1) * Second) (5 * Minute)"
proof (cases "10 \<le> attempt")
  case True
  then have "9 \<le> nat (max 1 attempt - 1)" by simp
  then have "(2::int) ^ 9 \<le> 2 ^ nat (max 1 attempt - 1)" by (rule power_increasing) simp
  then have "5 * Minute \<le> 2 ^ nat (max 1 attempt - 1) * Second"
    by (simp add: Minute_def Second_def)
  with True show ?thesis by (simp add: Delay_default_capped Minute_def Second_def min_def)
next
  case False
  define a where "a = max 1 attempt"
  have a: "1 \<le> a" "a \<le> 9" using False by (auto simp: a_def)
  then have "(2::int) ^ nat (a - 1) \<le> 2 ^ 8" by (intro power_increasing) auto
  with a have "Delay DefaultBackoff a = min (2 ^ nat (a - 1) * Second) (5 * Minute)"
    by (subst Delay_no_overflow) (auto simp: Second_def Minute_def)
  moreover have "Delay DefaultBackoff attempt = Delay DefaultBackoff a"
    by (simp add: Delay_def a_def)
  ultimately show ?thesis by (simp add: a_def)
qed

text \<open>
  Where the doubled base fits 64 bits, waits never shrink from one attempt to the next.
\<close>

lemma Delay_monotone:
  assumes "eff_base c * 2 ^ 39 < 2 ^ 63" and "a \<le> b"
  shows "Delay c a \<le> Delay c b"
proof -
  have fit: "2 ^ nat (x - 1) * eff_base c < 2 ^ 63" if "x \<le> 40" for x
  proof -
    have "(2::int) ^ nat (x - 1) \<le> 2 ^ 39" using that by (intro power_increasing) auto
    then have "2 ^ nat (x - 1) * eff_base c \<le> 2 ^ 39 * eff_base c"
      using eff_base_pos [of c] by (intro mult_right_mono) auto
    with assms(1) show ?thesis by (simp add: mult.commute)
  qed
  have norm: "Delay c x = Delay c (max 1 x)" for x by (simp add: Delay_def)
  show ?thesis
  proof (cases "max 1 b \<le> 40")
    case True
    have "(2::int) ^ nat (max 1 a - 1) \<le> 2 ^ nat (max 1 b - 1)"
      using assms(2) by (intro power_increasing) auto
    then have "2 ^ nat (max 1 a - 1) * eff_base c \<le> 2 ^ nat (max 1 b - 1) * eff_base c"
      using eff_base_pos [of c] by (intro mult_right_mono) auto
    with True assms(2) show ?thesis
      using norm [of a] norm [of b] Delay_no_overflow [of "max 1 a" c] Delay_no_overflow [of "max 1 b" c]
        fit [of "max 1 a"] fit [of "max 1 b"] by (auto intro: min.coboundedI1)
  next
    case False
    then have "Delay c b = eff_max c" by (intro Delay_past_40) simp
    then show ?thesis by (simp add: Delay_def Let_def)
  qed
qed

lemma Delay_monotone_witness:
  "Delay \<lparr>Base = 1000000, Max = Minute\<rparr> 3 \<le> Delay \<lparr>Base = 1000000, Max = Minute\<rparr> 7"
  by (rule Delay_monotone) (simp_all add: eff_base_def)

text \<open>
  Outside that range the guard \<open>d <= 0 || d > max\<close> does not notice every wrapped product:
  with a base of 1.006632961s and a ceiling of 24h the wait after 40 failures is about
  550s, while after 20 failures it is the full 24h.
\<close>

lemma Delay_overflow_unnoticed:
  "Delay \<lparr>Base = 1006632961, Max = 1440 * Minute\<rparr> 40 = 549755813888 \<and>
   Delay \<lparr>Base = 1006632961, Max = 1440 * Minute\<rparr> 20 = 1440 * Minute"
  by (simp add: Delay_def Let_def eff_base_def eff_max_def wrap64_def Minute_def Second_def)

end
