(* ===== verification/Postgres.thy ===== *)
theory Postgres
  imports Job
begin

text \<open>
  The database as the store sees it: the two tables of \<open>migrations/001_init.sql\<close> and the
  \<open>jobs\<close> id sequence, and a \<open>session\<close> that holds what the database service decides during
  one store call. A table is a list of rows; the list order is the order in which a scan
  meets the rows, which no property depends on.
\<close>

section \<open>Tables\<close>

record db =
  jobs :: "Job list"
  workers :: "worker_row list"
  jobs_id_seq :: job_id

definition empty_db :: db where
  "empty_db = \<lparr>jobs = [], workers = [], jobs_id_seq = 1\<rparr>"

section \<open>The service during one call\<close>

text \<open>
  The calls of \<open>database/sql\<close> a store method makes, each named once per method.
\<close>

datatype dbcall =
  BeginTx | Commit | RowsAffected
| InsertJob | GetJob | ReplayGet | ListJobs | UpdateJob | UpdateWorker
| SelectExpired | ScanExpired | ReapJob job_id | ReapWorker job_id
| UpsertWorker | HeartbeatRow | SelectWorkers | SelectStats

text \<open>
  \<^item> \<open>now\<close>: the transaction timestamp (every method has one transaction that reads it);
  \<^item> \<open>locked\<close>: the job rows other transactions hold locked while a SKIP LOCKED scan runs;
  \<^item> \<open>fault c\<close>: the error call \<open>c\<close> returns, if it fails (lost connection, cancelled
    context, server error);
  \<^item> \<open>lost_ack\<close>: whether a commit that reports an error to the client took effect anyway;
  \<^item> \<open>interval d\<close>: \<open>make_interval(secs => d.Seconds())\<close> in microseconds;
  \<^item> \<open>text_ok s\<close>: whether the server accepts the bytes \<open>s\<close> as a TEXT value;
  \<^item> \<open>others c\<close>: what other sessions commit just before call \<open>c\<close>, where \<open>c\<close> opens a
    further transaction of the same method.
\<close>

record session =
  now :: timestamp
  locked :: "job_id set"
  fault :: "dbcall \<Rightarrow> string option"
  lost_ack :: bool
  interval :: "duration \<Rightarrow> int"
  text_ok :: "string \<Rightarrow> bool"
  others :: "dbcall \<Rightarrow> db \<Rightarrow> db"

text \<open>A session in which nothing fails, nothing is locked and nobody interferes.\<close>

definition quiet :: "timestamp \<Rightarrow> session" where
  "quiet t = \<lparr>now = t, locked = {}, fault = (\<lambda>_. None), lost_ack = False,
     interval = (\<lambda>d. d div 1000), text_ok = (\<lambda>_. True), others = (\<lambda>_ d. d)\<rparr>"

definition no_faults :: "session \<Rightarrow> bool" where
  "no_faults s \<longleftrightarrow> (\<forall>c. fault s c = None)"

section \<open>Statements and transactions\<close>

definition bind_ok :: "session \<Rightarrow> string list \<Rightarrow> bool" where
  "bind_ok s texts \<longleftrightarrow> list_all (text_ok s) texts"

definition bad_text :: error where
  "bad_text = ErrDB ''invalid byte sequence''"

definition bad_int :: error where
  "bad_int = ErrDB ''integer out of range''"

text \<open>A single statement outside a transaction: it commits by itself.\<close>

definition autocommit :: "session \<Rightarrow> dbcall \<Rightarrow> 'a \<Rightarrow> db \<Rightarrow> db \<Rightarrow> (error + 'a) \<times> db" where
  "autocommit s c r d d' =
     (case fault s c of
        None \<Rightarrow> (Inr r, d')
      | Some m \<Rightarrow> (Inl (ErrDB m), if lost_ack s then d' else d))"

definition withTx :: "session \<Rightarrow> (db \<Rightarrow> (error + 'a) \<times> db) \<Rightarrow> db \<Rightarrow> (error + 'a) \<times> db" where
  "withTx s fn d =
     (case fault s BeginTx of
        Some m \<Rightarrow> (Inl (ErrDB (''begin transaction: '' @ m)), d)
      | None \<Rightarrow>
          (case fn d of
             (Inl e, _) \<Rightarrow> (Inl e, d)
           | (Inr a, d') \<Rightarrow> autocommit s Commit a d d'))"

section \<open>Facts\<close>

lemma quiet_simps [simp]:
  "now (quiet t) = t" "locked (quiet t) = {}" "fault (quiet t) c = None"
  "interval (quiet t) i = i div 1000" "text_ok (quiet t) x" "others (quiet t) c d = d"
  "bind_ok (quiet t) xs" "no_faults (quiet t)"
  by (simp_all add: quiet_def bind_ok_def no_faults_def list_all_iff)

lemma no_faultsD [simp]: "no_faults s \<Longrightarrow> fault s c = None"
  by (simp add: no_faults_def)

lemma autocommit_ok [simp]: "fault s c = None \<Longrightarrow> autocommit s c r d d' = (Inr r, d')"
  by (simp add: autocommit_def)

lemma autocommit_db: "snd (autocommit s c r d d') = d \<or> snd (autocommit s c r d d') = d'"
  by (simp add: autocommit_def split: option.split)

lemma autocommit_Inr: "autocommit s c r d d' = (Inr a, x) \<Longrightarrow> a = r \<and> x = d'"
  by (auto simp: autocommit_def split: option.splits)

lemma withTx_no_faults:
  "no_faults s \<Longrightarrow>
   withTx s fn d = (case fn d of (Inl e, _) \<Rightarrow> (Inl e, d) | (Inr a, d') \<Rightarrow> (Inr a, d'))"
  by (simp add: withTx_def split: prod.split sum.split)

text \<open>After \<open>withTx\<close> the tables are as before or as the successful body left them.\<close>

lemma withTx_db:
  "snd (withTx s fn d) = d \<or> (\<exists>a. fn d = (Inr a, snd (withTx s fn d)))"
  using autocommit_db [of s Commit _ d]
  by (fastforce simp: withTx_def split: option.split prod.split sum.split)

lemma withTx_Inr: "withTx s fn d = (Inr a, d') \<Longrightarrow> fn d = (Inr a, d')"
  by (auto simp: withTx_def dest: autocommit_Inr split: option.splits prod.splits sum.splits)

text \<open>
  A transaction that returns an error has changed nothing, whichever of its steps
  failed, except when the error is that of the commit itself and only its acknowledgement
  was lost.
\<close>

lemma withTx_rolls_back:
  assumes "withTx s fn d = (Inl e, d')" and "fault s Commit = None \<or> \<not> lost_ack s"
  shows "d' = d"
  using assms by (auto simp: withTx_def autocommit_def split: option.splits prod.splits sum.splits)

end
