(* ===== verification/Store.thy ===== *)
theory Store
  imports Postgres
begin

text \<open>
  Every method of \<open>jobs.Store\<close> (\<open>internal/jobs/store.go\<close>): each takes the \<open>session\<close> that
  says what the database service does during the call, the method's arguments and the
  tables, and returns the Go result and the tables afterwards. SQL statements are
  translated clause by clause: WHERE is the predicate of \<open>update_where\<close> or \<open>filter\<close>,
  SET is a record update, ORDER BY is \<open>sort_key\<close>, LIMIT is \<open>take\<close>.
\<close>

section \<open>Creation and reads\<close>

definition new_job :: "session \<Rightarrow> string \<Rightarrow> string \<Rightarrow> int \<Rightarrow> db \<Rightarrow> Job" where
  "new_job s typ payload maxAttempts d =
     \<lparr>ID = jobs_id_seq d, Type = typ, Payload = payload, Status = StatusPending,
      Attempts = 0, MaxAttempts = maxAttempts, CreatedAt = now s, UpdatedAt = now s,
      AvailableAt = now s, WorkerID = None, LeaseUntil = None, LastError = None,
      ResultStdout = None, ResultStderr = None, ResultExitCode = None, DurationMS = None\<rparr>"

definition Create ::
  "session \<Rightarrow> string \<Rightarrow> string \<Rightarrow> int \<Rightarrow> db \<Rightarrow> (error + Job) \<times> db" where
  [sql_defs]: "Create s typ payload maxAttempts d =
     (if \<not> bind_ok s [typ, payload] then (Inl bad_text, d)
      else if \<not> int4_ok maxAttempts then (Inl bad_int, d)
      else if maxAttempts < 1
        then (Inl (ErrDB ''jobs_max_attempts_check''), d\<lparr>jobs_id_seq := jobs_id_seq d + 1\<rparr>)
      else autocommit s InsertJob (new_job s typ payload maxAttempts d) d
             (d\<lparr>jobs := jobs d @ [new_job s typ payload maxAttempts d],
                jobs_id_seq := jobs_id_seq d + 1\<rparr>))"

definition Get :: "session \<Rightarrow> dbcall \<Rightarrow> job_id \<Rightarrow> db \<Rightarrow> error + Job" where
  [sql_defs]: "Get s c i d =
     (case fault s c of
        Some m \<Rightarrow> Inl (ErrDB m)
      | None \<Rightarrow> (case find (\<lambda>j. ID j = i) (jobs d) of
                   None \<Rightarrow> Inl ErrNotFound
                 | Some j \<Rightarrow> Inr j))"

definition List_jobs :: "session \<Rightarrow> string \<Rightarrow> int \<Rightarrow> int \<Rightarrow> db \<Rightarrow> error + Job list" where
  [sql_defs]: "List_jobs s status limit0 offset0 d =
     (let limit = (if limit0 \<le> 0 \<or> limit0 > 500 then 100 else limit0);
          offset = (if offset0 < 0 then 0 else offset0)
      in if status \<noteq> [] \<and> \<not> bind_ok s [status] then Inl bad_text
         else case fault s ListJobs of
           Some m \<Rightarrow> Inl (ErrDB m)
         | None \<Rightarrow> Inr (take (nat limit) (drop (nat offset)
                     (sort_key (\<lambda>j. - ID j)
                        (filter (\<lambda>j. status = [] \<or> status_text (Status j) = status) (jobs d))))))"

section \<open>Claim\<close>

definition claimable :: "session \<Rightarrow> Job \<Rightarrow> bool" where
  "claimable s j \<longleftrightarrow> Status j = StatusPending \<and> AvailableAt j \<le> now s"

definition claim_order :: "Job \<Rightarrow> timestamp \<times> job_id" where
  "claim_order j = (AvailableAt j, ID j)"

text \<open>
  The inner SELECT: claimable rows that no other transaction holds, in claim order, the
  first one.
\<close>

definition claim_pick :: "session \<Rightarrow> db \<Rightarrow> Job option" where
  "claim_pick s d =
     (case take 1 (sort_key claim_order
                     (filter (\<lambda>j. claimable s j \<and> ID j \<notin> locked s) (jobs d))) of
        [] \<Rightarrow> None
      | j # _ \<Rightarrow> Some j)"

definition claim_set :: "session \<Rightarrow> worker_id \<Rightarrow> duration \<Rightarrow> Job \<Rightarrow> Job" where
  "claim_set s w lease j =
     j\<lparr>Status := StatusRunning, WorkerID := Some w,
       LeaseUntil := Some (now s + interval s lease),
       Attempts := Attempts j + 1, UpdatedAt := now s\<rparr>"

definition claim_worker_set :: "session \<Rightarrow> job_id \<Rightarrow> worker_row \<Rightarrow> worker_row" where
  "claim_worker_set s i r = r\<lparr>CurrentJobID := Some i, LastHeartbeat := now s\<rparr>"

definition claim_tx :: "session \<Rightarrow> worker_id \<Rightarrow> duration \<Rightarrow> db \<Rightarrow> (error + Job) \<times> db" where
  [sql_defs]: "claim_tx s w lease d =
     (if \<not> bind_ok s [w] then (Inl bad_text, d)
      else case fault s UpdateJob of
        Some m \<Rightarrow> (Inl (ErrDB m), d)
      | None \<Rightarrow>
        (case claim_pick s d of
           None \<Rightarrow> (Inl ErrNoJobs, d)
         | Some j \<Rightarrow>
           if \<not> int4_ok (Attempts j + 1) then (Inl bad_int, d)
           else
             let d1 = d\<lparr>jobs := update_where (\<lambda>r. ID r = ID j) (claim_set s w lease) (jobs d)\<rparr>;
                 n = length (filter (\<lambda>r. WID r = w) (workers d1));
                 d2 = d1\<lparr>workers := update_where (\<lambda>r. WID r = w) (claim_worker_set s (ID j))
                                      (workers d1)\<rparr>
             in case fault s UpdateWorker of
                  Some m \<Rightarrow> (Inl (ErrDB m), d1)
                | None \<Rightarrow>
                  (case fault s RowsAffected of
                     Some m \<Rightarrow> (Inl (ErrDB m), d2)
                   | None \<Rightarrow> if n = 0 then (Inl ErrUnknownWorker, d2)
                             else (Inr (claim_set s w lease j), d2))))"

definition Claim :: "session \<Rightarrow> worker_id \<Rightarrow> duration \<Rightarrow> db \<Rightarrow> (error + Job) \<times> db" where
  [sql_defs]: "Claim s w lease d = withTx s (claim_tx s w lease) d"

section \<open>Lease renewal\<close>

text \<open>The WHERE clause of every worker report: \<open>id = $1 AND status = 'RUNNING' AND worker_id = $2\<close>.\<close>

definition owned :: "job_id \<Rightarrow> worker_id \<Rightarrow> Job \<Rightarrow> bool" where
  "owned i w j \<longleftrightarrow> ID j = i \<and> Status j = StatusRunning \<and> WorkerID j = Some w"

definition renew_set :: "session \<Rightarrow> duration \<Rightarrow> Job \<Rightarrow> Job" where
  "renew_set s lease j = j\<lparr>LeaseUntil := Some (now s + interval s lease), UpdatedAt := now s\<rparr>"

definition explainLostRow :: "session \<Rightarrow> job_id \<Rightarrow> db \<Rightarrow> error" where
  "explainLostRow s i d = (case Get s GetJob i d of Inl e \<Rightarrow> e | Inr _ \<Rightarrow> ErrNotOwned)"

definition RenewLease ::
  "session \<Rightarrow> job_id \<Rightarrow> worker_id \<Rightarrow> duration \<Rightarrow> db \<Rightarrow> (error + Job) \<times> db" where
  [sql_defs]: "RenewLease s i w lease d =
     (if \<not> bind_ok s [w] then (Inl bad_text, d)
      else case find (owned i w) (jobs d) of
        Some j \<Rightarrow> autocommit s UpdateJob (renew_set s lease j) d
                    (d\<lparr>jobs := update_where (owned i w) (renew_set s lease) (jobs d)\<rparr>)
      | None \<Rightarrow>
        (case fault s UpdateJob of
           Some m \<Rightarrow> (Inl (ErrDB m), d)
         | None \<Rightarrow> let d' = others s GetJob d in (Inl (explainLostRow s i d'), d')))"

section \<open>Reports: complete and fail\<close>

record Result =
  Stdout :: string
  Stderr :: string
  ExitCode :: "int option"
  ResDurationMS :: "int option"
  ResError :: string

definition MaxResultBytes :: nat where
  "MaxResultBytes = 32 * 1024"

definition TruncateOutput :: "string \<Rightarrow> string" where
  "TruncateOutput s =
     (if length s \<le> MaxResultBytes then s
      else take MaxResultBytes s @ CHR 0x0A # ''...[truncated]'')"

definition exit_ok :: "int option \<Rightarrow> bool" where
  "exit_ok c = (case c of None \<Rightarrow> True | Some n \<Rightarrow> int4_ok n)"

definition done_worker_set :: "session \<Rightarrow> worker_row \<Rightarrow> worker_row" where
  "done_worker_set s r =
     r\<lparr>JobsProcessed := JobsProcessed r + 1, CurrentJobID := None, LastHeartbeat := now s\<rparr>"

text \<open>
  The transaction body \<open>finish\<close> and \<open>Fail\<close> share: the guarded UPDATE with its bound
  values, then the worker's counters. \<open>ErrNoJobs\<close> stands for "matched no row".
\<close>

definition report_tx ::
  "session \<Rightarrow> string list \<Rightarrow> int option \<Rightarrow> (Job \<Rightarrow> Job) \<Rightarrow> job_id \<Rightarrow> worker_id \<Rightarrow> db \<Rightarrow>
   (error + Job) \<times> db" where
  [sql_defs]: "report_tx s texts code upd i w d =
     (if \<not> bind_ok s texts then (Inl bad_text, d)
      else if \<not> exit_ok code then (Inl bad_int, d)
      else case fault s UpdateJob of
        Some m \<Rightarrow> (Inl (ErrDB m), d)
      | None \<Rightarrow>
        (case find (owned i w) (jobs d) of
           None \<Rightarrow> (Inl ErrNoJobs, d)
         | Some j \<Rightarrow>
           let d1 = d\<lparr>jobs := update_where (owned i w) upd (jobs d)\<rparr>
           in case fault s UpdateWorker of
                Some m \<Rightarrow> (Inl (ErrDB m), d1)
              | None \<Rightarrow>
                (Inr (upd j),
                 d1\<lparr>workers := update_where (\<lambda>r. WID r = w) (done_worker_set s) (workers d1)\<rparr>)))"

definition replayOrConflict ::
  "session \<Rightarrow> job_id \<Rightarrow> worker_id \<Rightarrow> Status \<Rightarrow> db \<Rightarrow> error + Job" where
  [sql_defs]: "replayOrConflict s i w want d =
     (case Get s ReplayGet i d of
        Inl e \<Rightarrow> Inl e
      | Inr cur \<Rightarrow>
          if Status cur = want \<and> WorkerID cur = Some w then Inr cur
          else if want = StatusFailed \<and> Status cur = StatusPending \<and> WorkerID cur = None
            then Inr cur
          else Inl ErrNotOwned)"

text \<open>What both callers do with the transaction's outcome.\<close>

definition settle ::
  "session \<Rightarrow> job_id \<Rightarrow> worker_id \<Rightarrow> Status \<Rightarrow> (error + Job) \<times> db \<Rightarrow> (error + Job) \<times> db" where
  [sql_defs]: "settle s i w want r =
     (case r of
        (Inl ErrNoJobs, d) \<Rightarrow>
          (let d' = others s ReplayGet d in (replayOrConflict s i w want d', d'))
      | _ \<Rightarrow> r)"

definition complete_set :: "session \<Rightarrow> worker_id \<Rightarrow> Result \<Rightarrow> Job \<Rightarrow> Job" where
  "complete_set s w res j =
     j\<lparr>Status := StatusCompleted, WorkerID := Some w, LeaseUntil := None, UpdatedAt := now s,
       ResultStdout := Some (TruncateOutput (Stdout res)),
       ResultStderr := Some (TruncateOutput (Stderr res)),
       ResultExitCode := ExitCode res, DurationMS := ResDurationMS res, LastError := None\<rparr>"

definition finish ::
  "session \<Rightarrow> (Job \<Rightarrow> Job) \<Rightarrow> job_id \<Rightarrow> worker_id \<Rightarrow> Result \<Rightarrow> Status \<Rightarrow> db \<Rightarrow>
   (error + Job) \<times> db" where
  [sql_defs]: "finish s upd i w res want d =
     settle s i w want
       (withTx s (report_tx s [w, TruncateOutput (Stdout res), TruncateOutput (Stderr res)]
                    (ExitCode res) upd i w) d)"

definition Complete ::
  "session \<Rightarrow> job_id \<Rightarrow> worker_id \<Rightarrow> Result \<Rightarrow> db \<Rightarrow> (error + Job) \<times> db" where
  [sql_defs]: "Complete s i w res d = finish s (complete_set s w res) i w res StatusCompleted d"

definition fail_set :: "session \<Rightarrow> worker_id \<Rightarrow> Result \<Rightarrow> duration \<Rightarrow> Job \<Rightarrow> Job" where
  "fail_set s w res delay j =
     j\<lparr>Status := (if Attempts j \<ge> MaxAttempts j then StatusFailed else StatusPending),
       WorkerID := (if Attempts j \<ge> MaxAttempts j then Some w else None),
       LeaseUntil := None,
       AvailableAt := now s + interval s delay,
       UpdatedAt := now s,
       LastError := Some (TruncateOutput (ResError res)),
       ResultStdout := Some (TruncateOutput (Stdout res)),
       ResultStderr := Some (TruncateOutput (Stderr res)),
       ResultExitCode := ExitCode res, DurationMS := ResDurationMS res\<rparr>"

definition Fail ::
  "session \<Rightarrow> BackoffConfig \<Rightarrow> job_id \<Rightarrow> worker_id \<Rightarrow> Result \<Rightarrow> db \<Rightarrow> (error + Job) \<times> db" where
  [sql_defs]: "Fail s cfg i w res d =
     (case Get s GetJob i d of
        Inl e \<Rightarrow> (Inl e, d)
      | Inr cur \<Rightarrow>
          let delay = Delay cfg (Attempts cur);
              d0 = others s BeginTx d
          in settle s i w StatusFailed
               (withTx s (report_tx s
                   [w, TruncateOutput (Stdout res), TruncateOutput (Stderr res),
                    TruncateOutput (ResError res)]
                   (ExitCode res) (fail_set s w res delay) i w) d0))"

section \<open>Cancel\<close>

definition cancel_set :: "session \<Rightarrow> Job \<Rightarrow> Job" where
  "cancel_set s j = j\<lparr>Status := StatusCanceled, UpdatedAt := now s, LeaseUntil := None\<rparr>"

definition Cancel :: "session \<Rightarrow> job_id \<Rightarrow> db \<Rightarrow> (error + Job) \<times> db" where
  [sql_defs]: "Cancel s i d =
     (case find (\<lambda>j. ID j = i \<and> Status j = StatusPending) (jobs d) of
        Some j \<Rightarrow> autocommit s UpdateJob (cancel_set s j) d
                    (d\<lparr>jobs := update_where (\<lambda>j. ID j = i \<and> Status j = StatusPending)
                                 (cancel_set s) (jobs d)\<rparr>)
      | None \<Rightarrow>
        (case fault s UpdateJob of
           Some m \<Rightarrow> (Inl (ErrDB m), d)
         | None \<Rightarrow>
           let d' = others s GetJob d
           in (case Get s GetJob i d' of
                 Inl e \<Rightarrow> (Inl e, d')
               | Inr cur \<Rightarrow>
                   if Status cur = StatusCanceled then (Inr cur, d')
                   else (Inl ErrNotCancelable, d'))))"

section \<open>Lease recovery\<close>

record Reaped =
  RID :: job_id
  RAttempts :: int
  RStatus :: Status
  RWorker :: worker_id

definition expired :: "session \<Rightarrow> Job \<Rightarrow> bool" where
  "expired s j \<longleftrightarrow>
     Status j = StatusRunning \<and> (case LeaseUntil j of None \<Rightarrow> False | Some t \<Rightarrow> t < now s)"

definition lease_key :: "Job \<Rightarrow> timestamp" where
  "lease_key j = (case LeaseUntil j of None \<Rightarrow> 0 | Some t \<Rightarrow> t)"

definition reap_select :: "session \<Rightarrow> int \<Rightarrow> db \<Rightarrow> Job list" where
  "reap_select s batch d =
     take (nat batch)
       (sort_key lease_key (filter (\<lambda>j. expired s j \<and> ID j \<notin> locked s) (jobs d)))"

definition holder :: "Job \<Rightarrow> worker_id" where
  "holder j = (case WorkerID j of None \<Rightarrow> [] | Some w \<Rightarrow> w)"

definition reap_msg :: "worker_id \<Rightarrow> string" where
  "reap_msg w = ''lease expired (worker '' @ w @ '' stopped reporting)''"

definition reap_next :: "Job \<Rightarrow> Status" where
  "reap_next e = (if Attempts e \<ge> MaxAttempts e then StatusFailed else StatusPending)"

definition reap_set :: "session \<Rightarrow> Status \<Rightarrow> duration \<Rightarrow> string \<Rightarrow> Job \<Rightarrow> Job" where
  "reap_set s next delay msg j =
     j\<lparr>Status := next,
       WorkerID := (if next = StatusFailed then WorkerID j else None),
       LeaseUntil := None,
       AvailableAt := now s + interval s delay,
       LastError := Some msg, UpdatedAt := now s\<rparr>"

text \<open>One turn of the loop over the rows found: the two UPDATEs for row \<open>e\<close>.\<close>

definition reap_job :: "session \<Rightarrow> BackoffConfig \<Rightarrow> Job \<Rightarrow> db \<Rightarrow> db" where
  "reap_job s cfg e d =
     d\<lparr>jobs := update_where (\<lambda>r. ID r = ID e \<and> Status r = StatusRunning)
                 (reap_set s (reap_next e) (Delay cfg (Attempts e)) (reap_msg (holder e))) (jobs d)\<rparr>"

definition reap_worker :: "Job \<Rightarrow> db \<Rightarrow> db" where
  "reap_worker e d =
     (if holder e \<noteq> []
      then d\<lparr>workers := update_where (\<lambda>r. WID r = holder e \<and> CurrentJobID r = Some (ID e))
                          (\<lambda>r. r\<lparr>CurrentJobID := None\<rparr>) (workers d)\<rparr>
      else d)"

definition reaped_of :: "Job \<Rightarrow> Reaped" where
  "reaped_of e =
     \<lparr>RID = ID e, RAttempts = Attempts e, RStatus = reap_next e, RWorker = holder e\<rparr>"

fun reap_loop ::
  "session \<Rightarrow> BackoffConfig \<Rightarrow> Job list \<Rightarrow> Reaped list \<Rightarrow> db \<Rightarrow> Reaped list \<times> error option \<times> db" where
  "reap_loop s cfg [] out d = (out, None, d)"
| "reap_loop s cfg (e # es) out d =
     (if \<not> bind_ok s [reap_msg (holder e)] then (out, Some bad_text, d)
      else case fault s (ReapJob (ID e)) of
        Some m \<Rightarrow> (out, Some (ErrDB m), d)
      | None \<Rightarrow>
        (case (if holder e \<noteq> [] then fault s (ReapWorker (ID e)) else None) of
           Some m \<Rightarrow> (out, Some (ErrDB m), reap_job s cfg e d)
         | None \<Rightarrow> reap_loop s cfg es (out @ [reaped_of e]) (reap_worker e (reap_job s cfg e d))))"

definition reap_tx ::
  "session \<Rightarrow> BackoffConfig \<Rightarrow> int \<Rightarrow> db \<Rightarrow> Reaped list \<times> error option \<times> db" where
  [sql_defs]: "reap_tx s cfg batch d =
     (case fault s SelectExpired of
        Some m \<Rightarrow> ([], Some (ErrDB m), d)
      | None \<Rightarrow>
        (case fault s ScanExpired of
           Some m \<Rightarrow> ([], Some (ErrDB m), d)
         | None \<Rightarrow> reap_loop s cfg (reap_select s batch d) [] d))"

text \<open>
  The Go method returns \<open>out, err\<close>: \<open>out\<close> is filled inside the transaction, so it can be
  non-empty beside an error.
\<close>

definition ReapExpiredLeases ::
  "session \<Rightarrow> BackoffConfig \<Rightarrow> int \<Rightarrow> db \<Rightarrow> (Reaped list \<times> error option) \<times> db" where
  [sql_defs]: "ReapExpiredLeases s cfg batch0 d =
     (let batch = (if batch0 \<le> 0 then 100 else batch0);
          body = (\<lambda>d. case reap_tx s cfg batch d of
                         (_, Some e, d') \<Rightarrow> (Inl e, d')
                       | (out, None, d') \<Rightarrow> (Inr out, d'));
          out = (if fault s BeginTx = None then fst (reap_tx s cfg batch d) else [])
      in case withTx s body d of
           (Inl e, d') \<Rightarrow> ((out, Some e), d')
         | (Inr _, d') \<Rightarrow> ((out, None), d'))"

section \<open>Workers\<close>

definition with_alive :: "bool \<Rightarrow> worker_row \<Rightarrow> Worker" where
  "with_alive a r =
     \<lparr>WID = WID r, Hostname = Hostname r, RegisteredAt = RegisteredAt r,
      LastHeartbeat = LastHeartbeat r, JobsProcessed = JobsProcessed r,
      CurrentJobID = CurrentJobID r, Alive = a\<rparr>"

definition new_worker :: "session \<Rightarrow> worker_id \<Rightarrow> string \<Rightarrow> worker_row" where
  "new_worker s w host =
     \<lparr>WID = w, Hostname = host, RegisteredAt = now s, LastHeartbeat = now s,
      JobsProcessed = 0, CurrentJobID = None\<rparr>"

definition reregister_set :: "session \<Rightarrow> string \<Rightarrow> worker_row \<Rightarrow> worker_row" where
  "reregister_set s host r = r\<lparr>Hostname := host, LastHeartbeat := now s, CurrentJobID := None\<rparr>"

definition RegisterWorker ::
  "session \<Rightarrow> worker_id \<Rightarrow> string \<Rightarrow> db \<Rightarrow> (error + Worker) \<times> db" where
  [sql_defs]: "RegisterWorker s w host d =
     (if \<not> bind_ok s [w, host] then (Inl bad_text, d)
      else case find (\<lambda>r. WID r = w) (workers d) of
        None \<Rightarrow> autocommit s UpsertWorker (with_alive True (new_worker s w host)) d
                  (d\<lparr>workers := workers d @ [new_worker s w host]\<rparr>)
      | Some r \<Rightarrow> autocommit s UpsertWorker (with_alive True (reregister_set s host r)) d
                  (d\<lparr>workers := update_where (\<lambda>r. WID r = w) (reregister_set s host) (workers d)\<rparr>))"

definition beat_set :: "session \<Rightarrow> worker_row \<Rightarrow> worker_row" where
  "beat_set s r = r\<lparr>LastHeartbeat := now s\<rparr>"

definition Heartbeat :: "session \<Rightarrow> worker_id \<Rightarrow> db \<Rightarrow> (error + Worker) \<times> db" where
  [sql_defs]: "Heartbeat s w d =
     (if \<not> bind_ok s [w] then (Inl bad_text, d)
      else case find (\<lambda>r. WID r = w) (workers d) of
        Some r \<Rightarrow> autocommit s HeartbeatRow (with_alive True (beat_set s r)) d
                    (d\<lparr>workers := update_where (\<lambda>r. WID r = w) (beat_set s) (workers d)\<rparr>)
      | None \<Rightarrow>
        (case fault s HeartbeatRow of
           Some m \<Rightarrow> (Inl (ErrDB m), d)
         | None \<Rightarrow> (Inl ErrNotFound, d)))"

definition ListWorkers :: "session \<Rightarrow> duration \<Rightarrow> db \<Rightarrow> error + Worker list" where
  [sql_defs]: "ListWorkers s timeout d =
     (case fault s SelectWorkers of
        Some m \<Rightarrow> Inl (ErrDB m)
      | None \<Rightarrow> Inr (map (\<lambda>r. with_alive (LastHeartbeat r > now s - interval s timeout) r)
                         (sort_key RegisteredAt (workers d))))"

text \<open>\<open>SELECT status, count(*) ... GROUP BY status\<close> has a row only for a status that occurs.\<close>

definition status_count :: "db \<Rightarrow> Status \<Rightarrow> nat" where
  "status_count d st = length (filter (\<lambda>j. Status j = st) (jobs d))"

definition stats_groups :: "db \<Rightarrow> (Status \<times> int) list" where
  "stats_groups d =
     map (\<lambda>st. (st, int (status_count d st))) (filter (\<lambda>st. status_count d st > 0) all_statuses)"

definition Stats :: "session \<Rightarrow> db \<Rightarrow> error + (string \<rightharpoonup> int)" where
  [sql_defs]: "Stats s d =
     (case fault s SelectStats of
        Some m \<Rightarrow> Inl (ErrDB m)
      | None \<Rightarrow>
        Inr (foldl (\<lambda>m (st, n). m(status_text st \<mapsto> n))
               (foldl (\<lambda>m st. m(status_text st \<mapsto> 0)) Map.empty all_statuses)
               (stats_groups d)))"

end
