(* ===== verification/Lifecycle.thy ===== *)
theory Lifecycle
  imports Postgres
begin

text \<open>
  The abstract specification of a job: the state machine drawn in the comment on
  \<open>Status\<close> and in \<open>docs/DESIGN.md\<close>, as a step relation on rows, and what it promises along
  any number of steps. The store's methods are shown to refine it in \<open>Store_Inv\<close>.
\<close>

section \<open>The state machine\<close>

text \<open>
  One rule per arrow. \<open>claim\<close> takes an attempt; \<open>renew\<close> keeps the state; \<open>retry\<close> and
  \<open>exhaust\<close> are "fail or lease expiry" with and without attempts left.
\<close>

inductive job_step :: "Job \<Rightarrow> Job \<Rightarrow> bool" where
  claim: "Status j = StatusPending \<Longrightarrow>
     job_step j (j\<lparr>Status := StatusRunning, WorkerID := Some w, LeaseUntil := Some l,
                   Attempts := Attempts j + 1, UpdatedAt := t\<rparr>)"
| renew: "Status j = StatusRunning \<Longrightarrow> job_step j (j\<lparr>LeaseUntil := Some l, UpdatedAt := t\<rparr>)"
| complete: "Status j = StatusRunning \<Longrightarrow> WorkerID j = Some w \<Longrightarrow>
     job_step j (j\<lparr>Status := StatusCompleted, WorkerID := Some w, LeaseUntil := None, UpdatedAt := t,
                   ResultStdout := out, ResultStderr := err, ResultExitCode := code,
                   DurationMS := ms, LastError := None\<rparr>)"
| retry: "Status j = StatusRunning \<Longrightarrow> Attempts j < MaxAttempts j \<Longrightarrow>
     job_step j (j\<lparr>Status := StatusPending, WorkerID := None, LeaseUntil := None,
                   AvailableAt := a, UpdatedAt := t, LastError := Some e,
                   ResultStdout := out, ResultStderr := err, ResultExitCode := code,
                   DurationMS := ms\<rparr>)"
| exhaust: "Status j = StatusRunning \<Longrightarrow> Attempts j \<ge> MaxAttempts j \<Longrightarrow>
     job_step j (j\<lparr>Status := StatusFailed, LeaseUntil := None,
                   AvailableAt := a, UpdatedAt := t, LastError := Some e,
                   ResultStdout := out, ResultStderr := err, ResultExitCode := code,
                   DurationMS := ms\<rparr>)"
| cancel: "Status j = StatusPending \<Longrightarrow>
     job_step j (j\<lparr>Status := StatusCanceled, UpdatedAt := t, LeaseUntil := None\<rparr>)"

text \<open>The rows a job consists of over time.\<close>

inductive job_steps :: "Job \<Rightarrow> Job \<Rightarrow> bool" where
  none [intro!, simp]: "job_steps j j"
| more: "job_steps j k \<Longrightarrow> job_step k l \<Longrightarrow> job_steps j l"

definition is_new :: "Job \<Rightarrow> bool" where
  "is_new j \<longleftrightarrow> Status j = StatusPending \<and> Attempts j = 0 \<and> WorkerID j = None \<and> LeaseUntil j = None"

text \<open>
  What the columns of a row owe to each other: the attempt budget, and which columns are
  set in which state.
\<close>

fun status_cols :: "Status \<Rightarrow> Job \<Rightarrow> bool" where
  "status_cols StatusPending j \<longleftrightarrow> WorkerID j = None \<and> LeaseUntil j = None \<and> Attempts j < MaxAttempts j"
| "status_cols StatusRunning j \<longleftrightarrow> WorkerID j \<noteq> None \<and> LeaseUntil j \<noteq> None \<and> 1 \<le> Attempts j"
| "status_cols StatusCompleted j \<longleftrightarrow> WorkerID j \<noteq> None \<and> LeaseUntil j = None \<and> 1 \<le> Attempts j"
| "status_cols StatusFailed j \<longleftrightarrow> WorkerID j \<noteq> None \<and> LeaseUntil j = None \<and> Attempts j = MaxAttempts j"
| "status_cols StatusCanceled j \<longleftrightarrow> WorkerID j = None \<and> LeaseUntil j = None \<and> Attempts j < MaxAttempts j"

definition job_ok :: "Job \<Rightarrow> bool" where
  [inv_defs]: "job_ok j \<longleftrightarrow>
     1 \<le> MaxAttempts j \<and> int4_ok (MaxAttempts j) \<and> 0 \<le> Attempts j \<and> Attempts j \<le> MaxAttempts j \<and>
     status_cols (Status j) j"

section \<open>Tables over time\<close>

text \<open>
  \<open>db_evolves d d'\<close>: every job of \<open>d\<close> is still in \<open>d'\<close>, moved along the state machine;
  every other job of \<open>d'\<close> started as a new row with a fresh id.
\<close>

definition db_evolves :: "db \<Rightarrow> db \<Rightarrow> bool" where
  "db_evolves d d' \<longleftrightarrow>
     jobs_id_seq d \<le> jobs_id_seq d' \<and>
     (\<forall>j \<in> set (jobs d). \<exists>j' \<in> set (jobs d'). job_steps j j') \<and>
     (\<forall>j' \<in> set (jobs d'). (\<exists>j \<in> set (jobs d). job_steps j j') \<or>
        (\<exists>j0. is_new j0 \<and> jobs_id_seq d \<le> ID j0 \<and> job_steps j0 j'))"

definition jobs_inv :: "db \<Rightarrow> bool" where
  [inv_defs]: "jobs_inv d \<longleftrightarrow>
     distinct (map ID (jobs d)) \<and> 0 < jobs_id_seq d \<and>
     (\<forall>j \<in> set (jobs d). 0 < ID j \<and> ID j < jobs_id_seq d \<and> job_ok j)"

section \<open>Facts about single steps\<close>

inductive_cases step_PendingE: "job_step j j'"

lemma job_step_same:
  assumes "job_step j j'"
  shows "ID j' = ID j" "Type j' = Type j" "Payload j' = Payload j" "MaxAttempts j' = MaxAttempts j"
    "CreatedAt j' = CreatedAt j"
  using assms by (cases; simp)+

lemma job_step_attempts: "job_step j j' \<Longrightarrow> Attempts j \<le> Attempts j'"
  by (erule job_step.cases) auto

lemma job_step_not_terminal: "job_step j j' \<Longrightarrow> \<not> terminal (Status j)"
  by (erule job_step.cases) auto

lemma job_step_to_running:
  "job_step j j' \<Longrightarrow> Status j \<noteq> StatusRunning \<Longrightarrow> Status j' = StatusRunning \<Longrightarrow> Attempts j < Attempts j'"
  by (erule job_step.cases) auto

lemma job_step_ok: "job_step j j' \<Longrightarrow> job_ok j \<Longrightarrow> job_ok j'"
  by (erule job_step.cases) (auto simp: job_ok_def)

section \<open>Facts about many steps\<close>

lemma job_steps_trans: "job_steps j k \<Longrightarrow> job_steps i j \<Longrightarrow> job_steps i k"
  by (induction rule: job_steps.induct) (auto intro: job_steps.more)

lemma job_steps_one: "job_step j k \<Longrightarrow> job_steps j k"
  by (rule job_steps.more [OF job_steps.none])

lemma job_steps_same:
  assumes "job_steps j j'"
  shows "ID j' = ID j" "Type j' = Type j" "Payload j' = Payload j" "MaxAttempts j' = MaxAttempts j"
    "CreatedAt j' = CreatedAt j"
  using assms by (induction rule: job_steps.induct) (auto dest: job_step_same)

lemma job_steps_attempts: "job_steps j j' \<Longrightarrow> Attempts j \<le> Attempts j'"
  by (induction rule: job_steps.induct) (auto dest: job_step_attempts)

lemma job_steps_ok: "job_steps j j' \<Longrightarrow> job_ok j \<Longrightarrow> job_ok j'"
  by (induction rule: job_steps.induct) (auto intro: job_step_ok)

lemma job_steps_terminal: "job_steps j j' \<Longrightarrow> terminal (Status j) \<Longrightarrow> j' = j"
  by (induction rule: job_steps.induct) (auto dest: job_step_not_terminal)

text \<open>An attempt belongs to one worker: while the counter stands still the owner does too.\<close>

lemma job_steps_one_owner:
  "job_steps j j' \<Longrightarrow> Status j = StatusRunning \<Longrightarrow> Attempts j' = Attempts j \<Longrightarrow>
   Status j' = StatusRunning \<Longrightarrow> WorkerID j' = WorkerID j"
proof (induction rule: job_steps.induct)
  case (none j)
  then show ?case by simp
next
  case (more j k l)
  have k: "Attempts k = Attempts j"
    using job_steps_attempts [OF more.hyps(1)] job_step_attempts [OF more.hyps(2)] more.prems(2)
    by simp
  have "Status k = StatusRunning"
    using job_step_to_running [OF more.hyps(2)] more.prems k by force
  with more k have "WorkerID k = WorkerID j" by blast
  moreover from more.hyps(2) \<open>Status k = StatusRunning\<close> more.prems(3) have "WorkerID l = WorkerID k"
    by cases auto
  ultimately show ?case by simp
qed

section \<open>Facts about tables\<close>

lemma db_evolves_refl [intro!, simp]: "db_evolves d d"
  by (auto simp: db_evolves_def)

lemma db_evolves_trans:
  assumes "db_evolves d e" and "db_evolves e f"
  shows "db_evolves d f"
  unfolding db_evolves_def
proof (intro conjI ballI)
  show "jobs_id_seq d \<le> jobs_id_seq f" using assms by (auto simp: db_evolves_def)
next
  fix j assume "j \<in> set (jobs d)"
  then obtain j' where "j' \<in> set (jobs e)" "job_steps j j'"
    using assms(1) by (auto simp: db_evolves_def)
  moreover from this(1) obtain j'' where "j'' \<in> set (jobs f)" "job_steps j' j''"
    using assms(2) by (auto simp: db_evolves_def)
  ultimately show "\<exists>j'' \<in> set (jobs f). job_steps j j''" by (blast intro: job_steps_trans)
next
  fix l assume "l \<in> set (jobs f)"
  with assms(2) consider (old) k where "k \<in> set (jobs e)" "job_steps k l"
    | (fresh) k where "is_new k" "jobs_id_seq e \<le> ID k" "job_steps k l"
    by (auto simp: db_evolves_def)
  then show "(\<exists>j \<in> set (jobs d). job_steps j l) \<or>
      (\<exists>j0. is_new j0 \<and> jobs_id_seq d \<le> ID j0 \<and> job_steps j0 l)"
  proof cases
    case old
    with assms(1) show ?thesis unfolding db_evolves_def by (meson job_steps_trans)
  next
    case fresh
    moreover have "jobs_id_seq d \<le> jobs_id_seq e" using assms(1) by (simp add: db_evolves_def)
    ultimately show ?thesis by (meson order_trans)
  qed
qed

lemma jobs_invD:
  assumes "jobs_inv d" "j \<in> set (jobs d)"
  shows "0 < ID j" "ID j < jobs_id_seq d" "job_ok j"
  using assms by (auto simp: jobs_inv_def)

lemma jobs_inv_unique:
  "jobs_inv d \<Longrightarrow> j \<in> set (jobs d) \<Longrightarrow> k \<in> set (jobs d) \<Longrightarrow> ID j = ID k \<Longrightarrow> j = k"
  by (auto simp: jobs_inv_def intro: distinct_key_eq)

lemma jobs_inv_find:
  "jobs_inv d \<Longrightarrow> find (\<lambda>j. ID j = i) (jobs d) = Some j \<longleftrightarrow> j \<in> set (jobs d) \<and> ID j = i"
  using find_SomeD [of "\<lambda>j. ID j = i" "jobs d" j] find_key [of ID "jobs d" j]
  by (auto simp: jobs_inv_def)

text \<open>The row of a job, followed through an evolution of the tables.\<close>

lemma db_evolves_row:
  assumes "db_evolves d d'" "jobs_inv d'" "j \<in> set (jobs d)" "j' \<in> set (jobs d')" "ID j' = ID j"
  shows "job_steps j j'"
proof -
  obtain k where "k \<in> set (jobs d')" "job_steps j k"
    using assms(1,3) by (auto simp: db_evolves_def)
  moreover from this have "ID k = ID j'" using assms(5) job_steps_same(1) by simp
  ultimately show ?thesis using jobs_inv_unique assms(2,4) by metis
qed

text \<open>
  The shape of every write to the jobs table: update the rows that match, each along one
  arrow of the state machine. It keeps the invariant and is an evolution.
\<close>

lemma guarded_update:
  assumes "jobs_inv d" and step: "\<And>j. j \<in> set (jobs d) \<Longrightarrow> P j \<Longrightarrow> job_step j (f j)"
  shows "jobs_inv (d\<lparr>jobs := update_where P f (jobs d)\<rparr>)"
    and "db_evolves d (d\<lparr>jobs := update_where P f (jobs d)\<rparr>)"
proof -
  have same: "ID (f j) = ID j" "job_steps j (f j)" "job_ok (f j)"
    if "j \<in> set (jobs d)" "P j" for j
    using step [OF that] jobs_invD(3) [OF assms(1) that(1)]
    by (auto dest: job_step_same job_step_ok intro: job_steps_one)
  have ids: "map ID (update_where P f (jobs d)) = map ID (jobs d)"
    unfolding update_where_def using same(1) by simp
  show "jobs_inv (d\<lparr>jobs := update_where P f (jobs d)\<rparr>)"
    using assms(1) same by (auto simp: jobs_inv_def ids set_update_where)
  show "db_evolves d (d\<lparr>jobs := update_where P f (jobs d)\<rparr>)"
  proof -
    have "\<exists>j' \<in> set (update_where P f (jobs d)). job_steps j j'" if "j \<in> set (jobs d)" for j
      using same(2) [OF that] that by (cases "P j") (auto simp: set_update_where)
    moreover have "\<exists>j \<in> set (jobs d). job_steps j j'"
      if "j' \<in> set (update_where P f (jobs d))" for j'
      using that same(2) by (auto simp: set_update_where)
    ultimately show ?thesis by (simp add: db_evolves_def)
  qed
qed

lemma jobs_inv_workers [simp]: "jobs_inv (d\<lparr>workers := ws\<rparr>) = jobs_inv d"
  by (simp add: jobs_inv_def)

lemma db_evolves_workers [simp]: "db_evolves d (e\<lparr>workers := ws\<rparr>) = db_evolves d e"
  by (simp add: db_evolves_def)

end
