(* ===== verification/Store_Inv.thy ===== *)
theory Store_Inv
  imports Store Lifecycle
begin

text \<open>
  The contract every store method keeps: the table invariant, and that the tables evolve
  along the state machine of \<open>Lifecycle\<close> only. The contract is the locale
  \<open>store_method\<close>; each method is an interpretation of it, and what a client may conclude
  from the contract alone is proved once inside the locale.
\<close>

section \<open>The invariant\<close>

text \<open>
  A worker's \<open>current_job_id\<close>, when set, names a job that is RUNNING under that worker.
\<close>

definition workers_inv :: "db \<Rightarrow> bool" where
  [inv_defs]: "workers_inv d \<longleftrightarrow>
     distinct (map WID (workers d)) \<and>
     (\<forall>r \<in> set (workers d). \<forall>i. CurrentJobID r = Some i \<longrightarrow> WID r \<noteq> [] \<longrightarrow>
        (\<exists>j \<in> set (jobs d). owned i (WID r) j))"

definition db_inv :: "db \<Rightarrow> bool" where
  [inv_defs]: "db_inv d \<longleftrightarrow> jobs_inv d \<and> workers_inv d"

text \<open>
  The rely condition on a session: other sessions, too, keep the invariant and move jobs
  along the state machine.
\<close>

definition session_ok :: "session \<Rightarrow> bool" where
  "session_ok s \<longleftrightarrow> (\<forall>c d. db_inv d \<longrightarrow> db_inv (others s c d) \<and> db_evolves d (others s c d))"

text \<open>The guarantee: from \<open>d\<close> a method may reach \<open>d'\<close>.\<close>

definition guar :: "db \<Rightarrow> db \<Rightarrow> bool" where
  "guar d d' \<longleftrightarrow> db_inv d' \<and> db_evolves d d'"

lemma db_inv_empty: "db_inv empty_db"
  by (simp add: db_inv_def jobs_inv_def workers_inv_def empty_db_def)

lemma session_ok_quiet [simp]: "session_ok (quiet t)"
  by (simp add: session_ok_def)

section \<open>The contract\<close>

locale store_method =
  fixes m :: "session \<Rightarrow> db \<Rightarrow> 'r \<times> db"
  assumes keeps: "session_ok s \<Longrightarrow> db_inv d \<Longrightarrow> guar d (snd (m s d))"
begin

lemma inv: "session_ok s \<Longrightarrow> db_inv d \<Longrightarrow> db_inv (snd (m s d))"
  using keeps by (simp add: guar_def)

lemma evolves: "session_ok s \<Longrightarrow> db_inv d \<Longrightarrow> db_evolves d (snd (m s d))"
  using keeps by (simp add: guar_def)

lemma row_kept:
  assumes "session_ok s" "db_inv d" "j \<in> set (jobs d)"
  obtains j' where "j' \<in> set (jobs (snd (m s d)))" "job_steps j j'"
  using evolves [OF assms(1,2)] assms(3) by (auto simp: db_evolves_def)

lemma terminal_row_kept:
  assumes "session_ok s" "db_inv d" "j \<in> set (jobs d)" "terminal (Status j)"
  shows "j \<in> set (jobs (snd (m s d)))"
  using row_kept [OF assms(1,2,3)] job_steps_terminal [OF _ assms(4)] by metis

end

section \<open>Carrying the guarantee through transactions\<close>

lemma guar_refl: "db_inv d \<Longrightarrow> guar d d"
  by (simp add: guar_def)

lemma guar_trans: "guar d e \<Longrightarrow> guar e f \<Longrightarrow> guar d f"
  by (auto simp: guar_def intro: db_evolves_trans)

lemma guar_inv: "guar d d' \<Longrightarrow> db_inv d'"
  by (simp add: guar_def)

lemma guar_others: "session_ok s \<Longrightarrow> db_inv d \<Longrightarrow> guar d (others s c d)"
  by (simp add: session_ok_def guar_def)

lemma guar_autocommit: "db_inv d \<Longrightarrow> guar d d' \<Longrightarrow> guar d (snd (autocommit s c r d d'))"
  using autocommit_db [of s c r d d'] guar_refl by metis

lemma guar_withTx:
  "db_inv d \<Longrightarrow> (\<And>a d'. fn d = (Inr a, d') \<Longrightarrow> guar d d') \<Longrightarrow> guar d (snd (withTx s fn d))"
  using withTx_db [of s fn d] guar_refl by metis

lemma guar_settle:
  assumes "session_ok s" and "guar d (snd r)"
  shows "guar d (snd (settle s i w want r))"
proof -
  have "guar (snd r) (others s ReplayGet (snd r))"
    using assms by (intro guar_others) (auto dest: guar_inv)
  with assms(2) have "guar d (others s ReplayGet (snd r))" by (rule guar_trans)
  with assms(2) show ?thesis
    by (cases r) (auto simp: settle_def Let_def split: sum.split error.split)
qed

section \<open>The claim\<close>

lemma claim_pick_Some:
  assumes "claim_pick s d = Some j"
  shows "j \<in> set (jobs d)" "claimable s j" "ID j \<notin> locked s"
    and "\<And>k. k \<in> set (jobs d) \<Longrightarrow> claimable s k \<Longrightarrow> ID k \<notin> locked s \<Longrightarrow>
           claim_order j \<le> claim_order k"
proof -
  obtain js where sorted:
    "sort_key claim_order (filter (\<lambda>j. claimable s j \<and> ID j \<notin> locked s) (jobs d)) = j # js"
    using assms by (cases "sort_key claim_order
        (filter (\<lambda>j. claimable s j \<and> ID j \<notin> locked s) (jobs d))") (auto simp: claim_pick_def)
  from sort_key_hd_mem [OF this] show "j \<in> set (jobs d)" "claimable s j" "ID j \<notin> locked s"
    by auto
  show "claim_order j \<le> claim_order k"
    if "k \<in> set (jobs d)" "claimable s k" "ID k \<notin> locked s" for k
    using sort_key_hd_least [OF sorted, of k] that by simp
qed

lemma claim_pick_None:
  "claim_pick s d = None \<longleftrightarrow> (\<forall>j \<in> set (jobs d). claimable s j \<longrightarrow> ID j \<in> locked s)"
proof -
  let ?xs = "filter (\<lambda>j. claimable s j \<and> ID j \<notin> locked s) (jobs d)"
  have "claim_pick s d = None \<longleftrightarrow> sort_key claim_order ?xs = []"
    by (cases "sort_key claim_order ?xs") (simp_all add: claim_pick_def del: sort_key_eq_Nil)
  also have "\<dots> \<longleftrightarrow> ?xs = []" by simp
  finally show ?thesis by (auto simp: filter_empty_conv)
qed

text \<open>The tables after a successful claim of row \<open>j\<close>.\<close>

definition claimed_db :: "session \<Rightarrow> worker_id \<Rightarrow> duration \<Rightarrow> Job \<Rightarrow> db \<Rightarrow> db" where
  "claimed_db s w lease j d =
     d\<lparr>jobs := update_where (\<lambda>r. ID r = ID j) (claim_set s w lease) (jobs d),
       workers := update_where (\<lambda>r. WID r = w) (claim_worker_set s (ID j)) (workers d)\<rparr>"

lemma claim_tx_Inr:
  assumes "claim_tx s w lease d = (Inr j', d')"
  obtains j where "claim_pick s d = Some j" "j' = claim_set s w lease j"
    "d' = claimed_db s w lease j d" "w \<in> WID ` set (workers d)"
proof -
  obtain j where "claim_pick s d = Some j" "j' = claim_set s w lease j"
    "d' = claimed_db s w lease j d" "filter (\<lambda>r. WID r = w) (workers d) \<noteq> []"
    using assms by (auto simp: claim_tx_def Let_def claimed_db_def split: if_splits option.splits)
  moreover from this(4) have "w \<in> WID ` set (workers d)" by (auto simp: filter_empty_conv)
  ultimately show thesis using that by blast
qed

lemma owned_not_pending: "owned i w j \<Longrightarrow> Status j \<noteq> StatusPending"
  by (simp add: owned_def)

lemma guar_claimed_db:
  assumes inv: "db_inv d" and pick: "claim_pick s d = Some j"
  shows "guar d (claimed_db s w lease j d)"
proof -
  let ?P = "\<lambda>r. ID r = ID j" and ?f = "claim_set s w lease"
  let ?d1 = "d\<lparr>jobs := update_where ?P ?f (jobs d)\<rparr>"
  have ji: "jobs_inv d" and wi: "workers_inv d" using inv by (auto simp: db_inv_def)
  note j = claim_pick_Some [OF pick]
  have pending: "Status r = StatusPending" if "r \<in> set (jobs d)" "ID r = ID j" for r
    using jobs_inv_unique [OF ji that(1) j(1) that(2)] j(2) by (simp add: claimable_def)
  have step: "job_step r (?f r)" if "r \<in> set (jobs d)" "ID r = ID j" for r
    unfolding claim_set_def using pending [OF that] by (rule job_step.claim)
  note gu = guarded_update [OF ji, of ?P ?f, OF step]
  have kept: "\<exists>k \<in> set (jobs ?d1). owned i v k" if "\<exists>k \<in> set (jobs d). owned i v k" for i v
    using that pending by (auto simp: set_update_where owned_def)
  have new: "owned (ID j) w (?f j)" "?f j \<in> set (jobs ?d1)"
    using j(1) by (auto simp: owned_def claim_set_def set_update_where)
  have "distinct (map WID (update_where (\<lambda>r. WID r = w) (claim_worker_set s (ID j)) (workers d)))"
    using wi by (subst map_update_where) (auto simp: workers_inv_def claim_worker_set_def)
  moreover have "\<exists>k \<in> set (jobs ?d1). owned i (WID r) k"
    if "r \<in> set (update_where (\<lambda>r. WID r = w) (claim_worker_set s (ID j)) (workers d))"
      "CurrentJobID r = Some i" "WID r \<noteq> []" for r i
    using that wi new kept by (auto simp: set_update_where claim_worker_set_def workers_inv_def)
  ultimately have "workers_inv (claimed_db s w lease j d)"
    by (simp add: workers_inv_def claimed_db_def)
  with gu show ?thesis by (simp add: guar_def db_inv_def claimed_db_def jobs_inv_def db_evolves_def)
qed

lemma guar_Claim: "db_inv d \<Longrightarrow> guar d (snd (Claim s w lease d))"
  unfolding Claim_def by (rule guar_withTx) (auto elim!: claim_tx_Inr intro: guar_claimed_db)

section \<open>Reports\<close>

lemma find_ownedD: "find (owned i w) rows = Some j \<Longrightarrow> j \<in> set rows \<and> owned i w j"
  by (rule find_SomeD)

definition reported_db ::
  "session \<Rightarrow> (Job \<Rightarrow> Job) \<Rightarrow> job_id \<Rightarrow> worker_id \<Rightarrow> db \<Rightarrow> db" where
  "reported_db s upd i w d =
     d\<lparr>jobs := update_where (owned i w) upd (jobs d),
       workers := update_where (\<lambda>r. WID r = w) (done_worker_set s) (workers d)\<rparr>"

lemma report_tx_Inr:
  assumes "report_tx s texts code upd i w d = (Inr j', d')"
  obtains j where "find (owned i w) (jobs d) = Some j" "j' = upd j" "d' = reported_db s upd i w d"
  using assms
  by (auto simp: report_tx_def Let_def reported_db_def split: if_splits option.splits)

lemma owned_other_worker: "owned i w j \<Longrightarrow> w \<noteq> v \<Longrightarrow> \<not> owned i' v j"
  by (simp add: owned_def)

lemma guar_reported_db:
  assumes inv: "db_inv d" and step: "\<And>j. job_ok j \<Longrightarrow> owned i w j \<Longrightarrow> job_step j (upd j)"
  shows "guar d (reported_db s upd i w d)"
proof -
  let ?d1 = "d\<lparr>jobs := update_where (owned i w) upd (jobs d)\<rparr>"
  have ji: "jobs_inv d" and wi: "workers_inv d" using inv by (auto simp: db_inv_def)
  note gu = guarded_update [OF ji, of "owned i w" upd, OF step [OF jobs_invD(3) [OF ji]]]
  have kept: "\<exists>k \<in> set (jobs ?d1). owned i' v k"
    if "\<exists>k \<in> set (jobs d). owned i' v k" "v \<noteq> w" for i' v
    using that owned_other_worker by (fastforce simp: set_update_where)
  have "distinct (map WID (update_where (\<lambda>r. WID r = w) (done_worker_set s) (workers d)))"
    using wi by (subst map_update_where) (auto simp: workers_inv_def done_worker_set_def)
  moreover have "\<exists>k \<in> set (jobs ?d1). owned i' (WID r) k"
    if "r \<in> set (update_where (\<lambda>r. WID r = w) (done_worker_set s) (workers d))"
      "CurrentJobID r = Some i'" "WID r \<noteq> []" for r i'
    using that wi kept by (auto simp: set_update_where done_worker_set_def workers_inv_def)
  ultimately have "workers_inv (reported_db s upd i w d)"
    by (simp add: workers_inv_def reported_db_def)
  with gu show ?thesis by (simp add: guar_def db_inv_def reported_db_def jobs_inv_def db_evolves_def)
qed

lemma complete_set_step: "owned i w j \<Longrightarrow> job_step j (complete_set s w res j)"
  unfolding complete_set_def owned_def by (intro job_step.complete) auto

lemma fail_set_step:
  assumes "owned i w j"
  shows "job_step j (fail_set s w res delay j)"
proof (cases "Attempts j \<ge> MaxAttempts j")
  case True
  with assms have "job_step j (j\<lparr>Status := StatusFailed, LeaseUntil := None,
      AvailableAt := now s + interval s delay, UpdatedAt := now s,
      LastError := Some (TruncateOutput (ResError res)),
      ResultStdout := Some (TruncateOutput (Stdout res)),
      ResultStderr := Some (TruncateOutput (Stderr res)),
      ResultExitCode := ExitCode res, DurationMS := ResDurationMS res\<rparr>)" (is "job_step j ?j")
    by (intro job_step.exhaust) (auto simp: owned_def)
  moreover from True assms have "fail_set s w res delay j = ?j"
    by (cases j) (simp add: fail_set_def owned_def)
  ultimately show ?thesis by simp
next
  case False
  with assms show ?thesis unfolding fail_set_def owned_def by (auto intro!: job_step.retry)
qed

lemma guar_report:
  assumes "session_ok s" "db_inv d" and "\<And>j. owned i w j \<Longrightarrow> job_step j (upd j)"
  shows "guar d (snd (settle s i w want (withTx s (report_tx s texts code upd i w) d)))"
  using assms by (intro guar_settle guar_withTx) (auto elim!: report_tx_Inr intro: guar_reported_db)

lemma guar_Complete:
  "session_ok s \<Longrightarrow> db_inv d \<Longrightarrow> guar d (snd (Complete s i w res d))"
  unfolding Complete_def finish_def by (intro guar_report complete_set_step)

lemma guar_Fail:
  assumes "session_ok s" "db_inv d"
  shows "guar d (snd (Fail s cfg i w res d))"
proof -
  let ?d0 = "others s BeginTx d"
  have d0: "guar d ?d0" using assms by (rule guar_others)
  then have "guar ?d0 (snd (settle s i w StatusFailed (withTx s
      (report_tx s texts code (fail_set s w res delay) i w) ?d0)))" for texts code delay
    using assms(1) by (intro guar_report fail_set_step) (auto dest: guar_inv)
  with d0 show ?thesis
    using guar_refl [OF assms(2)] by (auto simp: Fail_def Let_def split: sum.split intro: guar_trans)
qed

section \<open>Single statements\<close>

lemma guar_jobs_update:
  assumes inv: "db_inv d" and step: "\<And>j. j \<in> set (jobs d) \<Longrightarrow> P j \<Longrightarrow> job_step j (f j)"
    and own: "\<And>i w j. j \<in> set (jobs d) \<Longrightarrow> P j \<Longrightarrow> owned i w j \<Longrightarrow> owned i w (f j)"
  shows "guar d (d\<lparr>jobs := update_where P f (jobs d)\<rparr>)"
proof -
  have ji: "jobs_inv d" and wi: "workers_inv d" using inv by (auto simp: db_inv_def)
  have "\<exists>k \<in> set (update_where P f (jobs d)). owned i v k" if "\<exists>k \<in> set (jobs d). owned i v k" for i v
  proof -
    from that obtain k where "k \<in> set (jobs d)" "owned i v k" by blast
    then show ?thesis using own [of k] by (cases "P k") (auto simp: set_update_where)
  qed
  with wi have "workers_inv (d\<lparr>jobs := update_where P f (jobs d)\<rparr>)" by (simp add: workers_inv_def)
  with guarded_update [OF ji, of P f, OF step] show ?thesis by (simp add: guar_def db_inv_def)
qed

lemma guar_workers_update:
  assumes inv: "db_inv d" and "\<And>r. WID (f r) = WID r"
    and "\<And>r. CurrentJobID (f r) = CurrentJobID r \<or> CurrentJobID (f r) = None"
  shows "guar d (d\<lparr>workers := update_where P f (workers d)\<rparr>)"
proof -
  have ji: "jobs_inv d" and wi: "workers_inv d" using inv by (auto simp: db_inv_def)
  have "map WID (update_where P f (workers d)) = map WID (workers d)"
    by (rule map_update_where) (simp add: assms(2))
  moreover have "\<exists>j \<in> set (jobs d). owned i (WID r) j"
    if "r \<in> set (update_where P f (workers d))" "CurrentJobID r = Some i" "WID r \<noteq> []" for r i
  proof -
    from that(1) obtain r0 where "r0 \<in> set (workers d)" "r = f r0 \<or> r = r0"
      by (auto simp: set_update_where)
    with that(2,3) assms(2,3) [of r0] wi show ?thesis by (auto simp: workers_inv_def)
  qed
  ultimately have "workers_inv (d\<lparr>workers := update_where P f (workers d)\<rparr>)"
    using wi by (simp add: workers_inv_def)
  with ji show ?thesis by (simp add: guar_def db_inv_def)
qed

lemma renew_set_step: "owned i w j \<Longrightarrow> job_step j (renew_set s lease j)"
  unfolding renew_set_def owned_def by (intro job_step.renew) auto

lemma guar_RenewLease:
  assumes "session_ok s" "db_inv d"
  shows "guar d (snd (RenewLease s i w lease d))"
proof -
  have "guar d (d\<lparr>jobs := update_where (owned i w) (renew_set s lease) (jobs d)\<rparr>)"
    using assms(2) by (rule guar_jobs_update) (erule renew_set_step, simp add: owned_def renew_set_def)
  then show ?thesis
    using guar_refl [OF assms(2)] guar_others [OF assms, of GetJob] guar_autocommit [OF assms(2)]
    by (auto simp: RenewLease_def Let_def split: option.split)
qed

lemma cancel_set_step: "Status j = StatusPending \<Longrightarrow> job_step j (cancel_set s j)"
  unfolding cancel_set_def by (rule job_step.cancel)

lemma guar_Cancel:
  assumes "session_ok s" "db_inv d"
  shows "guar d (snd (Cancel s i d))"
proof -
  have "guar d (d\<lparr>jobs := update_where (\<lambda>j. ID j = i \<and> Status j = StatusPending)
                            (cancel_set s) (jobs d)\<rparr>)"
    using assms(2) by (rule guar_jobs_update) (auto intro: cancel_set_step simp: owned_def)
  then show ?thesis
    using guar_refl [OF assms(2)] guar_others [OF assms, of GetJob] guar_autocommit [OF assms(2)]
    by (auto simp: Cancel_def Let_def split: option.split sum.split)
qed

lemma is_new_new_job: "is_new (new_job s typ payload n d)"
  by (simp add: is_new_def new_job_def)

lemma guar_insert:
  assumes "db_inv d" "is_new j" "ID j = jobs_id_seq d" "1 \<le> MaxAttempts j" "int4_ok (MaxAttempts j)"
  shows "guar d (d\<lparr>jobs := jobs d @ [j], jobs_id_seq := jobs_id_seq d + 1\<rparr>)"
proof -
  have "\<forall>k \<in> set (jobs d). ID k < jobs_id_seq d"
    using assms(1) by (simp add: db_inv_def jobs_inv_def)
  moreover have "job_ok j" using assms by (simp add: job_ok_def is_new_def)
  ultimately have "jobs_inv (d\<lparr>jobs := jobs d @ [j], jobs_id_seq := jobs_id_seq d + 1\<rparr>)"
    using assms(1,3) by (force simp: jobs_inv_def db_inv_def)
  moreover have "workers_inv (d\<lparr>jobs := jobs d @ [j], jobs_id_seq := jobs_id_seq d + 1\<rparr>)"
    using assms(1) by (auto simp: workers_inv_def db_inv_def)
  moreover have "db_evolves d (d\<lparr>jobs := jobs d @ [j], jobs_id_seq := jobs_id_seq d + 1\<rparr>)"
    using assms(2,3) by (auto simp: db_evolves_def)
  ultimately show ?thesis by (simp add: guar_def db_inv_def)
qed

lemma guar_Create: "db_inv d \<Longrightarrow> guar d (snd (Create s typ payload n d))"
proof -
  assume inv: "db_inv d"
  let ?j = "new_job s typ payload n d"
  have "guar d (d\<lparr>jobs := jobs d @ [?j], jobs_id_seq := jobs_id_seq d + 1\<rparr>)" if "1 \<le> n" "int4_ok n"
    using inv is_new_new_job that by (intro guar_insert) (auto simp: new_job_def)
  moreover have "guar d (d\<lparr>jobs_id_seq := jobs_id_seq d + 1\<rparr>)"
    using inv by (auto simp: guar_def db_inv_def jobs_inv_def workers_inv_def db_evolves_def)
  ultimately show ?thesis
    using guar_refl [OF inv] guar_autocommit [OF inv] by (auto simp: Create_def)
qed

lemma guar_Heartbeat: "db_inv d \<Longrightarrow> guar d (snd (Heartbeat s w d))"
  by (auto simp: Heartbeat_def beat_set_def guar_refl split: option.split
      intro!: guar_autocommit guar_workers_update)

lemma guar_add_worker:
  assumes "db_inv d" "WID r \<notin> WID ` set (workers d)" "CurrentJobID r = None"
  shows "guar d (d\<lparr>workers := workers d @ [r]\<rparr>)"
  using assms by (auto simp: guar_def db_inv_def workers_inv_def)

lemma guar_RegisterWorker: "db_inv d \<Longrightarrow> guar d (snd (RegisterWorker s w host d))"
  by (auto simp: RegisterWorker_def guar_refl reregister_set_def new_worker_def dest: find_NoneD
      split: option.split intro!: guar_autocommit guar_workers_update guar_add_worker)

section \<open>The reaper\<close>

lemma reap_set_step:
  assumes "Status e = StatusRunning"
  shows "job_step e (reap_set s (reap_next e) delay msg e)"
proof (cases "Attempts e \<ge> MaxAttempts e")
  case True
  with assms have "job_step e (e\<lparr>Status := StatusFailed, LeaseUntil := None,
      AvailableAt := now s + interval s delay, UpdatedAt := now s, LastError := Some msg,
      ResultStdout := ResultStdout e, ResultStderr := ResultStderr e,
      ResultExitCode := ResultExitCode e, DurationMS := DurationMS e\<rparr>)"
    by (intro job_step.exhaust) auto
  with True show ?thesis by (cases e) (simp add: reap_set_def reap_next_def)
next
  case False
  with assms have "job_step e (e\<lparr>Status := StatusPending, WorkerID := None, LeaseUntil := None,
      AvailableAt := now s + interval s delay, UpdatedAt := now s, LastError := Some msg,
      ResultStdout := ResultStdout e, ResultStderr := ResultStderr e,
      ResultExitCode := ResultExitCode e, DurationMS := DurationMS e\<rparr>)"
    by (intro job_step.retry) auto
  with False show ?thesis by (cases e) (simp add: reap_set_def reap_next_def)
qed

lemma reap_worker_jobs [simp]:
  "jobs_inv (reap_worker e d) = jobs_inv d" "db_evolves d0 (reap_worker e d) = db_evolves d0 d"
  by (simp_all add: reap_worker_def)

text \<open>One turn of the loop, on a row that is still as the SELECT found it.\<close>

lemma guar_reap_one:
  assumes inv: "db_inv d" and e: "e \<in> set (jobs d)" "Status e = StatusRunning"
  shows "guar d (reap_worker e (reap_job s cfg e d))"
proof -
  let ?P = "\<lambda>r. ID r = ID e \<and> Status r = StatusRunning"
  let ?f = "reap_set s (reap_next e) (Delay cfg (Attempts e)) (reap_msg (holder e))"
  have ji: "jobs_inv d" and wi: "workers_inv d" using inv by (auto simp: db_inv_def)
  have only: "r = e" if "r \<in> set (jobs d)" "ID r = ID e" for r
    using jobs_inv_unique [OF ji that(1) e(1) that(2)] .
  have step: "job_step r (?f r)" if "r \<in> set (jobs d)" "?P r" for r
    using only [of r] that e(2) reap_set_step by blast
  note gu = guarded_update [OF ji, of ?P ?f, OF step]
  have kept: "\<exists>k \<in> set (update_where ?P ?f (jobs d)). owned i v k"
    if "\<exists>k \<in> set (jobs d). owned i v k" "i \<noteq> ID e \<or> v \<noteq> holder e" for i v
    using that only by (fastforce simp: set_update_where owned_def holder_def)
  have names: "map WID (workers (reap_worker e (reap_job s cfg e d))) = map WID (workers d)"
    by (auto simp: reap_worker_def reap_job_def intro: map_update_where)
  have "\<exists>k \<in> set (update_where ?P ?f (jobs d)). owned i (WID r) k"
    if "r \<in> set (workers (reap_worker e (reap_job s cfg e d)))" "CurrentJobID r = Some i" "WID r \<noteq> []"
    for r i
    using that wi kept
    by (auto simp: reap_worker_def reap_job_def set_update_where workers_inv_def split: if_splits)
  moreover have "jobs (reap_worker e (reap_job s cfg e d)) = update_where ?P ?f (jobs d)"
    by (simp add: reap_worker_def reap_job_def)
  ultimately have "workers_inv (reap_worker e (reap_job s cfg e d))"
    unfolding workers_inv_def using wi names by (simp add: workers_inv_def)
  moreover have "jobs_inv (reap_job s cfg e d)" "db_evolves d (reap_job s cfg e d)"
    unfolding reap_job_def using gu by blast+
  ultimately show ?thesis by (simp add: guar_def db_inv_def)
qed

lemma reap_one_other_rows:
  "r \<in> set (jobs d) \<Longrightarrow> ID r \<noteq> ID e \<Longrightarrow> r \<in> set (jobs (reap_worker e (reap_job s cfg e d)))"
  by (simp add: reap_worker_def reap_job_def set_update_where)

lemma guar_reap_loop:
  assumes "reap_loop s cfg es out d = (out', None, d')" "db_inv d" "set es \<subseteq> set (jobs d)"
    "distinct (map ID es)" "\<forall>e \<in> set es. Status e = StatusRunning"
  shows "guar d d'"
  using assms
proof (induction es arbitrary: out d)
  case Nil
  then show ?case by (simp add: guar_refl)
next
  case (Cons e es)
  let ?d = "reap_worker e (reap_job s cfg e d)"
  have one: "guar d ?d" using Cons.prems by (intro guar_reap_one) auto
  have "reap_loop s cfg es (out @ [reaped_of e]) ?d = (out', None, d')"
    using Cons.prems(1) by (auto split: if_splits option.splits)
  moreover have "ID x \<noteq> ID e" if "x \<in> set es" for x
    using Cons.prems(4) that by (auto simp: image_iff)
  then have "set es \<subseteq> set (jobs ?d)"
    using Cons.prems(3) by (auto intro!: reap_one_other_rows)
  ultimately have "guar ?d d'"
    using Cons.prems(4,5) guar_inv [OF one] by (intro Cons.IH) auto
  with one show ?case by (rule guar_trans)
qed

lemma reap_select_props:
  assumes "jobs_inv d"
  shows "set (reap_select s n d) \<subseteq> set (jobs d)"
    "distinct (map ID (reap_select s n d))" "\<forall>e \<in> set (reap_select s n d). expired s e"
proof -
  let ?xs = "filter (\<lambda>j. expired s j \<and> ID j \<notin> locked s) (jobs d)"
  have sub: "set (reap_select s n d) \<subseteq> set ?xs"
    using set_take_subset [of "nat n" "sort_key lease_key ?xs"] by (simp add: reap_select_def)
  then show "set (reap_select s n d) \<subseteq> set (jobs d)" "\<forall>e \<in> set (reap_select s n d). expired s e"
    by auto
  have "distinct (map ID ?xs)" using assms by (simp add: jobs_inv_def distinct_map_filter)
  moreover have "mset (map ID (sort_key lease_key ?xs)) = mset (map ID ?xs)" by simp
  note mset_eq_imp_distinct_iff [OF this]
  ultimately have "distinct (map ID (sort_key lease_key ?xs))" by blast
  then show "distinct (map ID (reap_select s n d))"
    unfolding reap_select_def by (simp add: take_map [symmetric])
qed

lemma guar_reap_tx:
  assumes "reap_tx s cfg n d = (out, None, d')" "db_inv d"
  shows "guar d d'"
proof -
  have ji: "jobs_inv d" using assms(2) by (simp add: db_inv_def)
  have "reap_loop s cfg (reap_select s n d) [] d = (out, None, d')"
    using assms(1) by (auto simp: reap_tx_def split: option.splits)
  then show ?thesis
    using assms(2) reap_select_props [OF ji] by (intro guar_reap_loop) (auto simp: expired_def)
qed

definition reap_body ::
  "session \<Rightarrow> BackoffConfig \<Rightarrow> int \<Rightarrow> db \<Rightarrow> (error + Reaped list) \<times> db" where
  "reap_body s cfg n d =
     (case reap_tx s cfg n d of (_, Some e, d') \<Rightarrow> (Inl e, d') | (out, None, d') \<Rightarrow> (Inr out, d'))"

lemma reap_body_Inr: "reap_body s cfg n d = (Inr out, d') \<longleftrightarrow> reap_tx s cfg n d = (out, None, d')"
  by (auto simp: reap_body_def split: prod.splits option.splits)

lemma ReapExpiredLeases_db:
  "snd (ReapExpiredLeases s cfg n d) =
     snd (withTx s (reap_body s cfg (if n \<le> 0 then 100 else n)) d)"
  by (simp add: ReapExpiredLeases_def Let_def reap_body_def [abs_def] split: prod.split sum.split)

lemma guar_ReapExpiredLeases: "db_inv d \<Longrightarrow> guar d (snd (ReapExpiredLeases s cfg n d))"
  unfolding ReapExpiredLeases_db
  by (rule guar_withTx) (auto simp: reap_body_Inr intro: guar_reap_tx)

section \<open>Every method keeps the contract\<close>

interpretation mCreate: store_method "\<lambda>s. Create s ty payload n" for ty payload n
  by unfold_locales (rule guar_Create)

interpretation mClaim: store_method "\<lambda>s. Claim s w lease" for w lease
  by unfold_locales (rule guar_Claim)

interpretation mRenew: store_method "\<lambda>s. RenewLease s i w lease" for i w lease
  by unfold_locales (rule guar_RenewLease)

interpretation mComplete: store_method "\<lambda>s. Complete s i w res" for i w res
  by unfold_locales (rule guar_Complete)

interpretation mFail: store_method "\<lambda>s. Fail s cfg i w res" for cfg i w res
  by unfold_locales (rule guar_Fail)

interpretation mCancel: store_method "\<lambda>s. Cancel s i" for i
  by unfold_locales (rule guar_Cancel)

interpretation mReap: store_method "\<lambda>s. ReapExpiredLeases s cfg n" for cfg n
  by unfold_locales (rule guar_ReapExpiredLeases)

interpretation mRegister: store_method "\<lambda>s. RegisterWorker s w host" for w host
  by unfold_locales (rule guar_RegisterWorker)

interpretation mHeartbeat: store_method "\<lambda>s. Heartbeat s w" for w
  by unfold_locales (rule guar_Heartbeat)

end
