(* ===== verification/Go_Float.thy ===== *)
theory Go_Float
  imports Complex_Main
begin

text \<open>
  Go's \<open>float64\<close> where the program computes with it: a finite value is the rational it
  denotes, an operation is the exact one followed by IEEE 754 rounding to 53 bits, ties
  to even. Conversion to \<open>int64\<close> truncates; where the value does not fit, the language
  leaves the result to the implementation, and so it is a parameter here.
\<close>

section \<open>Rounding\<close>

fun bits :: "nat \<Rightarrow> nat" where
  "bits n = (if n = 0 then 0 else Suc (bits (n div 2)))"

declare bits.simps [simp del]

definition pow2 :: "int \<Rightarrow> rat" where
  "pow2 e = (if 0 \<le> e then 2 ^ nat e else 1 / 2 ^ nat (- e))"

definition round_even :: "rat \<Rightarrow> int" where
  "round_even q =
     (let f = \<lfloor>q\<rfloor>; r = q - of_int f in
      if r < 1 / 2 then f else if r > 1 / 2 then f + 1 else if even f then f else f + 1)"

text \<open>
  The exponent of the unit in the last place of a positive value: its 53-bit window,
  no finer than the smallest subnormal.
\<close>

definition ulp_exp :: "rat \<Rightarrow> int" where
  "ulp_exp x =
     (let (n, d) = quotient_of x;
          e = int (bits (nat n)) - int (bits (nat d)) - 53
      in max (if x \<ge> pow2 (e + 53) then e + 1 else e) (- 1074))"

definition round64 :: "rat \<Rightarrow> rat" where
  "round64 x =
     (if x = 0 then 0
      else sgn x * (of_int (round_even (\<bar>x\<bar> / pow2 (ulp_exp \<bar>x\<bar>))) * pow2 (ulp_exp \<bar>x\<bar>)))"

definition finite64 :: "rat \<Rightarrow> bool" where
  "finite64 x \<longleftrightarrow> \<bar>round64 x\<bar> < 2 ^ 1024"

section \<open>Conversion to int64\<close>

definition trunc :: "rat \<Rightarrow> int" where
  "trunc x = (if x < 0 then - \<lfloor>- x\<rfloor> else \<lfloor>x\<rfloor>)"

definition to_int64 :: "(rat \<Rightarrow> int) \<Rightarrow> rat \<Rightarrow> int" where
  "to_int64 conv x =
     (if - (2 ^ 63) \<le> trunc x \<and> trunc x < 2 ^ 63 then trunc x else conv x)"

section \<open>Facts\<close>

lemma pow2_pos [simp]: "0 < pow2 e"
  by (simp add: pow2_def)

lemma pow2_neq_0 [simp]: "pow2 e \<noteq> 0"
  by (simp add: pow2_def)

lemma pow2_add: "pow2 (a + b) = pow2 a * pow2 b"
proof -
  have "pow2 e = 2 powi e" for e by (simp add: pow2_def power_int_def power_one_over)
  then show ?thesis by (simp add: power_int_add)
qed

lemma bits_le: "n < 2 ^ k \<Longrightarrow> bits n \<le> k"
proof (induction k arbitrary: n)
  case 0
  then show ?case by (simp add: bits.simps)
next
  case (Suc k)
  then have "bits (n div 2) \<le> k" by auto
  then show ?case by (subst bits.simps) simp
qed

lemma bits_1 [simp]: "bits (Suc 0) = 1" "bits 1 = 1"
  by (simp_all add: bits.simps)

lemma round_even_int [simp]: "round_even (of_int k) = k"
  by (simp add: round_even_def)

text \<open>Integers of at most 53 bits, times a power of two, are represented exactly.\<close>

lemma round64_dyadic:
  assumes "\<bar>k\<bar> < 2 ^ 53"
  shows "round64 (of_int (k * 2 ^ j)) = of_int (k * 2 ^ j)"
proof (cases "k = 0")
  case False
  define x where "x = \<bar>of_int (k * 2 ^ j) :: rat\<bar>"
  have x: "x = of_int (\<bar>k\<bar> * 2 ^ j)" by (simp add: x_def abs_mult)
  have "quotient_of x = (\<bar>k\<bar> * 2 ^ j, 1)" unfolding x by (rule quotient_of_rat_of_int)
  moreover have "\<bar>k\<bar> * 2 ^ j < 2 ^ (53 + j)" using assms by (simp add: power_add)
  then have "bits (nat (\<bar>k\<bar> * 2 ^ j)) \<le> 53 + j" by (intro bits_le) (simp add: nat_less_iff)
  ultimately have le: "ulp_exp x \<le> int j" by (simp add: ulp_exp_def Let_def)
  have "pow2 (int j) = of_int (2 ^ nat (int j - ulp_exp x)) * pow2 (ulp_exp x)"
    unfolding of_int_power using pow2_add [of "int j - ulp_exp x" "ulp_exp x"] le by (simp add: pow2_def)
  then have eq: "x / pow2 (ulp_exp x) = of_int (\<bar>k\<bar> * 2 ^ nat (int j - ulp_exp x))"
    unfolding x by (simp add: pow2_def [of "int j"] divide_eq_eq)
  have "of_int (round_even (x / pow2 (ulp_exp x))) * pow2 (ulp_exp x) = x"
    unfolding eq round_even_int unfolding eq [symmetric] by simp
  then have "round64 (of_int (k * 2 ^ j)) = sgn (of_int (k * 2 ^ j)) * \<bar>of_int (k * 2 ^ j)\<bar>"
    using False unfolding round64_def x_def by simp
  then show ?thesis by (simp only: sgn_mult_abs)
qed (simp add: round64_def)

lemma round64_int: "\<bar>k\<bar> < 2 ^ 53 \<Longrightarrow> round64 (of_int k) = of_int k"
  using round64_dyadic [of k 0] by simp

lemma trunc_int [simp]: "trunc (of_int k) = k"
  by (simp add: trunc_def)

lemma to_int64_int: "- (2 ^ 63) \<le> k \<Longrightarrow> k < 2 ^ 63 \<Longrightarrow> to_int64 conv (of_int k) = k"
  by (simp add: to_int64_def)

section \<open>Rounding keeps to representable bounds\<close>

lemma pow2_mono: "a \<le> b \<Longrightarrow> pow2 a \<le> pow2 b"
proof -
  assume "a \<le> b"
  then have "pow2 b = pow2 a * 2 ^ nat (b - a)" using pow2_add [of a "b - a"] by (simp add: pow2_def [of "b - a"])
  then show ?thesis using one_le_power [of "2 :: rat" "nat (b - a)"] pow2_pos [of a] by simp
qed

lemma bits_spec: "0 < n \<Longrightarrow> 2 ^ bits n \<le> 2 * n \<and> n < 2 ^ bits n"
proof (induction n rule: bits.induct)
  case (1 n)
  show ?case
  proof (cases "n div 2 = 0")
    case True
    with "1.prems" have "n = 1" by simp
    then show ?thesis by simp
  next
    case False
    with 1 have "2 ^ bits (n div 2) \<le> 2 * (n div 2) \<and> n div 2 < 2 ^ bits (n div 2)" by simp
    moreover have "bits n = Suc (bits (n div 2))" using "1.prems" by (subst bits.simps) simp
    ultimately show ?thesis by auto
  qed
qed

lemma pow2_nat: "pow2 (int n) = 2 ^ n"
  by (simp add: pow2_def)

lemma bits_rat:
  assumes "0 < n"
  shows "pow2 (int (bits (nat n)) - 1) \<le> of_int n" "of_int n < pow2 (int (bits (nat n)))"
proof -
  obtain m where m: "n = int m" "0 < m" using assms by (metis zero_less_imp_eq_int)
  have "2 ^ bits m \<le> 2 * m" "m < 2 ^ bits m" using bits_spec [OF m(2)] by simp_all
  then have "of_nat (2 ^ bits m) \<le> (of_nat (2 * m) :: rat)" "of_nat m < (of_nat (2 ^ bits m) :: rat)"
    by (simp_all only: of_nat_le_iff of_nat_less_iff)
  then have "pow2 (int (bits m)) \<le> 2 * of_nat m" and up: "of_nat m < pow2 (int (bits m))"
    by (simp_all only: pow2_nat of_nat_power of_nat_mult of_nat_numeral)
  moreover have "pow2 (int (bits m)) = 2 * pow2 (int (bits m) - 1)"
    using pow2_add [of 1 "int (bits m) - 1"] by (simp add: pow2_def [of 1])
  ultimately show "pow2 (int (bits (nat n)) - 1) \<le> of_int n" using m(1) by simp
  show "of_int n < pow2 (int (bits (nat n)))" using up m(1) by (simp only: of_int_of_nat_eq nat_int)
qed

text \<open>A positive value lies in the 53-bit window above its unit in the last place.\<close>

lemma ulp_exp_spec:
  assumes "0 < x"
  shows "x < pow2 (ulp_exp x + 53)" "ulp_exp x = - 1074 \<or> pow2 (ulp_exp x + 52) \<le> x"
proof -
  obtain n d where nd: "quotient_of x = (n, d)" by fastforce
  have d: "0 < d" using quotient_of_denom_pos [OF nd] .
  have x: "x = of_int n / of_int d" using quotient_of_div [OF nd] .
  with assms d have n: "0 < n" by (simp add: zero_less_divide_iff)
  define e where "e = int (bits (nat n)) - int (bits (nat d)) - 53"
  have xd: "x * of_int d = of_int n" using x d by simp
  have up: "x < pow2 (e + 54)"
  proof (rule ccontr)
    assume "\<not> x < pow2 (e + 54)"
    then have "pow2 (e + 54) * pow2 (int (bits (nat d)) - 1) \<le> x * of_int d"
      using bits_rat(1) [OF d] assms by (intro mult_mono) (auto intro: less_imp_le)
    then show False using bits_rat(2) [OF n] unfolding xd pow2_add [symmetric] by (simp add: e_def)
  qed
  have lo: "pow2 (e + 52) \<le> x"
  proof (rule ccontr)
    assume "\<not> pow2 (e + 52) \<le> x"
    then have "x * of_int d < pow2 (e + 52) * pow2 (int (bits (nat d)))"
      using bits_rat(2) [OF d] assms d by (intro mult_strict_mono) auto
    then show False using bits_rat(1) [OF n] unfolding xd pow2_add [symmetric] by (simp add: e_def)
  qed
  define e1 where "e1 = (if x \<ge> pow2 (e + 53) then e + 1 else e)"
  have u: "ulp_exp x = max e1 (- 1074)" by (simp add: ulp_exp_def nd Let_def e_def e1_def)
  have e1: "x < pow2 (e1 + 53)" "pow2 (e1 + 52) \<le> x" using up lo by (auto simp: e1_def add.commute)
  show "x < pow2 (ulp_exp x + 53)" using e1(1) pow2_mono [of "e1 + 53" "ulp_exp x + 53"] u by simp
  show "ulp_exp x = - 1074 \<or> pow2 (ulp_exp x + 52) \<le> x" using e1(2) u by (auto simp: max_def)
qed

lemma round_even_le: "q \<le> of_int k \<Longrightarrow> round_even q \<le> k"
  by (auto simp: round_even_def Let_def) linarith+

lemma round_even_ge: "of_int k \<le> q \<Longrightarrow> k \<le> round_even q"
  using le_floor_iff [of k q] by (auto simp: round_even_def Let_def)

lemma on_grid:
  assumes "e \<le> j"
  shows "of_int m * pow2 j = of_int (m * 2 ^ nat (j - e)) * pow2 e"
  using pow2_add [of "j - e" e] assms by (simp add: pow2_def [of "j - e"])

lemma window_below:
  assumes "0 < x" "j < ulp_exp x" "m \<le> 2 ^ 53" "- 1074 \<le> j"
  shows "of_int m * pow2 j \<le> of_int (2 ^ 52) * pow2 (ulp_exp x) \<and> of_int (2 ^ 52) * pow2 (ulp_exp x) \<le> x"
proof
  have top: "pow2 (ulp_exp x + 52) = of_int (2 ^ 52) * pow2 (ulp_exp x)" by (simp add: pow2_add pow2_def [of 52])
  then show "of_int (2 ^ 52) * pow2 (ulp_exp x) \<le> x" using ulp_exp_spec(2) [OF assms(1)] assms(2,4) by auto
  have "of_int m \<le> (of_int (2 ^ 53) :: rat)" using assms(3) by (simp only: of_int_le_iff)
  then have "of_int m * pow2 j \<le> of_int (2 ^ 53) * pow2 j" by (intro mult_right_mono) (auto intro: less_imp_le)
  also have "\<dots> = pow2 (53 + j)" by (simp add: pow2_add pow2_def [of 53])
  also have "\<dots> \<le> pow2 (ulp_exp x + 52)" using assms(2) by (intro pow2_mono) simp
  finally show "of_int m * pow2 j \<le> of_int (2 ^ 52) * pow2 (ulp_exp x)" unfolding top .
qed

text \<open>A bound that a float can hold is a bound after rounding.\<close>

lemma round64_le:
  assumes "0 < x" "x \<le> of_int m * pow2 j" "m \<le> 2 ^ 53" "- 1074 \<le> j"
  shows "round64 x \<le> of_int m * pow2 j"
proof -
  let ?e = "ulp_exp x"
  have "\<exists>k. of_int m * pow2 j = of_int k * pow2 ?e"
  proof (cases "?e \<le> j")
    case True
    then show ?thesis using on_grid by blast
  next
    case False
    then have "of_int m * pow2 j = of_int (2 ^ 52) * pow2 ?e" using window_below [OF assms(1) _ assms(3,4)] assms(2) by force
    then show ?thesis by blast
  qed
  then obtain k where k: "of_int m * pow2 j = of_int k * pow2 ?e" by blast
  then have "x / pow2 ?e \<le> of_int k" using assms(2) by (simp add: divide_le_eq)
  then have "of_int (round_even (x / pow2 ?e)) \<le> (of_int k :: rat)" unfolding of_int_le_iff by (rule round_even_le)
  then show ?thesis using assms(1) unfolding k by (simp add: round64_def)
qed

lemma round64_ge:
  assumes "0 < x" "of_int m * pow2 j \<le> x" "m \<le> 2 ^ 53" "- 1074 \<le> j"
  shows "of_int m * pow2 j \<le> round64 x"
proof -
  let ?e = "ulp_exp x"
  have "\<exists>k. of_int m * pow2 j \<le> of_int k * pow2 ?e \<and> of_int k * pow2 ?e \<le> x"
  proof (cases "?e \<le> j")
    case True
    from on_grid [OF this, of m] assms(2) show ?thesis by (metis order_refl)
  next
    case False
    then show ?thesis using window_below [OF assms(1) _ assms(3,4)] by (meson not_le)
  qed
  then obtain k where k: "of_int m * pow2 j \<le> of_int k * pow2 ?e" "of_int k * pow2 ?e \<le> x" by blast
  then have "of_int k \<le> x / pow2 ?e" by (simp add: le_divide_eq)
  then have "of_int k \<le> (of_int (round_even (x / pow2 ?e)) :: rat)" unfolding of_int_le_iff by (rule round_even_ge)
  then have "of_int k * pow2 ?e \<le> round64 x" using assms(1) by (simp add: round64_def)
  with k(1) show ?thesis by linarith
qed

end
