(* ===== verification/Api_Http.thy ===== *)
theory Api_Http
  imports Store_Inv Go_Float
begin

text \<open>
  The HTTP plumbing of \<open>internal/api\<close>: the response writer with the two wrappers of
  \<open>middleware.go\<close> around it, the error replies of \<open>errors.go\<close>, request bodies and
  \<open>decode\<close>, and the middleware as functions from handlers to handlers.
\<close>

section \<open>What the server has written\<close>

datatype level = LevelDebug | LevelInfo | LevelWarn | LevelError

text \<open>A log line: an event the program names, or the access-log line of a request.\<close>

datatype log_line =
  Event level string
| Access level string string nat

text \<open>The values the handlers encode, and the plain text \<open>net/http\<close> writes by itself.\<close>

datatype payload =
  JobBody Job
| JobsBody "Job list"
| WorkerBody Worker
| WorkersBody "Worker list"
| StatsBody "string \<rightharpoonup> int" nat nat
| HealthBody
| ErrorBody string string

datatype chunk = Json payload | Text string

text \<open>
  The state one request acts on. \<open>ctype\<close> is the Content-Type in the header map, \<open>wire_ctype\<close>
  the one sent with the status \<open>sent\<close>; \<open>recorder\<close> is the \<open>statusRecorder\<close> (status, wrote)
  while \<open>logging\<close> has one around the writer, \<open>substituted\<close> the field of the
  \<open>jsonErrorWriter\<close> while \<open>jsonErrors\<close> has one; \<open>slog\<close> is the log and \<open>tables\<close> the database.
\<close>

record world =
  ctype :: string
  wire_ctype :: string
  sent :: "nat option"
  chunks :: "chunk list"
  recorder :: "(nat \<times> bool) option"
  substituted :: "bool option"
  slog :: "log_line list"
  tables :: db

definition fresh :: "db \<Rightarrow> world" where
  "fresh d = \<lparr>ctype = [], wire_ctype = [], sent = None, chunks = [], recorder = None,
     substituted = None, slog = [], tables = d\<rparr>"

definition log_event :: "level \<Rightarrow> string \<Rightarrow> world \<Rightarrow> world" where
  "log_event l e w = w\<lparr>slog := slog w @ [Event l e]\<rparr>"

section \<open>Writers\<close>

text \<open>
  \<open>net/http\<close>'s writer: the first WriteHeader sends the status with the headers of that
  moment, later ones are ignored, and a write without one sends 200.
\<close>

definition base_WriteHeader :: "nat \<Rightarrow> world \<Rightarrow> world" where
  "base_WriteHeader code w =
     (if sent w = None then w\<lparr>sent := Some code, wire_ctype := ctype w\<rparr> else w)"

definition base_Write :: "chunk \<Rightarrow> world \<Rightarrow> world" where
  "base_Write c w =
     (let w1 = (if sent w = None then base_WriteHeader 200 w else w)
      in w1\<lparr>chunks := chunks w1 @ [c]\<rparr>)"

definition rec_WriteHeader :: "nat \<Rightarrow> world \<Rightarrow> world" where
  "rec_WriteHeader code w =
     base_WriteHeader code
       (case recorder w of
          Some (st, False) \<Rightarrow> w\<lparr>recorder := Some (code, True)\<rparr>
        | _ \<Rightarrow> w)"

definition rec_Write :: "chunk \<Rightarrow> world \<Rightarrow> world" where
  "rec_Write c w =
     base_Write c
       (case recorder w of
          Some (st, False) \<Rightarrow> w\<lparr>recorder := Some (200, True)\<rparr>
        | _ \<Rightarrow> w)"

section \<open>Error codes and replies\<close>

definition CodeBadRequest :: string where "CodeBadRequest = ''bad_request''"
definition CodeNotFound :: string where "CodeNotFound = ''not_found''"
definition CodeConflict :: string where "CodeConflict = ''conflict''"
definition CodeUnauthorized :: string where "CodeUnauthorized = ''unauthorized''"
definition CodeNoJobs :: string where "CodeNoJobs = ''no_jobs_available''"
definition CodeInternal :: string where "CodeInternal = ''internal_error''"

lemmas code_defs = CodeBadRequest_def CodeNotFound_def CodeConflict_def CodeUnauthorized_def
  CodeNoJobs_def CodeInternal_def

text \<open>\<open>writeJSON\<close>, over the writer it is given (its WriteHeader and its Write).\<close>

definition write_json ::
  "(nat \<Rightarrow> world \<Rightarrow> world) \<Rightarrow> (chunk \<Rightarrow> world \<Rightarrow> world) \<Rightarrow> nat \<Rightarrow> payload \<Rightarrow> world \<Rightarrow> world" where
  "write_json wh wr status v w = wr (Json v) (wh status (w\<lparr>ctype := ''application/json''\<rparr>))"

definition je_WriteHeader :: "nat \<Rightarrow> world \<Rightarrow> world" where
  "je_WriteHeader code w =
     (if substituted w \<noteq> None \<and> (code = 404 \<or> code = 405) \<and>
         \<not> HasPrefix (ctype w) ''application/json''
      then write_json rec_WriteHeader rec_Write code
             (if code = 405 then ErrorBody ''method not allowed for this path'' CodeBadRequest
              else ErrorBody ''resource not found'' CodeNotFound)
             (w\<lparr>ctype := [], substituted := Some True\<rparr>)
      else rec_WriteHeader code w)"

definition je_Write :: "chunk \<Rightarrow> world \<Rightarrow> world" where
  "je_Write c w = (if substituted w = Some True then w else rec_Write c w)"

text \<open>The handlers' writer is the innermost one.\<close>

definition writeJSON :: "nat \<Rightarrow> payload \<Rightarrow> world \<Rightarrow> world" where
  "writeJSON status v w = write_json je_WriteHeader je_Write status v w"

definition writeError :: "nat \<Rightarrow> string \<Rightarrow> string \<Rightarrow> world \<Rightarrow> world" where
  "writeError status code msg w = writeJSON status (ErrorBody msg code) w"

fun store_error_reply :: "error \<Rightarrow> nat \<times> string \<times> string" where
  "store_error_reply ErrNotFound = (404, CodeNotFound, ''job not found'')"
| "store_error_reply ErrNoJobs = (404, CodeNoJobs, ''no jobs available'')"
| "store_error_reply ErrUnknownWorker = (404, CodeNotFound, ''unknown worker: register first'')"
| "store_error_reply ErrNotOwned = (409, CodeConflict,
     ''job is not RUNNING under this worker (lease may have expired and been reassigned)'')"
| "store_error_reply ErrNotCancelable = (409, CodeConflict, ''only PENDING jobs can be canceled'')"
| "store_error_reply ErrNotClaimable = (409, CodeConflict, ''job is not claimable'')"
| "store_error_reply (ErrDB m) = (500, CodeInternal, ''internal server error'')"

definition writeStoreError :: "error \<Rightarrow> world \<Rightarrow> world" where
  "writeStoreError e w =
     (case store_error_reply e of
        (status, code, msg) \<Rightarrow>
          writeError status code msg
            (case e of ErrDB m \<Rightarrow> log_event LevelError (''unhandled store error'' @ m) w | _ \<Rightarrow> w))"

text \<open>\<open>http.Error\<close>, which the mux uses for its own 404 and 405.\<close>

definition http_Error :: "string \<Rightarrow> nat \<Rightarrow> world \<Rightarrow> world" where
  "http_Error msg code w =
     je_Write (Text msg) (je_WriteHeader code (w\<lparr>ctype := ''text/plain; charset=utf-8''\<rparr>))"

section \<open>Request bodies\<close>

text \<open>
  A JSON value as \<open>encoding/json\<close> reads it. A number is an integer literal or one with a
  fraction or an exponent, by its exact value.
\<close>

datatype json =
  JNull | JBool bool | JInt int | JDec rat | JStr string | JArr "json list"
| JObj "(string \<times> json) list"

text \<open>
  A body: what scanning its bytes gives (nothing but blanks, an ill-formed text, or a
  value), how many bytes the scanner needs to see for that, the bytes after the value, and
  the library's message if the value does not fit the struct.
\<close>

datatype scan = ScanEOF | ScanError string | ScanValue json

record Body =
  scanned :: scan
  need :: nat
  rest :: string
  fit_msg :: string

record Request =
  http_method :: string
  segs :: "string list"
  query :: "string \<Rightarrow> string"
  authorization :: string
  body :: Body
  body_limit :: nat
  PathValue :: string

text \<open>
  \<open>URL.Path\<close>. Requests here have a clean path, given by its decoded segments; \<open>net/http\<close> redirects
  any other before a handler runs.
\<close>

definition url_path :: "Request \<Rightarrow> string" where
  "url_path r = concat (map (\<lambda>s. CHR ''/'' # s) (segs r))"

text \<open>
  Field names match exactly or under \<open>encoding/json\<close>'s folding: ASCII case, U+017F for s and
  U+212A for k.
\<close>

fun fold_name :: "string \<Rightarrow> string" where
  "fold_name (c # c' # c'' # cs) =
     (if c = CHR 0xC5 \<and> c' = CHR 0xBF then CHR ''S'' # fold_name (c'' # cs)
      else if c = CHR 0xE2 \<and> c' = CHR 0x84 \<and> c'' = CHR 0xAA then CHR ''K'' # fold_name cs
      else upper_char c # fold_name (c' # c'' # cs))"
| "fold_name [c, c'] =
     (if c = CHR 0xC5 \<and> c' = CHR 0xBF then ''S'' else [upper_char c, upper_char c'])"
| "fold_name [c] = [upper_char c]"
| "fold_name [] = []"

text \<open>
  Decoding into a struct: its fields with their setters. An unknown field is an error
  (\<open>DisallowUnknownFields\<close>), so is a value of the wrong type; null leaves the zero value; a
  repeated field is set again.
\<close>

type_synonym 's fields = "(string \<times> (json \<Rightarrow> 's \<Rightarrow> 's option)) list"

definition lookup_field :: "'s fields \<Rightarrow> string \<Rightarrow> (json \<Rightarrow> 's \<Rightarrow> 's option) option" where
  "lookup_field fs k =
     (case find (\<lambda>f. fst f = k) fs of
        Some f \<Rightarrow> Some (snd f)
      | None \<Rightarrow> map_option snd (find (\<lambda>f. fold_name (fst f) = fold_name k) fs))"

fun set_fields :: "'s fields \<Rightarrow> (string \<times> json) list \<Rightarrow> 's \<Rightarrow> 's option" where
  "set_fields fs [] x = Some x"
| "set_fields fs ((k, v) # kvs) x =
     (case lookup_field fs k of
        None \<Rightarrow> None
      | Some put \<Rightarrow> (case put v x of None \<Rightarrow> None | Some x' \<Rightarrow> set_fields fs kvs x'))"

fun into_struct :: "'s fields \<Rightarrow> 's \<Rightarrow> json \<Rightarrow> 's option" where
  "into_struct fs zero JNull = Some zero"
| "into_struct fs zero (JObj kvs) = set_fields fs kvs zero"
| "into_struct fs zero _ = None"

fun set_string :: "(string \<Rightarrow> 's \<Rightarrow> 's) \<Rightarrow> json \<Rightarrow> 's \<Rightarrow> 's option" where
  "set_string f JNull x = Some x"
| "set_string f (JStr s) x = Some (f s x)"
| "set_string f _ x = None"

fun set_int :: "(int \<Rightarrow> 's \<Rightarrow> 's) \<Rightarrow> json \<Rightarrow> 's \<Rightarrow> 's option" where
  "set_int f JNull x = Some x"
| "set_int f (JInt n) x = (if int64_ok n then Some (f n x) else None)"
| "set_int f _ x = None"

fun set_int_ptr :: "(int option \<Rightarrow> 's \<Rightarrow> 's) \<Rightarrow> json \<Rightarrow> 's \<Rightarrow> 's option" where
  "set_int_ptr f JNull x = Some (f None x)"
| "set_int_ptr f (JInt n) x = (if int64_ok n then Some (f (Some n) x) else None)"
| "set_int_ptr f _ x = None"

fun set_float :: "(rat \<Rightarrow> 's \<Rightarrow> 's) \<Rightarrow> json \<Rightarrow> 's \<Rightarrow> 's option" where
  "set_float f JNull x = Some x"
| "set_float f (JInt n) x = (if finite64 (of_int n) then Some (f (round64 (of_int n)) x) else None)"
| "set_float f (JDec q) x = (if finite64 q then Some (f (round64 q) x) else None)"
| "set_float f _ x = None"

text \<open>\<open>Decoder.More\<close>: is there a next byte that is not blank, and is it neither ] nor }?\<close>

definition json_blank :: "char \<Rightarrow> bool" where
  "json_blank c \<longleftrightarrow> c \<in> {CHR '' '', CHR 0x09, CHR 0x0A, CHR 0x0D}"

definition decoder_More :: "nat \<Rightarrow> Body \<Rightarrow> bool" where
  "decoder_More limit b =
     (case dropWhile json_blank (take (limit - need b) (rest b)) of
        [] \<Rightarrow> False
      | c # _ \<Rightarrow> c \<noteq> CHR '']'' \<and> c \<noteq> CHR ''}'')"

definition decode :: "'s fields \<Rightarrow> 's \<Rightarrow> Request \<Rightarrow> string + 's" where
  "decode fs zero r =
     (let b = body r in
      if need b > body_limit r then Inl ''request body too large''
      else case scanned b of
        ScanEOF \<Rightarrow> Inl ''request body is empty; expected a JSON object''
      | ScanError m \<Rightarrow> Inl (''malformed JSON: '' @ m)
      | ScanValue v \<Rightarrow>
          (case into_struct fs zero v of
             None \<Rightarrow> Inl (''malformed JSON: '' @ fit_msg b)
           | Some x \<Rightarrow>
               if decoder_More (body_limit r) b
               then Inl ''unexpected trailing content after JSON object''
               else Inr x))"

section \<open>Middleware\<close>

text \<open>A handler returns or panics; either way it leaves what it has done so far.\<close>

datatype outcome = Returned world | Panicked world

type_synonym handler = "Request \<Rightarrow> world \<Rightarrow> outcome"

definition jsonErrors :: "handler \<Rightarrow> handler" where
  "jsonErrors next r w =
     (case next r (w\<lparr>substituted := Some False\<rparr>) of
        Returned w' \<Rightarrow> Returned (w'\<lparr>substituted := None\<rparr>)
      | Panicked w' \<Rightarrow> Panicked (w'\<lparr>substituted := None\<rparr>))"

definition auth :: "string \<Rightarrow> handler \<Rightarrow> handler" where
  "auth token next r w =
     (if token = [] then next r w
      else if url_path r = ''/healthz'' then next r w
      else if TrimPrefix (authorization r) ''Bearer '' \<noteq> token
        then Returned (writeError 401 CodeUnauthorized ''invalid or missing bearer token'' w)
      else next r w)"

definition maxBody :: "int \<Rightarrow> handler \<Rightarrow> handler" where
  "maxBody limit next r w = next (r\<lparr>body_limit := nat limit\<rparr>) w"

definition access_level :: "Request \<Rightarrow> nat \<Rightarrow> level" where
  "access_level r status =
     (if url_path r = ''/jobs/claim'' \<and> status = 404 then LevelDebug
      else if status \<ge> 500 then LevelError else LevelInfo)"

definition logging :: "handler \<Rightarrow> handler" where
  "logging next r w =
     (case next r (w\<lparr>recorder := Some (200, False)\<rparr>) of
        Returned w' \<Rightarrow>
          (let status = (case recorder w' of Some (st, _) \<Rightarrow> st | None \<Rightarrow> 200) in
           Returned (w'\<lparr>recorder := None,
             slog := slog w' @ [Access (access_level r status) (http_method r) (url_path r) status]\<rparr>))
      | Panicked w' \<Rightarrow> Panicked (w'\<lparr>recorder := None\<rparr>))"

definition recovery :: "handler \<Rightarrow> handler" where
  "recovery next r w =
     (case next r w of
        Returned w' \<Rightarrow> Returned w'
      | Panicked w' \<Rightarrow>
          Returned (write_json base_WriteHeader base_Write 500
                      (ErrorBody ''internal server error'' CodeInternal)
                      (log_event LevelError ''panic in handler'' w')))"

end
