(* ===== verification/Api_Server.thy ===== *)
theory Api_Server
  imports Api_Http
begin

text \<open>
  The server of \<open>internal/api/server.go\<close>: configuration, request helpers, one definition per handler, the
  route table and \<open>ServeHTTP\<close>; and the reaper of \<open>reaper.go\<close>.
\<close>

section \<open>Configuration\<close>

record Config =
  DefaultLease :: duration
  MinLease :: duration
  MaxLease :: duration
  HeartbeatTimeout :: duration
  AuthToken :: string
  MaxRequestBytes :: int

definition DefaultConfig :: Config where
  "DefaultConfig =
     \<lparr>DefaultLease = 30 * Second, MinLease = 5 * Second, MaxLease = 10 * Minute,
      HeartbeatTimeout = 60 * Second, AuthToken = [], MaxRequestBytes = 256 * 1024\<rparr>"

text \<open>
  A server: its configuration, its store's backoff, and what its platform makes of a
  float that does not fit an \<open>int64\<close>.
\<close>

record Server =
  cfg :: Config
  backoff :: BackoffConfig
  conv :: "rat \<Rightarrow> int"

section \<open>Request helpers\<close>

definition pathID :: "Request \<Rightarrow> string + int" where
  "pathID r =
     (case ParseInt (PathValue r) of
        None \<Rightarrow> Inl ''invalid job id: must be a positive integer''
      | Some i \<Rightarrow> if i \<le> 0 then Inl ''invalid job id: must be a positive integer'' else Inr i)"

definition clampLease :: "Server \<Rightarrow> rat \<Rightarrow> duration" where
  "clampLease sv seconds =
     (if seconds \<le> 0 then DefaultLease (cfg sv)
      else let d = to_int64 (conv sv) (round64 (seconds * of_int Second)) in
           if d < MinLease (cfg sv) then MinLease (cfg sv)
           else if d > MaxLease (cfg sv) then MaxLease (cfg sv)
           else d)"

definition intParam :: "string \<Rightarrow> int \<Rightarrow> string + int" where
  "intParam raw def =
     (if raw = [] then Inr def
      else case ParseInt raw of
        None \<Rightarrow> Inl ''must be an integer''
      | Some n \<Rightarrow> if n < 0 then Inl ''must not be negative'' else Inr n)"

definition bad_request :: "string \<Rightarrow> world \<Rightarrow> world" where
  "bad_request msg w = writeError 400 CodeBadRequest msg w"

section \<open>Health and stats\<close>

type_synonym endpoint = "Server \<Rightarrow> session \<Rightarrow> Request \<Rightarrow> world \<Rightarrow> world"

definition handleHealth :: endpoint where
  "handleHealth sv s r w =
     (case Stats s (tables w) of
        Inl e \<Rightarrow> writeError 503 CodeInternal ''database unavailable''
                   (log_event LevelError ''health check failed'' w)
      | Inr _ \<Rightarrow> writeJSON 200 HealthBody w)"

definition handleStats :: endpoint where
  "handleStats sv s r w =
     (case Stats s (tables w) of
        Inl e \<Rightarrow> writeStoreError e w
      | Inr stats \<Rightarrow>
          (let w1 = w\<lparr>tables := others s SelectWorkers (tables w)\<rparr> in
           case ListWorkers s (HeartbeatTimeout (cfg sv)) (tables w1) of
             Inl e \<Rightarrow> writeStoreError e w1
           | Inr ws \<Rightarrow> writeJSON 200 (StatsBody stats (length ws) (length (filter Alive ws))) w1))"

section \<open>Job endpoints\<close>

record createJobRequest =
  cType :: string
  cPayload :: string
  cMaxAttempts :: int

definition create_fields :: "createJobRequest fields" where
  "create_fields =
     [(''type'', set_string (\<lambda>x q. q\<lparr>cType := x\<rparr>)),
      (''payload'', set_string (\<lambda>x q. q\<lparr>cPayload := x\<rparr>)),
      (''max_attempts'', set_int (\<lambda>x q. q\<lparr>cMaxAttempts := x\<rparr>))]"

fun validation_msg :: "validation_error \<Rightarrow> string" where
  "validation_msg TypeRequired = ''type is required''"
| "validation_msg (UnsupportedType t) =
     ''unsupported job type '' @ Quote t @ '' (supported: '' @ Quote TypeShell @ '')''"
| "validation_msg PayloadRequired = ''payload is required''"
| "validation_msg PayloadTooLarge = ''payload exceeds '' @ FormatInt (int MaxPayloadBytes) @ '' bytes''"
| "validation_msg MaxAttemptsTooSmall = ''max_attempts must be >= 1''"
| "validation_msg MaxAttemptsTooLarge = ''max_attempts must be <= 100''"

definition handleCreateJob :: endpoint where
  "handleCreateJob sv s r w =
     (case decode create_fields \<lparr>cType = [], cPayload = [], cMaxAttempts = 0\<rparr> r of
        Inl m \<Rightarrow> bad_request m w
      | Inr q \<Rightarrow>
          (let n = (if cMaxAttempts q = 0 then 3 else cMaxAttempts q);
               ty = TrimSpace (cType q)
           in case ValidateNew ty (cPayload q) n of
                Some e \<Rightarrow> bad_request (validation_msg e) w
              | None \<Rightarrow>
                (case Create s ty (cPayload q) n (tables w) of
                   (Inl e, d') \<Rightarrow> writeStoreError e (w\<lparr>tables := d'\<rparr>)
                 | (Inr job, d') \<Rightarrow>
                     writeJSON 201 (JobBody job)
                       (log_event LevelInfo ''job_created'' (w\<lparr>tables := d'\<rparr>)))))"

definition handleListJobs :: endpoint where
  "handleListJobs sv s r w =
     (let status = ToUpper (TrimSpace (query r ''status'')) in
      if status \<noteq> [] \<and> \<not> ValidStatus status
      then bad_request ''invalid status filter: use PENDING, RUNNING, COMPLETED, FAILED or CANCELED'' w
      else case intParam (query r ''limit'') 100 of
        Inl m \<Rightarrow> bad_request (''invalid limit: '' @ m) w
      | Inr limit \<Rightarrow>
          (case intParam (query r ''offset'') 0 of
             Inl m \<Rightarrow> bad_request (''invalid offset: '' @ m) w
           | Inr offset \<Rightarrow>
               (case List_jobs s status limit offset (tables w) of
                  Inl e \<Rightarrow> writeStoreError e w
                | Inr js \<Rightarrow> writeJSON 200 (JobsBody js) w)))"

definition handleGetJob :: endpoint where
  "handleGetJob sv s r w =
     (case pathID r of
        Inl m \<Rightarrow> bad_request m w
      | Inr i \<Rightarrow>
          (case Get s GetJob i (tables w) of
             Inl e \<Rightarrow> writeStoreError e w
           | Inr job \<Rightarrow> writeJSON 200 (JobBody job) w))"

definition handleCancel :: endpoint where
  "handleCancel sv s r w =
     (case pathID r of
        Inl m \<Rightarrow> bad_request m w
      | Inr i \<Rightarrow>
          (case Cancel s i (tables w) of
             (Inl e, d') \<Rightarrow> writeStoreError e (w\<lparr>tables := d'\<rparr>)
           | (Inr job, d') \<Rightarrow>
               writeJSON 200 (JobBody job) (log_event LevelInfo ''job_canceled'' (w\<lparr>tables := d'\<rparr>))))"

record claimRequest =
  kWorkerID :: string
  kLeaseSeconds :: rat

definition claim_fields :: "claimRequest fields" where
  "claim_fields =
     [(''worker_id'', set_string (\<lambda>x q. q\<lparr>kWorkerID := x\<rparr>)),
      (''lease_seconds'', set_float (\<lambda>x q. q\<lparr>kLeaseSeconds := x\<rparr>))]"

definition handleClaim :: endpoint where
  "handleClaim sv s r w =
     (case decode claim_fields \<lparr>kWorkerID = [], kLeaseSeconds = 0\<rparr> r of
        Inl m \<Rightarrow> bad_request m w
      | Inr q \<Rightarrow>
          (let wid = TrimSpace (kWorkerID q) in
           if wid = [] then bad_request ''worker_id is required'' w
           else case Claim s wid (clampLease sv (kLeaseSeconds q)) (tables w) of
             (Inl e, d') \<Rightarrow> writeStoreError e (w\<lparr>tables := d'\<rparr>)
           | (Inr job, d') \<Rightarrow>
               writeJSON 200 (JobBody job) (log_event LevelInfo ''job_claimed'' (w\<lparr>tables := d'\<rparr>))))"

section \<open>Worker reports\<close>

record reportRequest =
  rWorkerID :: string
  rStdout :: string
  rStderr :: string
  rExitCode :: "int option"
  rDurationMS :: "int option"
  rError :: string
  rLeaseSeconds :: rat

definition report_fields :: "reportRequest fields" where
  "report_fields =
     [(''worker_id'', set_string (\<lambda>x q. q\<lparr>rWorkerID := x\<rparr>)),
      (''stdout'', set_string (\<lambda>x q. q\<lparr>rStdout := x\<rparr>)),
      (''stderr'', set_string (\<lambda>x q. q\<lparr>rStderr := x\<rparr>)),
      (''exit_code'', set_int_ptr (\<lambda>x q. q\<lparr>rExitCode := x\<rparr>)),
      (''duration_ms'', set_int_ptr (\<lambda>x q. q\<lparr>rDurationMS := x\<rparr>)),
      (''error'', set_string (\<lambda>x q. q\<lparr>rError := x\<rparr>)),
      (''lease_seconds'', set_float (\<lambda>x q. q\<lparr>rLeaseSeconds := x\<rparr>))]"

definition zero_report :: reportRequest where
  "zero_report = \<lparr>rWorkerID = [], rStdout = [], rStderr = [], rExitCode = None,
     rDurationMS = None, rError = [], rLeaseSeconds = 0\<rparr>"

definition parseReport :: "Request \<Rightarrow> string + (int \<times> reportRequest)" where
  "parseReport r =
     (case pathID r of
        Inl m \<Rightarrow> Inl m
      | Inr i \<Rightarrow>
          (case decode report_fields zero_report r of
             Inl m \<Rightarrow> Inl m
           | Inr q \<Rightarrow>
               (let q' = q\<lparr>rWorkerID := TrimSpace (rWorkerID q)\<rparr> in
                if rWorkerID q' = [] then Inl ''worker_id is required'' else Inr (i, q'))))"

definition handleComplete :: endpoint where
  "handleComplete sv s r w =
     (case parseReport r of
        Inl m \<Rightarrow> bad_request m w
      | Inr (i, q) \<Rightarrow>
          (case Complete s i (rWorkerID q)
                  \<lparr>Stdout = rStdout q, Stderr = rStderr q, ExitCode = rExitCode q,
                   ResDurationMS = rDurationMS q, ResError = []\<rparr> (tables w) of
             (Inl e, d') \<Rightarrow> writeStoreError e (w\<lparr>tables := d'\<rparr>)
           | (Inr job, d') \<Rightarrow>
               writeJSON 200 (JobBody job) (log_event LevelInfo ''job_completed'' (w\<lparr>tables := d'\<rparr>))))"

definition fail_cause :: "reportRequest \<Rightarrow> string" where
  "fail_cause q =
     (if TrimSpace (rError q) = [] then ''job failed without an error message'' else rError q)"

definition handleFail :: endpoint where
  "handleFail sv s r w =
     (case parseReport r of
        Inl m \<Rightarrow> bad_request m w
      | Inr (i, q) \<Rightarrow>
          (case Fail s (backoff sv) i (rWorkerID q)
                  \<lparr>Stdout = rStdout q, Stderr = rStderr q, ExitCode = rExitCode q,
                   ResDurationMS = rDurationMS q, ResError = fail_cause q\<rparr> (tables w) of
             (Inl e, d') \<Rightarrow> writeStoreError e (w\<lparr>tables := d'\<rparr>)
           | (Inr job, d') \<Rightarrow>
               writeJSON 200 (JobBody job)
                 (if Status job = StatusPending
                  then log_event LevelWarn ''job_retrying'' (w\<lparr>tables := d'\<rparr>)
                  else log_event LevelError ''job_failed'' (w\<lparr>tables := d'\<rparr>))))"

definition handleRenewLease :: endpoint where
  "handleRenewLease sv s r w =
     (case parseReport r of
        Inl m \<Rightarrow> bad_request m w
      | Inr (i, q) \<Rightarrow>
          (case RenewLease s i (rWorkerID q) (clampLease sv (rLeaseSeconds q)) (tables w) of
             (Inl e, d') \<Rightarrow> writeStoreError e (w\<lparr>tables := d'\<rparr>)
           | (Inr job, d') \<Rightarrow>
               writeJSON 200 (JobBody job) (log_event LevelDebug ''lease_renewed'' (w\<lparr>tables := d'\<rparr>))))"

section \<open>Worker endpoints\<close>

record registerRequest =
  gWorkerID :: string
  gHostname :: string

definition register_fields :: "registerRequest fields" where
  "register_fields =
     [(''worker_id'', set_string (\<lambda>x q. q\<lparr>gWorkerID := x\<rparr>)),
      (''hostname'', set_string (\<lambda>x q. q\<lparr>gHostname := x\<rparr>))]"

definition handleRegisterWorker :: endpoint where
  "handleRegisterWorker sv s r w =
     (case decode register_fields \<lparr>gWorkerID = [], gHostname = []\<rparr> r of
        Inl m \<Rightarrow> bad_request m w
      | Inr q \<Rightarrow>
          (let wid = TrimSpace (gWorkerID q) in
           if wid = [] \<or> length wid > 128
           then bad_request ''worker_id is required and must be at most 128 characters'' w
           else case RegisterWorker s wid (gHostname q) (tables w) of
             (Inl e, d') \<Rightarrow> writeStoreError e (w\<lparr>tables := d'\<rparr>)
           | (Inr v, d') \<Rightarrow>
               writeJSON 201 (WorkerBody v)
                 (log_event LevelInfo ''worker_registered'' (w\<lparr>tables := d'\<rparr>))))"

definition handleHeartbeat :: endpoint where
  "handleHeartbeat sv s r w =
     (let wid = TrimSpace (PathValue r) in
      if wid = [] then bad_request ''worker id is required'' w
      else case Heartbeat s wid (tables w) of
        (Inl e, d') \<Rightarrow>
          if e = ErrNotFound
          then writeError 404 CodeNotFound ''unknown worker: register first'' (w\<lparr>tables := d'\<rparr>)
          else writeStoreError e (w\<lparr>tables := d'\<rparr>)
      | (Inr v, d') \<Rightarrow> writeJSON 200 (WorkerBody v) (w\<lparr>tables := d'\<rparr>))"

definition handleListWorkers :: endpoint where
  "handleListWorkers sv s r w =
     (case ListWorkers s (HeartbeatTimeout (cfg sv)) (tables w) of
        Inl e \<Rightarrow> writeStoreError e w
      | Inr ws \<Rightarrow> writeJSON 200 (WorkersBody ws) w)"

section \<open>Routes\<close>

datatype pat = Lit string | Wild

record route =
  verb :: string
  pats :: "pat list"
  target :: endpoint

definition routes :: "route list" where
  "routes =
     [\<lparr>verb = ''GET'', pats = [Lit ''healthz''], target = handleHealth\<rparr>,
      \<lparr>verb = ''GET'', pats = [Lit ''stats''], target = handleStats\<rparr>,
      \<lparr>verb = ''POST'', pats = [Lit ''jobs''], target = handleCreateJob\<rparr>,
      \<lparr>verb = ''GET'', pats = [Lit ''jobs''], target = handleListJobs\<rparr>,
      \<lparr>verb = ''POST'', pats = [Lit ''jobs'', Lit ''claim''], target = handleClaim\<rparr>,
      \<lparr>verb = ''GET'', pats = [Lit ''jobs'', Wild], target = handleGetJob\<rparr>,
      \<lparr>verb = ''POST'', pats = [Lit ''jobs'', Wild, Lit ''cancel''], target = handleCancel\<rparr>,
      \<lparr>verb = ''POST'', pats = [Lit ''jobs'', Wild, Lit ''complete''], target = handleComplete\<rparr>,
      \<lparr>verb = ''POST'', pats = [Lit ''jobs'', Wild, Lit ''fail''], target = handleFail\<rparr>,
      \<lparr>verb = ''POST'', pats = [Lit ''jobs'', Wild, Lit ''lease''], target = handleRenewLease\<rparr>,
      \<lparr>verb = ''POST'', pats = [Lit ''workers'', Lit ''register''], target = handleRegisterWorker\<rparr>,
      \<lparr>verb = ''GET'', pats = [Lit ''workers''], target = handleListWorkers\<rparr>,
      \<lparr>verb = ''POST'', pats = [Lit ''workers'', Wild, Lit ''heartbeat''], target = handleHeartbeat\<rparr>]"

text \<open>A wildcard matches one non-empty segment.\<close>

fun seg_matches :: "pat \<Rightarrow> string \<Rightarrow> bool" where
  "seg_matches (Lit l) x \<longleftrightarrow> x = l"
| "seg_matches Wild x \<longleftrightarrow> x \<noteq> []"

definition path_matches :: "pat list \<Rightarrow> string list \<Rightarrow> bool" where
  "path_matches ps xs \<longleftrightarrow> list_all2 seg_matches ps xs"

fun wild_value :: "pat list \<Rightarrow> string list \<Rightarrow> string" where
  "wild_value (Wild # ps) (x # xs) = x"
| "wild_value (Lit l # ps) (x # xs) = wild_value ps xs"
| "wild_value _ _ = []"

text \<open>A GET pattern serves HEAD as well.\<close>

definition verb_matches :: "string \<Rightarrow> string \<Rightarrow> bool" where
  "verb_matches v m \<longleftrightarrow> m = v \<or> v = ''GET'' \<and> m = ''HEAD''"

definition route_matches :: "Request \<Rightarrow> route \<Rightarrow> bool" where
  "route_matches r t \<longleftrightarrow> verb_matches (verb t) (http_method r) \<and> path_matches (pats t) (segs r)"

definition mux :: "Server \<Rightarrow> session \<Rightarrow> handler" where
  "mux sv s r w =
     (case find (route_matches r) routes of
        Some t \<Rightarrow>
          Returned (target t sv s (r\<lparr>PathValue := wild_value (pats t) (segs r)\<rparr>) w)
      | None \<Rightarrow>
          Returned (if list_ex (\<lambda>t. path_matches (pats t) (segs r)) routes
                    then http_Error ''Method Not Allowed'' 405 w
                    else http_Error ''404 page not found'' 404 w))"

text \<open>The chain around a handler, and the server's own.\<close>

definition chain :: "Config \<Rightarrow> handler \<Rightarrow> handler" where
  "chain c h = recovery (logging (maxBody (MaxRequestBytes c) (auth (AuthToken c) (jsonErrors h))))"

definition ServeHTTP :: "Server \<Rightarrow> session \<Rightarrow> handler" where
  "ServeHTTP sv s r w = chain (cfg sv) (mux sv s) r w"

section \<open>The reaper\<close>

record Reaper =
  sweep_interval :: duration
  batch :: int

definition NewReaper :: "duration \<Rightarrow> int \<Rightarrow> Reaper" where
  "NewReaper i n = \<lparr>sweep_interval = (if i \<le> 0 then 5 * Second else i), batch = n\<rparr>"

definition sweep_event :: "Status \<Rightarrow> string" where
  "sweep_event st =
     (case st of StatusPending \<Rightarrow> ''requeued_for_retry''
      | StatusFailed \<Rightarrow> ''retries_exhausted'' | _ \<Rightarrow> [])"

text \<open>One sweep; \<open>expired_ctx\<close> is \<open>ctx.Err() != nil\<close> after the store call.\<close>

definition sweep ::
  "Reaper \<Rightarrow> BackoffConfig \<Rightarrow> session \<Rightarrow> bool \<Rightarrow> db \<Rightarrow> log_line list \<times> db" where
  "sweep rp bc s expired_ctx d =
     (case ReapExpiredLeases s bc (batch rp) d of
        ((_, Some e), d') \<Rightarrow>
          (if expired_ctx then [] else [Event LevelError ''reaper_sweep_failed''], d')
      | ((reaped, None), d') \<Rightarrow> (map (\<lambda>j. Event LevelWarn (sweep_event (RStatus j))) reaped, d'))"

text \<open>
  \<open>Run\<close> over what its \<open>select\<close> meets: the context done, or a tick with the database's side of the sweep and whether the
  context has ended by the time it returns. The log, and whether it has stopped.
\<close>

datatype reap_event = ReapDone | ReapTick session bool

fun reaper_loop :: "Reaper \<Rightarrow> BackoffConfig \<Rightarrow> reap_event list \<Rightarrow> db \<Rightarrow> log_line list \<times> bool \<times> db" where
  "reaper_loop rp bc [] d = ([], False, d)"
| "reaper_loop rp bc (ReapDone # es) d = ([Event LevelInfo ''reaper_stopped''], True, d)"
| "reaper_loop rp bc (ReapTick s gone # es) d =
     (case sweep rp bc s gone d of (lg, d1) \<Rightarrow>
        case reaper_loop rp bc es d1 of (lg2, stopped, d2) \<Rightarrow> (lg @ lg2, stopped, d2))"

definition Reaper_Run :: "Reaper \<Rightarrow> BackoffConfig \<Rightarrow> reap_event list \<Rightarrow> db \<Rightarrow> log_line list \<times> bool \<times> db" where
  "Reaper_Run rp bc es d =
     (case reaper_loop rp bc es d of (lg, stopped, d') \<Rightarrow> (Event LevelInfo ''reaper_started'' # lg, stopped, d'))"

end
