(* ===== verification/Store_Props.thy ===== *)
theory Store_Props
  imports Store_Inv
begin

text \<open>
  What each store method does, on every branch: the claim, the worker reports with their
  fencing and replay detection, cancellation, the reaper's sweep, and the reads.
\<close>

section \<open>Sample tables\<close>

text \<open>
  Three jobs (1 running under w1 with a lease until 100, 2 and 3 pending) and two workers,
  for the concrete instances below.
\<close>

definition demo_job :: "job_id \<Rightarrow> Status \<Rightarrow> int \<Rightarrow> worker_id option \<Rightarrow> timestamp option \<Rightarrow> Job" where
  "demo_job i st a w l =
     \<lparr>ID = i, Type = ''shell'', Payload = ''true'', Status = st, Attempts = a, MaxAttempts = 3,
      CreatedAt = 0, UpdatedAt = 0, AvailableAt = i, WorkerID = w, LeaseUntil = l,
      LastError = None, ResultStdout = None, ResultStderr = None, ResultExitCode = None,
      DurationMS = None\<rparr>"

definition demo_worker :: "worker_id \<Rightarrow> job_id option \<Rightarrow> worker_row" where
  "demo_worker w i =
     \<lparr>WID = w, Hostname = ''host'', RegisteredAt = 0, LastHeartbeat = 0, JobsProcessed = 0,
      CurrentJobID = i\<rparr>"

definition demo_db :: db where
  "demo_db =
     \<lparr>jobs = [demo_job 1 StatusRunning 1 (Some ''w1'') (Some 100),
              demo_job 2 StatusPending 0 None None, demo_job 3 StatusPending 0 None None],
      workers = [demo_worker ''w1'' (Some 1), demo_worker ''w2'' None],
      jobs_id_seq = 4\<rparr>"

definition demo_result :: Result where
  "demo_result = \<lparr>Stdout = ''out'', Stderr = '''', ExitCode = Some 0, ResDurationMS = Some 5, ResError = ''e''\<rparr>"

lemmas demo_defs = demo_db_def demo_job_def demo_worker_def demo_result_def

lemma demo_inv [simp]: "db_inv demo_db"
  by (simp add: db_inv_def jobs_inv_def workers_inv_def demo_defs owned_def job_ok_def int4_ok_def)

section \<open>Claim\<close>

lemma update_id_eq:
  "jobs_inv d \<Longrightarrow> j \<in> set (jobs d) \<Longrightarrow>
   update_where (\<lambda>r. ID r = ID j) f (jobs d) = map (\<lambda>r. if r = j then f j else r) (jobs d)"
  unfolding update_where_def using jobs_inv_unique by (intro map_cong) auto

text \<open>
  C9. A successful claim hands out the claimable job that is first in (available_at, id)
  order among those no other transaction holds; exactly that row changes: it becomes
  RUNNING under the caller with one more attempt and a lease counted from now, and the
  caller, who must be registered, is stamped with it.
\<close>

theorem Claim_hands_out_first:
  assumes "db_inv d" and "Claim s w lease d = (Inr j', d')"
  shows "\<exists>j \<in> set (jobs d).
     Status j = StatusPending \<and> AvailableAt j \<le> now s \<and> ID j \<notin> locked s \<and>
     (\<forall>k \<in> set (jobs d). Status k = StatusPending \<and> AvailableAt k \<le> now s \<and> ID k \<notin> locked s \<longrightarrow>
        (AvailableAt j, ID j) \<le> (AvailableAt k, ID k)) \<and>
     j' = j\<lparr>Status := StatusRunning, WorkerID := Some w,
            LeaseUntil := Some (now s + interval s lease),
            Attempts := Attempts j + 1, UpdatedAt := now s\<rparr> \<and>
     jobs d' = map (\<lambda>r. if r = j then j' else r) (jobs d) \<and>
     w \<in> WID ` set (workers d) \<and>
     workers d' = map (\<lambda>r. if WID r = w then r\<lparr>CurrentJobID := Some (ID j), LastHeartbeat := now s\<rparr>
                           else r) (workers d)"
proof -
  have ji: "jobs_inv d" using assms(1) by (simp add: db_inv_def)
  have "claim_tx s w lease d = (Inr j', d')"
    using assms(2) unfolding Claim_def by (rule withTx_Inr)
  then obtain j where j: "claim_pick s d = Some j" "j' = claim_set s w lease j"
    "d' = claimed_db s w lease j d" "w \<in> WID ` set (workers d)"
    by (rule claim_tx_Inr)
  note pick = claim_pick_Some [OF j(1)]
  from pick(1) show ?thesis
  proof (rule bexI [rotated], intro conjI ballI impI)
    fix k
    assume "k \<in> set (jobs d)"
      and "Status k = StatusPending \<and> AvailableAt k \<le> now s \<and> ID k \<notin> locked s"
    then show "(AvailableAt j, ID j) \<le> (AvailableAt k, ID k)"
      using pick(4) [of k] by (simp add: claimable_def claim_order_def)
  next
    show "jobs d' = map (\<lambda>r. if r = j then j' else r) (jobs d)"
      by (simp add: j(2,3) claimed_db_def update_id_eq [OF ji pick(1)])
  next
    show "workers d' = map (\<lambda>r. if WID r = w then r\<lparr>CurrentJobID := Some (ID j), LastHeartbeat := now s\<rparr>
                           else r) (workers d)"
      by (simp add: j(3) claimed_db_def claim_worker_set_def update_where_def)
  qed (use pick j in \<open>auto simp: claimable_def claim_set_def\<close>)
qed

theorem Claim_hands_out_first_witness:
  "\<exists>j' d'. Claim (quiet 50) ''w2'' (30 * Second) demo_db = (Inr j', d') \<and> ID j' = 2 \<and>
     Status j' = StatusRunning \<and> (\<exists>j \<in> set (jobs demo_db). jobs d' = map (\<lambda>r. if r = j then j' else r) (jobs demo_db))"
proof -
  obtain j' d' where c: "Claim (quiet 50) ''w2'' (30 * Second) demo_db = (Inr j', d')"
    and i: "ID j' = 2"
    by (simp add: Claim_def withTx_no_faults claim_tx_def claim_pick_def claimable_def demo_defs
        claim_order_def claim_set_def int4_ok_def)
  from Claim_hands_out_first [OF demo_inv c] c i show ?thesis by auto
qed

lemma claim_attempts_fit:
  "db_inv d \<Longrightarrow> claim_pick s d = Some j \<Longrightarrow> int4_ok (Attempts j + 1)"
  using claim_pick_Some(1,2) [of s d j] jobs_invD(3) [of d j]
  by (auto simp: db_inv_def job_ok_def claimable_def int4_ok_def)

text \<open>
  Every outcome of a claim whose database calls work: with no claimable unlocked job the
  answer is "no jobs" and nothing changes; an unregistered caller is refused and the
  picked job goes back to exactly what it was; otherwise the claim succeeds. In
  particular the attempt counter never leaves its column's range.
\<close>

lemma Claim_outcomes:
  assumes "db_inv d" "no_faults s" "text_ok s w"
  shows "Claim s w lease d =
    (case claim_pick s d of
       None \<Rightarrow> (Inl ErrNoJobs, d)
     | Some j \<Rightarrow> if w \<in> WID ` set (workers d)
                  then (Inr (claim_set s w lease j), claimed_db s w lease j d)
                  else (Inl ErrUnknownWorker, d)) \<and>
   (claim_pick s d = None \<longleftrightarrow> (\<forall>j \<in> set (jobs d). claimable s j \<longrightarrow> ID j \<in> locked s))"
proof (rule conjI)
  show "claim_pick s d = None \<longleftrightarrow> (\<forall>j \<in> set (jobs d). claimable s j \<longrightarrow> ID j \<in> locked s)"
    by (rule claim_pick_None)
  show "Claim s w lease d = (case claim_pick s d of None \<Rightarrow> (Inl ErrNoJobs, d)
     | Some j \<Rightarrow> if w \<in> WID ` set (workers d)
                  then (Inr (claim_set s w lease j), claimed_db s w lease j d)
                  else (Inl ErrUnknownWorker, d))"
  proof (cases "claim_pick s d")
    case None
    with assms show ?thesis by (simp add: Claim_def withTx_no_faults claim_tx_def bind_ok_def)
  next
    case (Some j)
    have "(filter (\<lambda>r. WID r = w) (workers d) = []) \<longleftrightarrow> w \<notin> WID ` set (workers d)"
      by (auto simp: filter_empty_conv)
    with Some assms claim_attempts_fit [OF assms(1) Some] show ?thesis
      by (simp add: Claim_def withTx_no_faults claim_tx_def bind_ok_def Let_def claimed_db_def)
  qed
qed

section \<open>Worker reports: ownership and fencing\<close>

text \<open>A session no other session interferes with between the transactions of one call.\<close>

definition alone :: "session \<Rightarrow> bool" where
  "alone s \<longleftrightarrow> (\<forall>c d. others s c d = d)"

lemma aloneD [simp]: "alone s \<Longrightarrow> others s c d = d"
  by (simp add: alone_def)

lemma alone_quiet [simp]: "alone (quiet t)"
  by (simp add: alone_def)

definition result_ok :: "session \<Rightarrow> worker_id \<Rightarrow> Result \<Rightarrow> bool" where
  "result_ok s w res \<longleftrightarrow>
     bind_ok s [w, TruncateOutput (Stdout res), TruncateOutput (Stderr res),
                TruncateOutput (ResError res)] \<and> exit_ok (ExitCode res)"

lemma result_okD [simp]:
  assumes "result_ok s w res"
  shows "bind_ok s [w, TruncateOutput (Stdout res), TruncateOutput (Stderr res)]"
    "bind_ok s [w, TruncateOutput (Stdout res), TruncateOutput (Stderr res), TruncateOutput (ResError res)]"
    "bind_ok s [w]" "exit_ok (ExitCode res)"
  using assms by (auto simp: result_ok_def bind_ok_def)

lemma find_owned:
  assumes "jobs_inv d" "j \<in> set (jobs d)"
  shows "find (owned (ID j) w) (jobs d) = (if owned (ID j) w j then Some j else None)"
proof (cases "find (owned (ID j) w) (jobs d)")
  case None
  with assms(2) show ?thesis by (auto dest: find_NoneD)
next
  case (Some k)
  then have "k \<in> set (jobs d)" "owned (ID j) w k" by (auto dest: find_SomeD)
  with jobs_inv_unique [OF assms(1) _ assms(2)] Some show ?thesis by (auto simp: owned_def)
qed

lemma Get_row:
  "jobs_inv d \<Longrightarrow> j \<in> set (jobs d) \<Longrightarrow> fault s c = None \<Longrightarrow> Get s c (ID j) d = Inr j"
  by (simp add: Get_def jobs_inv_def find_key)

lemma update_owned_eq:
  assumes "jobs_inv d" "j \<in> set (jobs d)" "owned (ID j) w j"
  shows "update_where (owned (ID j) w) f (jobs d) = map (\<lambda>r. if r = j then f j else r) (jobs d)"
  unfolding update_where_def using assms jobs_inv_unique [OF assms(1) _ assms(2)]
  by (intro map_cong) (auto simp: owned_def)

lemma not_owned_report:
  assumes "\<not> owned i w j" "jobs_inv d" "j \<in> set (jobs d)" "ID j = i"
  shows "snd (withTx s (report_tx s texts code upd i w) d) = d"
    and "no_faults s \<Longrightarrow> bind_ok s texts \<Longrightarrow> exit_ok code \<Longrightarrow>
      withTx s (report_tx s texts code upd i w) d = (Inl ErrNoJobs, d)"
proof -
  have f: "find (owned i w) (jobs d) = None" using find_owned assms by metis
  then have "\<exists>e. report_tx s texts code upd i w d = (Inl e, d)"
    by (simp add: report_tx_def split: option.split)
  then show "snd (withTx s (report_tx s texts code upd i w) d) = d"
    using withTx_db [of s "report_tx s texts code upd i w" d] by auto
  show "withTx s (report_tx s texts code upd i w) d = (Inl ErrNoJobs, d)"
    if "no_faults s" "bind_ok s texts" "exit_ok code"
    using that f by (simp add: withTx_no_faults report_tx_def)
qed

lemma settle_alone_db: "alone s \<Longrightarrow> snd (settle s i w want r) = snd r"
  by (auto simp: settle_def Let_def split: prod.split sum.split error.split)

text \<open>
  C10. Fencing: a worker that does not hold the job (it is RUNNING under somebody else, or not
  RUNNING at all) changes nothing with a completion, a failure report or a renewal,
  whatever the database does during the call; and a renewal, or a completion that is not a
  replay of its own earlier one, is answered with "not owned".
\<close>

theorem stale_report_changes_nothing:
  assumes "db_inv d" "alone s" "j \<in> set (jobs d)"
    and stale: "Status j \<noteq> StatusRunning \<or> WorkerID j \<noteq> Some w"
  shows "snd (Complete s (ID j) w res d) = d \<and> snd (Fail s cfg (ID j) w res d) = d \<and>
     snd (RenewLease s (ID j) w lease d) = d \<and>
     (no_faults s \<longrightarrow> result_ok s w res \<longrightarrow>
        fst (RenewLease s (ID j) w lease d) = Inl ErrNotOwned \<and>
        (\<not> (Status j = StatusCompleted \<and> WorkerID j = Some w) \<longrightarrow>
           fst (Complete s (ID j) w res d) = Inl ErrNotOwned))"
proof -
  have ji: "jobs_inv d" using assms(1) by (simp add: db_inv_def)
  have no: "\<not> owned (ID j) w j" using stale by (auto simp: owned_def)
  note nr = not_owned_report [OF no ji assms(3) refl]
  have f: "find (owned (ID j) w) (jobs d) = None" using find_owned [OF ji assms(3)] no by simp
  have "snd (Complete s (ID j) w res d) = d"
    using assms(2) nr(1) by (simp add: Complete_def finish_def settle_alone_db)
  moreover have "snd (Fail s cfg (ID j) w res d) = d"
    using assms(2) nr(1) by (simp add: Fail_def Let_def settle_alone_db split: sum.split)
  moreover have "snd (RenewLease s (ID j) w lease d) = d"
    using assms(2) f by (simp add: RenewLease_def Let_def split: option.split)
  moreover have "fst (RenewLease s (ID j) w lease d) = Inl ErrNotOwned"
    if "no_faults s" "result_ok s w res"
    using that assms(2) f Get_row [OF ji assms(3)] by (simp add: RenewLease_def Let_def explainLostRow_def)
  moreover have "fst (Complete s (ID j) w res d) = Inl ErrNotOwned"
    if "no_faults s" "result_ok s w res" "\<not> (Status j = StatusCompleted \<and> WorkerID j = Some w)"
    using that assms(2) nr(2) Get_row [OF ji assms(3)]
    by (simp add: Complete_def finish_def settle_def Let_def replayOrConflict_def)
  ultimately show ?thesis by blast
qed

theorem stale_report_changes_nothing_witness:
  "snd (Complete (quiet 50) 1 ''w2'' demo_result demo_db) = demo_db \<and>
   fst (Complete (quiet 50) 1 ''w2'' demo_result demo_db) = Inl ErrNotOwned"
  using stale_report_changes_nothing [of demo_db "quiet 50"
      "demo_job 1 StatusRunning 1 (Some ''w1'') (Some 100)" "''w2''" demo_result]
    demo_inv
  by (simp add: demo_db_def demo_job_def demo_result_def result_ok_def exit_ok_def int4_ok_def)

section \<open>Complete\<close>

text \<open>The outcome of a report on a row its sender owns.\<close>

lemma owned_report:
  assumes "jobs_inv d" "j \<in> set (jobs d)" "owned (ID j) w j" "no_faults s" "bind_ok s texts" "exit_ok code"
  shows "settle s (ID j) w want (withTx s (report_tx s texts code upd (ID j) w) d) =
    (Inr (upd j),
     d\<lparr>jobs := map (\<lambda>r. if r = j then upd j else r) (jobs d),
       workers := update_where (\<lambda>r. WID r = w) (done_worker_set s) (workers d)\<rparr>)"
  using assms
  by (simp add: settle_def withTx_no_faults report_tx_def find_owned Let_def update_owned_eq)

text \<open>
  C11. The owner's completion turns exactly its job COMPLETED with the truncated output, the
  exit code and the duration it reported, clears lease and error, and in the same
  transaction counts the attempt for the worker and marks it idle.
\<close>

theorem Complete_by_owner:
  assumes "db_inv d" "no_faults s" "result_ok s w res"
    and "j \<in> set (jobs d)" "Status j = StatusRunning" "WorkerID j = Some w"
  shows "Complete s (ID j) w res d =
    (let j' = j\<lparr>Status := StatusCompleted, LeaseUntil := None, UpdatedAt := now s,
                ResultStdout := Some (TruncateOutput (Stdout res)),
                ResultStderr := Some (TruncateOutput (Stderr res)),
                ResultExitCode := ExitCode res, DurationMS := ResDurationMS res,
                LastError := None\<rparr>
     in (Inr j',
         d\<lparr>jobs := map (\<lambda>r. if r = j then j' else r) (jobs d),
           workers := map (\<lambda>r. if WID r = w
              then r\<lparr>JobsProcessed := JobsProcessed r + 1, CurrentJobID := None, LastHeartbeat := now s\<rparr>
              else r) (workers d)\<rparr>))"
proof -
  have ji: "jobs_inv d" using assms(1) by (simp add: db_inv_def)
  have "complete_set s w res j = j\<lparr>Status := StatusCompleted, LeaseUntil := None, UpdatedAt := now s,
                ResultStdout := Some (TruncateOutput (Stdout res)),
                ResultStderr := Some (TruncateOutput (Stderr res)),
                ResultExitCode := ExitCode res, DurationMS := ResDurationMS res,
                LastError := None\<rparr>"
    using assms(6) by (cases j) (simp add: complete_set_def)
  moreover have "owned (ID j) w j" using assms(5,6) by (simp add: owned_def)
  note r = owned_report [OF ji assms(4) this assms(2) result_okD(1,4) [OF assms(3)]]
  ultimately show ?thesis
    unfolding Complete_def finish_def r done_worker_set_def update_where_def Let_def by simp
qed

theorem Complete_by_owner_witness:
  "Status (projr (fst (Complete (quiet 50) 1 ''w1'' demo_result demo_db))) = StatusCompleted"
  using Complete_by_owner [of demo_db "quiet 50" "''w1''" demo_result
      "demo_job 1 StatusRunning 1 (Some ''w1'') (Some 100)"] demo_inv
  by (simp add: demo_db_def demo_job_def demo_result_def result_ok_def exit_ok_def int4_ok_def Let_def)

text \<open>
  Completion is idempotent: sending the same completion again, at any later time, with
  any result, returns the stored job and changes nothing.
\<close>

lemma Complete_replay:
  assumes "db_inv d" "no_faults s" "result_ok s w res"
    and "Complete s i w res d = (Inr j', d')"
    and "no_faults s2" "alone s2" "result_ok s2 w res2"
    and "alone s"
  shows "Complete s2 i w res2 d' = (Inr j', d')"
proof -
  have ji: "jobs_inv d" using assms(1) by (simp add: db_inv_def)
  have ji': "jobs_inv d'"
    using guar_Complete [OF _ assms(1), of s i w res] assms(4,8)
    by (simp add: guar_def db_inv_def session_ok_def)
  let ?tx = "withTx s (report_tx s [w, TruncateOutput (Stdout res), TruncateOutput (Stderr res)]
                    (ExitCode res) (complete_set s w res) i w) d"
  have j': "j' \<in> set (jobs d') \<and> ID j' = i \<and> Status j' = StatusCompleted \<and> WorkerID j' = Some w"
  proof (cases "find (owned i w) (jobs d)")
    case None
    then have "?tx = (Inl ErrNoJobs, d)"
      using assms(2,3) by (simp add: withTx_no_faults report_tx_def)
    with assms(2,4,8) show ?thesis
      by (auto simp: Complete_def finish_def settle_def Let_def replayOrConflict_def Get_def
          dest: find_SomeD split: option.splits if_splits sum.splits)
  next
    case (Some j)
    then have j: "j \<in> set (jobs d)" "owned i w j" by (auto dest: find_SomeD)
    then have i: "i = ID j" by (simp add: owned_def)
    have "owned (ID j) w j" using j(2) i by simp
    note r = owned_report [OF ji j(1) this assms(2) result_okD(1,4) [OF assms(3)]]
    from assms(4) have "j' = complete_set s w res j"
      "jobs d' = map (\<lambda>r. if r = j then complete_set s w res j else r) (jobs d)"
      unfolding Complete_def finish_def i r by auto
    then show ?thesis
      using mem_replace [OF j(1), of "complete_set s w res j"] by (simp add: i) (simp add: complete_set_def)
  qed
  then have "\<not> owned i w j'" by (simp add: owned_def)
  with not_owned_report(2) [OF this ji' _ _ assms(5)] j' assms(5,6,7) Get_row [OF ji']
  show ?thesis by (auto simp: Complete_def finish_def settle_def Let_def replayOrConflict_def)
qed

section \<open>Fail\<close>

lemma Fail_alone:
  assumes "jobs_inv d" "alone s" "fault s GetJob = None" "j \<in> set (jobs d)"
  shows "Fail s cfg (ID j) w res d =
    settle s (ID j) w StatusFailed
      (withTx s (report_tx s
         [w, TruncateOutput (Stdout res), TruncateOutput (Stderr res), TruncateOutput (ResError res)]
         (ExitCode res) (fail_set s w res (Delay cfg (Attempts j))) (ID j) w) d)"
  using assms by (simp add: Fail_def Get_row)

text \<open>
  C12. The owner's failure report on attempt \<open>a\<close> of a job: with attempts left the job goes back to
  PENDING without owner or lease and becomes claimable again after the backoff delay for
  \<open>a\<close>; on the last attempt it is FAILED and keeps its owner. The error and the output are
  stored and the attempt is counted for the worker, in the same transaction.
\<close>

theorem Fail_by_owner:
  assumes "db_inv d" "no_faults s" "alone s" "result_ok s w res"
    and "j \<in> set (jobs d)" "Status j = StatusRunning" "WorkerID j = Some w"
  shows "\<exists>j'. fst (Fail s cfg (ID j) w res d) = Inr j' \<and>
     jobs (snd (Fail s cfg (ID j) w res d)) = map (\<lambda>r. if r = j then j' else r) (jobs d) \<and>
     workers (snd (Fail s cfg (ID j) w res d)) = map (\<lambda>r. if WID r = w
        then r\<lparr>JobsProcessed := JobsProcessed r + 1, CurrentJobID := None, LastHeartbeat := now s\<rparr>
        else r) (workers d) \<and>
     (if Attempts j < MaxAttempts j
      then Status j' = StatusPending \<and> WorkerID j' = None
      else Status j' = StatusFailed \<and> WorkerID j' = Some w) \<and>
     Attempts j' = Attempts j \<and> LeaseUntil j' = None \<and>
     AvailableAt j' = now s + interval s (Delay cfg (Attempts j)) \<and>
     LastError j' = Some (TruncateOutput (ResError res)) \<and>
     ResultStdout j' = Some (TruncateOutput (Stdout res)) \<and>
     ResultExitCode j' = ExitCode res"
proof -
  have ji: "jobs_inv d" using assms(1) by (simp add: db_inv_def)
  have own: "owned (ID j) w j" using assms(6,7) by (simp add: owned_def)
  note r = owned_report [OF ji assms(5) own assms(2) result_okD(2,4) [OF assms(4)]]
  have "fault s GetJob = None" using assms(2) by simp
  note f = Fail_alone [OF ji assms(3) this assms(5)]
  show ?thesis
    unfolding f r done_worker_set_def update_where_def
    by (intro exI [of _ "fail_set s w res (Delay cfg (Attempts j)) j"]) (auto simp: fail_set_def)
qed

theorem Fail_by_owner_witness:
  "\<exists>j'. fst (Fail (quiet 50) DefaultBackoff 1 ''w1'' demo_result demo_db) = Inr j' \<and>
     Status j' = StatusPending \<and> AvailableAt j' = 50 + 1000000"
proof -
  let ?j = "demo_job 1 StatusRunning 1 (Some ''w1'') (Some 100)"
  have m: "?j \<in> set (jobs demo_db)" by (simp add: demo_db_def)
  have o: "Status ?j = StatusRunning" "WorkerID ?j = Some ''w1''" by (simp_all add: demo_job_def)
  have r: "result_ok (quiet 50) ''w1'' demo_result"
    by (simp add: result_ok_def demo_result_def exit_ok_def int4_ok_def)
  obtain j' where "fst (Fail (quiet 50) DefaultBackoff (ID ?j) ''w1'' demo_result demo_db) = Inr j'"
    "if Attempts ?j < MaxAttempts ?j then Status j' = StatusPending \<and> WorkerID j' = None
     else Status j' = StatusFailed \<and> WorkerID j' = Some ''w1''"
    "AvailableAt j' = now (quiet 50) + interval (quiet 50) (Delay DefaultBackoff (Attempts ?j))"
    using Fail_by_owner [OF demo_inv _ _ r m o, of DefaultBackoff] by auto
  then show ?thesis
    by (simp add: demo_job_def Delay_def Let_def wrap64_def)
qed

text \<open>
  The replay rule for failures does not look at who asks: on any PENDING job that exists,
  a failure report from any worker at all, one that never held the job included, is
  answered with success and the job as it stands; nothing changes. (The comment on the rule speaks of
  "this worker's own failure report", and the design notes promise 409 for a late report
  from an old worker.)
\<close>

lemma Fail_on_pending_succeeds:
  assumes "db_inv d" "no_faults s" "alone s" "result_ok s w res"
    and "j \<in> set (jobs d)" "Status j = StatusPending"
  shows "Fail s cfg (ID j) w res d = (Inr j, d)"
proof -
  have ji: "jobs_inv d" using assms(1) by (simp add: db_inv_def)
  have no: "\<not> owned (ID j) w j" using assms(6) by (simp add: owned_def)
  have "WorkerID j = None" using jobs_invD(3) [OF ji assms(5)] assms(6) by (simp add: job_ok_def)
  moreover note not_owned_report(2) [OF no ji assms(5) HOL.refl assms(2) result_okD(2,4) [OF assms(4)]]
  ultimately show ?thesis
    using assms Get_row [OF ji assms(5)] Fail_alone [OF ji assms(3) _ assms(5)]
    by (simp add: settle_def Let_def replayOrConflict_def)
qed

section \<open>Cancel\<close>

lemma find_pending:
  assumes "jobs_inv d" "j \<in> set (jobs d)"
  shows "find (\<lambda>k. ID k = ID j \<and> Status k = StatusPending) (jobs d) =
    (if Status j = StatusPending then Some j else None)"
proof (cases "find (\<lambda>k. ID k = ID j \<and> Status k = StatusPending) (jobs d)")
  case None
  with assms(2) show ?thesis by (auto dest: find_NoneD)
next
  case (Some k)
  then have "k \<in> set (jobs d)" "ID k = ID j" "Status k = StatusPending" by (auto dest: find_SomeD)
  with jobs_inv_unique [OF assms(1) _ assms(2)] Some show ?thesis by auto
qed

lemma update_pending_eq:
  assumes "jobs_inv d" "j \<in> set (jobs d)" "Status j = StatusPending"
  shows "update_where (\<lambda>k. ID k = ID j \<and> Status k = StatusPending) f (jobs d) =
    map (\<lambda>r. if r = j then f j else r) (jobs d)"
  unfolding update_where_def using assms jobs_inv_unique [OF assms(1) _ assms(2)]
  by (intro map_cong) auto

text \<open>
  Cancelling stops a job exactly when it is PENDING; on a job already CANCELED it is a no-op
  that succeeds; a RUNNING or finished job is refused and left alone; an id that does not
  exist is "not found".
\<close>

lemma Cancel_outcomes:
  assumes "db_inv d" "no_faults s" "alone s"
  shows "(i \<notin> ID ` set (jobs d) \<longrightarrow> Cancel s i d = (Inl ErrNotFound, d)) \<and>
    (\<forall>j \<in> set (jobs d). ID j = i \<longrightarrow> Cancel s i d =
       (case Status j of
          StatusPending \<Rightarrow> (Inr (cancel_set s j), d\<lparr>jobs := map (\<lambda>r. if r = j then cancel_set s j else r) (jobs d)\<rparr>)
        | StatusCanceled \<Rightarrow> (Inr j, d)
        | _ \<Rightarrow> (Inl ErrNotCancelable, d)))"
proof (intro conjI impI ballI)
  assume "i \<notin> ID ` set (jobs d)"
  then have "find (\<lambda>j. ID j = i) (jobs d) = None" "find (\<lambda>j. ID j = i \<and> Status j = StatusPending) (jobs d) = None"
    by (auto simp: find_None_iff)
  with assms(2,3) show "Cancel s i d = (Inl ErrNotFound, d)" by (simp add: Cancel_def Get_def)
next
  fix j assume j: "j \<in> set (jobs d)" and i: "ID j = i"
  have ji: "jobs_inv d" using assms(1) by (simp add: db_inv_def)
  show "Cancel s i d = (case Status j of
          StatusPending \<Rightarrow> (Inr (cancel_set s j), d\<lparr>jobs := map (\<lambda>r. if r = j then cancel_set s j else r) (jobs d)\<rparr>)
        | StatusCanceled \<Rightarrow> (Inr j, d)
        | _ \<Rightarrow> (Inl ErrNotCancelable, d))"
    using assms(2,3) j ji find_pending [OF ji j] update_pending_eq [OF ji j] Get_row [OF ji j]
    unfolding i [symmetric] by (cases "Status j") (simp_all add: Cancel_def)
qed

end
