(* ===== verification/Api_Props.thy ===== *)
theory Api_Props
  imports Api_Server Store_Props
begin

text \<open>
  What the HTTP layer promises. Every endpoint is an interpretation of one contract, the
  locale \<open>api_endpoint\<close>: it answers exactly once, in JSON; it keeps the store's guarantee; a
  refusal for a bad request changes nothing. The properties of \<open>ServeHTTP\<close> follow from the contract.
\<close>

section \<open>Writing one reply\<close>

definition unanswered :: "world \<Rightarrow> bool" where
  "unanswered w \<longleftrightarrow>
     sent w = None \<and> chunks w = [] \<and> recorder w = Some (200, False) \<and> substituted w \<noteq> Some True"

definition answered :: "world \<Rightarrow> nat \<Rightarrow> payload \<Rightarrow> bool" where
  "answered w st v \<longleftrightarrow>
     sent w = Some st \<and> wire_ctype w = ''application/json'' \<and> chunks w = [Json v] \<and>
     recorder w = Some (st, True)"

lemma unanswered_log_event [simp]: "unanswered (log_event l e w) = unanswered w"
  by (simp add: unanswered_def log_event_def)

lemma unanswered_tables [simp]: "unanswered (w\<lparr>tables := d\<rparr>) = unanswered w"
  by (simp add: unanswered_def)

lemma tables_log_event [simp]: "tables (log_event l e w) = tables w"
  by (simp add: log_event_def)

lemma json_prefix [simp]: "HasPrefix ''application/json'' ''application/json''"
  by (simp add: HasPrefix_def starts_with_def)

lemmas writer_defs = write_json_def je_WriteHeader_def je_Write_def rec_WriteHeader_def rec_Write_def
  base_WriteHeader_def base_Write_def

lemma writeJSON_answers: "unanswered w \<Longrightarrow> answered (writeJSON st v w) st v"
  by (auto simp: unanswered_def answered_def writeJSON_def writer_defs Let_def)

lemma tables_writers [simp]:
  "tables (base_WriteHeader st w) = tables w" "tables (base_Write c w) = tables w"
  "tables (rec_WriteHeader st w) = tables w" "tables (rec_Write c w) = tables w"
  by (auto simp: writer_defs Let_def split: option.split bool.split)

lemma tables_je [simp]:
  "tables (je_WriteHeader st w) = tables w" "tables (je_Write c w) = tables w"
  by (auto simp: je_WriteHeader_def je_Write_def write_json_def)

lemma tables_writeJSON [simp]: "tables (writeJSON st v w) = tables w"
  by (simp add: writeJSON_def write_json_def)

lemma tables_writeError [simp]: "tables (writeError st code msg w) = tables w"
  by (simp add: writeError_def)

lemma tables_bad_request [simp]: "tables (bad_request m w) = tables w"
  by (simp add: bad_request_def)

lemma tables_writeStoreError [simp]: "tables (writeStoreError e w) = tables w"
  by (simp add: writeStoreError_def split: prod.split error.split)

lemma writeError_answers: "unanswered w \<Longrightarrow> answered (writeError st code msg w) st (ErrorBody msg code)"
  by (simp add: writeError_def writeJSON_answers)

lemma bad_request_answers:
  "unanswered w \<Longrightarrow> answered (bad_request m w) 400 (ErrorBody m CodeBadRequest)"
  by (simp add: bad_request_def writeError_answers)

lemma writeStoreError_answers:
  "unanswered w \<Longrightarrow> store_error_reply e = (st, code, msg) \<Longrightarrow>
   answered (writeStoreError e w) st (ErrorBody msg code)"
  by (cases e) (auto simp: writeStoreError_def intro!: writeError_answers)

lemma answered_unique: "answered w st v \<Longrightarrow> answered w st' v' \<Longrightarrow> st' = st \<and> v' = v"
  by (simp add: answered_def)

lemma store_error_status:
  "store_error_reply e = (st, code, msg) \<Longrightarrow> st \<in> {404, 409, 500}"
  by (cases e) auto

section \<open>The contract of an endpoint\<close>

text \<open>
  Either a refusal that leaves the tables alone, or a reply other than 400 with the tables
  moved as the store may move them.
\<close>

definition replies :: "session \<Rightarrow> world \<Rightarrow> world \<Rightarrow> bool" where
  "replies s w w' \<longleftrightarrow>
     (\<exists>st v. answered w' st v \<and> (st = 400 \<longrightarrow> tables w' = tables w)) \<and>
     (session_ok s \<longrightarrow> db_inv (tables w) \<longrightarrow> guar (tables w) (tables w'))"

locale api_endpoint =
  fixes h :: endpoint
  assumes replies: "unanswered w \<Longrightarrow> replies s w (h sv s r w)"
begin

lemma answers:
  assumes "unanswered w"
  obtains st v where "answered (h sv s r w) st v"
  using replies [OF assms, of s sv r] by (auto simp: replies_def)

lemma keeps:
  "unanswered w \<Longrightarrow> session_ok s \<Longrightarrow> db_inv (tables w) \<Longrightarrow> guar (tables w) (tables (h sv s r w))"
  using replies by (simp add: replies_def)

lemma refusal_changes_nothing:
  "unanswered w \<Longrightarrow> answered (h sv s r w) 400 v \<Longrightarrow> tables (h sv s r w) = tables w"
  using replies [of w s sv r] by (auto simp: replies_def dest: answered_unique)

end

section \<open>Replies the handlers are made of\<close>

lemma replies_bad_request: "unanswered w \<Longrightarrow> replies s w (bad_request m w)"
  using bad_request_answers [of w m] by (auto simp: replies_def guar_refl)

lemma replies_writeJSON:
  assumes "unanswered w'" "st \<noteq> 400"
    "session_ok s \<Longrightarrow> db_inv (tables w) \<Longrightarrow> guar (tables w) (tables w')"
  shows "replies s w (writeJSON st v w')"
  using assms writeJSON_answers [OF assms(1), of st v] by (auto simp: replies_def)

lemma replies_writeError:
  assumes "unanswered w'" "st \<noteq> 400"
    "session_ok s \<Longrightarrow> db_inv (tables w) \<Longrightarrow> guar (tables w) (tables w')"
  shows "replies s w (writeError st code msg w')"
  using assms unfolding writeError_def by (rule replies_writeJSON)

lemma replies_writeStoreError:
  assumes "unanswered w'" "session_ok s \<Longrightarrow> db_inv (tables w) \<Longrightarrow> guar (tables w) (tables w')"
  shows "replies s w (writeStoreError e w')"
proof -
  obtain st code msg where m: "store_error_reply e = (st, code, msg)" by (cases "store_error_reply e")
  with assms writeStoreError_answers [OF assms(1) m] store_error_status [OF m]
  show ?thesis by (auto simp: replies_def)
qed

lemmas replies_intros = replies_bad_request replies_writeJSON replies_writeError replies_writeStoreError

text \<open>The common ending: a store method was called, its error or its job is written out.\<close>

lemma replies_store_call:
  assumes "unanswered w" "session_ok s \<Longrightarrow> db_inv (tables w) \<Longrightarrow> guar (tables w) (snd res)"
    "\<And>x w'. unanswered w' \<Longrightarrow> unanswered (lg x w')" "\<And>x w'. tables (lg x w') = tables w'"
    "st \<noteq> 400"
  shows "replies s w (case res of (Inl e, d') \<Rightarrow> writeStoreError e (w\<lparr>tables := d'\<rparr>)
    | (Inr x, d') \<Rightarrow> writeJSON st (f x) (lg x (w\<lparr>tables := d'\<rparr>)))"
  using assms by (auto split: prod.split sum.split intro!: replies_intros)

section \<open>Every endpoint keeps the contract\<close>

interpretation eHealth: api_endpoint handleHealth
  by unfold_locales (auto simp: handleHealth_def guar_refl split: sum.split intro!: replies_intros)

interpretation eStats: api_endpoint handleStats
  by unfold_locales
    (auto simp: handleStats_def guar_refl Let_def split: sum.split intro!: replies_intros guar_others)

interpretation eCreate: api_endpoint handleCreateJob
  by unfold_locales
    (auto simp: handleCreateJob_def Let_def guar_Create split: sum.split option.split
      intro!: replies_bad_request replies_store_call [where lg = "\<lambda>_. log_event LevelInfo ''job_created''"])

interpretation eList: api_endpoint handleListJobs
  by unfold_locales
    (auto simp: handleListJobs_def guar_refl Let_def split: sum.split intro!: replies_intros)

interpretation eGet: api_endpoint handleGetJob
  by unfold_locales (auto simp: handleGetJob_def guar_refl split: sum.split intro!: replies_intros)

interpretation eCancel: api_endpoint handleCancel
  by unfold_locales
    (auto simp: handleCancel_def guar_Cancel split: sum.split
      intro!: replies_bad_request replies_store_call [where lg = "\<lambda>_. log_event LevelInfo ''job_canceled''"])

interpretation eClaim: api_endpoint handleClaim
  by unfold_locales
    (auto simp: handleClaim_def Let_def guar_Claim split: sum.split
      intro!: replies_bad_request replies_store_call [where lg = "\<lambda>_. log_event LevelInfo ''job_claimed''"])

interpretation eComplete: api_endpoint handleComplete
  by unfold_locales
    (auto simp: handleComplete_def guar_Complete split: sum.split
      intro!: replies_bad_request replies_store_call [where lg = "\<lambda>_. log_event LevelInfo ''job_completed''"])

interpretation eFail: api_endpoint handleFail
  by unfold_locales
    (auto simp: handleFail_def guar_Fail split: sum.split
      intro!: replies_bad_request replies_store_call [where lg = "\<lambda>j w.
        if Status j = StatusPending then log_event LevelWarn ''job_retrying'' w
        else log_event LevelError ''job_failed'' w"])

interpretation eRenew: api_endpoint handleRenewLease
  by unfold_locales
    (auto simp: handleRenewLease_def guar_RenewLease split: sum.split
      intro!: replies_bad_request replies_store_call [where lg = "\<lambda>_. log_event LevelDebug ''lease_renewed''"])

interpretation eRegister: api_endpoint handleRegisterWorker
  by unfold_locales
    (auto simp: handleRegisterWorker_def Let_def guar_RegisterWorker split: sum.split
      intro!: replies_bad_request replies_store_call [where lg = "\<lambda>_. log_event LevelInfo ''worker_registered''"])

interpretation eHeartbeat: api_endpoint handleHeartbeat
proof
  fix w s sv r assume w: "unanswered w"
  have "guar (tables w) d'" if "Heartbeat s x (tables w) = (y, d')" "db_inv (tables w)" for x y d'
    using guar_Heartbeat [OF that(2), of s x] that(1) by simp
  with w show "replies s w (handleHeartbeat sv s r w)"
    by (auto simp: handleHeartbeat_def Let_def split: sum.split prod.split intro!: replies_intros)
qed

interpretation eListWorkers: api_endpoint handleListWorkers
  by unfold_locales (auto simp: handleListWorkers_def guar_refl split: sum.split intro!: replies_intros)

end
