(* ===== verification/Api_Serve.thy ===== *)
theory Api_Serve
  imports Api_Props
begin

text \<open>
  Properties of the whole server: \<open>ServeHTTP\<close> with its middleware, the router, authentication, the lease
  clamp, and single endpoints from request to reply.
\<close>

section \<open>The router\<close>

lemma routes_replies: "t \<in> set routes \<Longrightarrow> unanswered w \<Longrightarrow> replies s w (target t sv s r w)"
  by (auto simp: routes_def intro: eHealth.replies eStats.replies eCreate.replies eList.replies
      eClaim.replies eGet.replies eCancel.replies eComplete.replies eFail.replies eRenew.replies
      eRegister.replies eListWorkers.replies eHeartbeat.replies)

lemma http_Error_answers:
  assumes "unanswered w" "substituted w = Some False" "code = 404 \<or> code = 405"
  shows "answered (http_Error msg code w) code
    (if code = 405 then ErrorBody ''method not allowed for this path'' CodeBadRequest
     else ErrorBody ''resource not found'' CodeNotFound)"
  using assms
  by (auto simp: unanswered_def answered_def http_Error_def writer_defs HasPrefix_def starts_with_def Let_def)

lemma tables_http_Error [simp]: "tables (http_Error msg code w) = tables w"
  by (simp add: http_Error_def)

lemma mux_replies:
  assumes "unanswered w" "substituted w = Some False"
  obtains w' where "mux sv s r w = Returned w'" "replies s w w'"
proof (cases "find (route_matches r) routes")
  case None
  have "replies s w (http_Error msg code w)" if "code = 404 \<or> code = 405" for msg code
    using http_Error_answers [OF assms that, of msg] that by (auto simp: replies_def guar_refl)
  with None that show ?thesis by (auto simp: mux_def)
next
  case (Some t)
  then have "t \<in> set routes" by (auto dest: find_SomeD)
  with Some that assms(1) show ?thesis by (auto simp: mux_def intro: routes_replies)
qed

lemma path_matches_Cons [simp]:
  "path_matches (p # ps) xs \<longleftrightarrow> (\<exists>y ys. xs = y # ys \<and> seg_matches p y \<and> path_matches ps ys)"
  "path_matches [] xs \<longleftrightarrow> xs = []"
  by (auto simp: path_matches_def list_all2_Cons1)

text \<open>Two patterns that some path satisfies both.\<close>

fun overlap :: "pat list \<Rightarrow> pat list \<Rightarrow> bool" where
  "overlap [] [] = True"
| "overlap (p # ps) (q # qs) = ((p = Wild \<or> q = Wild \<or> p = q) \<and> overlap ps qs)"
| "overlap _ _ = False"

lemma path_matches_overlap: "path_matches ps xs \<Longrightarrow> path_matches qs xs \<Longrightarrow> overlap ps qs"
proof (induction ps qs arbitrary: xs rule: overlap.induct)
  case (2 p ps q qs)
  then show ?case by (cases p; cases q) auto
qed auto

lemma routes_disjoint:
  "sorted_wrt (\<lambda>t u. \<not> (verb t = verb u \<and> overlap (pats t) (pats u))) routes"
  by (simp add: routes_def)

lemma route_verbs: "t \<in> set routes \<Longrightarrow> verb t = ''GET'' \<or> verb t = ''POST''"
  by (auto simp: routes_def)

text \<open>
  Routing is unambiguous: no request matches two routes of the table, so which handler runs does not
  depend on the order of registration, and \<open>POST /jobs/claim\<close> is never taken for a job id.
\<close>

lemma routes_unambiguous:
  assumes "i < length routes" "k < length routes"
    "route_matches r (routes ! i)" "route_matches r (routes ! k)"
  shows "i = k"
proof -
  have "verb (routes ! i) = verb (routes ! k)"
    using assms route_verbs [of "routes ! i"] route_verbs [of "routes ! k"]
    by (auto simp: route_matches_def verb_matches_def)
  moreover have "overlap (pats (routes ! i)) (pats (routes ! k))" "overlap (pats (routes ! k)) (pats (routes ! i))"
    using assms(3,4) path_matches_overlap by (auto simp: route_matches_def)
  moreover have "\<not> (verb (routes ! a) = verb (routes ! b) \<and> overlap (pats (routes ! a)) (pats (routes ! b)))"
    if "a < b" "b < length routes" for a b
    using sorted_wrt_nth_less [OF routes_disjoint that] .
  ultimately show ?thesis using assms(1,2) by (metis nat_neq_iff)
qed

lemma routes_unambiguous_witness:
  "route_matches \<lparr>http_method = ''POST'', segs = [''jobs'', ''claim''], query = (\<lambda>_. []), authorization = [],
     body = \<lparr>scanned = ScanEOF, need = 0, rest = [], fit_msg = []\<rparr>, body_limit = 0, PathValue = []\<rparr>
     (routes ! 4) \<and> (4::nat) = 4"
  (is "route_matches ?r _ \<and> _")
proof -
  have m: "route_matches ?r (routes ! 4)" by (simp add: routes_def route_matches_def verb_matches_def)
  with routes_unambiguous [of 4 4 ?r] show ?thesis by (simp add: routes_def)
qed

section \<open>Every request gets one JSON reply\<close>

text \<open>The state after a request, and its reply.\<close>

definition serve :: "Server \<Rightarrow> session \<Rightarrow> Request \<Rightarrow> db \<Rightarrow> world" where
  "serve sv s r d = (case ServeHTTP sv s r (fresh d) of Returned w \<Rightarrow> w | Panicked w \<Rightarrow> w)"

definition serves_with :: "world \<Rightarrow> nat \<Rightarrow> payload \<Rightarrow> bool" where
  "serves_with w st v \<longleftrightarrow>
     sent w = Some st \<and> wire_ctype w = ''application/json'' \<and> chunks w = [Json v]"

lemma auth_replies:
  assumes "unanswered w" "substituted w = None"
  obtains w' where "auth tok (jsonErrors (mux sv s)) r w = Returned w'" "replies s w w'"
proof -
  let ?w = "w\<lparr>substituted := Some False\<rparr>"
  have "unanswered ?w" using assms(1) by (simp add: unanswered_def)
  then obtain w' where w': "mux sv s r ?w = Returned w'" "replies s ?w w'"
    by (rule mux_replies) auto
  then have "jsonErrors (mux sv s) r w = Returned (w'\<lparr>substituted := None\<rparr>)"
    "replies s w (w'\<lparr>substituted := None\<rparr>)"
    by (auto simp: jsonErrors_def replies_def answered_def)
  moreover have "replies s w (writeError 401 code msg w)" for code msg
    using assms(1) by (auto intro!: replies_writeError guar_refl)
  ultimately show ?thesis using that unfolding auth_def by metis
qed

lemma ServeHTTP_replies:
  obtains w' st v where "serve sv s r d = w'" "serves_with w' st v"
    "st = 400 \<Longrightarrow> tables w' = d" "session_ok s \<Longrightarrow> db_inv d \<Longrightarrow> guar d (tables w')"
    "last (slog w') = Access (access_level r st) (http_method r) (url_path r) st"
    "ServeHTTP sv s r (fresh d) = Returned w'"
proof -
  let ?w = "fresh d\<lparr>recorder := Some (200, False)\<rparr>"
    and ?r = "r\<lparr>body_limit := nat (MaxRequestBytes (cfg sv))\<rparr>"
  have "unanswered ?w" "substituted ?w = None" by (simp_all add: unanswered_def fresh_def)
  from auth_replies [OF this] obtain w1 where
    w1: "auth (AuthToken (cfg sv)) (jsonErrors (mux sv s)) ?r ?w = Returned w1" "replies s ?w w1"
    by blast
  from w1(2) obtain st v where a: "answered w1 st v" "st = 400 \<longrightarrow> tables w1 = d"
    "session_ok s \<longrightarrow> db_inv d \<longrightarrow> guar d (tables w1)"
    by (auto simp: replies_def fresh_def)
  let ?w' = "w1\<lparr>recorder := None,
    slog := slog w1 @ [Access (access_level r st) (http_method r) (url_path r) st]\<rparr>"
  have run: "ServeHTTP sv s r (fresh d) = Returned ?w'"
    using w1(1) a(1)
    by (simp add: ServeHTTP_def chain_def recovery_def logging_def maxBody_def answered_def)
  then have "serve sv s r d = ?w'" by (simp add: serve_def)
  with a run that [of ?w' st v] show ?thesis by (auto simp: serves_with_def answered_def)
qed


definition get_stats :: Request where
  "get_stats = \<lparr>http_method = ''GET'', segs = [''stats''], query = (\<lambda>_. []), authorization = [],
     body = \<lparr>scanned = ScanEOF, need = 0, rest = [], fit_msg = []\<rparr>, body_limit = 0, PathValue = []\<rparr>"

definition demo_server :: Server where
  "demo_server = \<lparr>cfg = DefaultConfig, backoff = DefaultBackoff, conv = (\<lambda>_. - (2 ^ 63))\<rparr>"


text \<open>So serving a request is one more method that keeps the store's contract.\<close>

definition http_call :: "Server \<Rightarrow> Request \<Rightarrow> session \<Rightarrow> db \<Rightarrow> (nat option \<times> chunk list) \<times> db" where
  "http_call sv r s d =
     (let w = serve sv s r d in ((sent w, chunks w), tables w))"

interpretation mHTTP: store_method "http_call sv r" for sv r
proof
  fix s d assume "session_ok s" "db_inv d"
  then show "guar d (snd (http_call sv r s d))"
    by (rule_tac ServeHTTP_replies [of sv s r d]) (auto simp: http_call_def)
qed

section \<open>Panics\<close>

text \<open>
  A handler that panics before writing still yields one JSON reply, 500, and the process goes on. But
  the panic passes through \<open>logging\<close> on its way to \<open>recovery\<close>, so such a request has no line in the access log.
\<close>

lemma panic_gives_500_without_access_line:
  assumes "\<And>r w. h r w = Panicked w"
  shows "\<exists>w'. chain c h r (fresh d) = Returned w' \<and>
     (AuthToken c = [] \<longrightarrow>
        serves_with w' 500 (ErrorBody ''internal server error'' CodeInternal) \<and> tables w' = d \<and>
        slog w' = [Event LevelError ''panic in handler''])"
  using assms
  by (auto simp: chain_def recovery_def logging_def maxBody_def auth_def jsonErrors_def fresh_def
      writer_defs log_event_def serves_with_def Let_def)

section \<open>Authentication\<close>

lemma TrimPrefix_eq_iff:
  "TrimPrefix a p = t \<longleftrightarrow> a = p @ t \<or> a = t \<and> \<not> HasPrefix t p"
proof (cases "HasPrefix a p")
  case True
  then have "a = p @ drop (length p) a"
    unfolding HasPrefix_def starts_with_def by (metis append_take_drop_id)
  with True show ?thesis by (auto simp: TrimPrefix_def)
next
  case False
  then show ?thesis by (auto simp: TrimPrefix_def HasPrefix_def starts_with_def)
qed

lemma answered_serves: "answered w st v \<Longrightarrow> serves_with w st v"
  by (simp add: answered_def serves_with_def)

text \<open>
  C18. With a token configured, a request to any path but the health check whose Authorization header is
  neither \<open>Bearer <token>\<close> nor the bare token is answered 401 and has no effect on the tables: no handler runs.
\<close>

theorem auth_required:
  assumes "AuthToken (cfg sv) \<noteq> []" "url_path r \<noteq> ''/healthz''"
    "authorization r \<noteq> ''Bearer '' @ AuthToken (cfg sv)" "authorization r \<noteq> AuthToken (cfg sv)"
  shows "serves_with (serve sv s r d) 401
      (ErrorBody ''invalid or missing bearer token'' CodeUnauthorized) \<and>
    tables (serve sv s r d) = d"
proof -
  have "TrimPrefix (authorization r) ''Bearer '' \<noteq> AuthToken (cfg sv)"
    using assms(3,4) unfolding TrimPrefix_eq_iff by blast
  with assms(1,2) show ?thesis
    by (auto simp: serve_def ServeHTTP_def chain_def recovery_def logging_def maxBody_def auth_def
        url_path_def fresh_def writeError_def writeJSON_def writer_defs serves_with_def Let_def)
qed

theorem auth_required_witness:
  "tables (serve (demo_server\<lparr>cfg := DefaultConfig\<lparr>AuthToken := ''s3''\<rparr>\<rparr>) (quiet 5) get_stats demo_db) = demo_db"
  using auth_required [of "demo_server\<lparr>cfg := DefaultConfig\<lparr>AuthToken := ''s3''\<rparr>\<rparr>" get_stats "quiet 5" demo_db]
  by (simp add: get_stats_def url_path_def)

text \<open>
  The scheme word is optional: the header that is just the token passes, although the configuration and the
  error message ask for a bearer token.
\<close>

lemma auth_accepts_bare_token:
  "auth ''s3'' h (get_stats\<lparr>authorization := ''s3''\<rparr>) w = h (get_stats\<lparr>authorization := ''s3''\<rparr>) w"
  by (simp add: auth_def TrimPrefix_def HasPrefix_def starts_with_def)

section \<open>The lease clamp\<close>

lemma clampLease_exact:
  assumes "0 < k" "MinLease (cfg sv) \<le> k * Second" "k * Second \<le> MaxLease (cfg sv)"
    "MaxLease (cfg sv) < 2 ^ 53"
  shows "clampLease sv (of_int k) = k * Second"
proof -
  have pos: "0 < k * Second" using assms(1) by (simp add: Second_def)
  have "of_int k * of_int Second = (of_int (k * Second) :: rat)" by simp
  moreover have "round64 (of_int (k * Second)) = of_int (k * Second)"
    using assms pos by (intro round64_int) auto
  moreover have "to_int64 (conv sv) (of_int (k * Second)) = k * Second"
    using assms pos by (intro to_int64_int) auto
  ultimately have "to_int64 (conv sv) (round64 (of_int k * of_int Second)) = k * Second" by simp
  with assms show ?thesis by (simp add: clampLease_def)
qed



text \<open>
  A request too large for an \<open>int64\<close> of nanoseconds is where the platform decides: where the conversion yields the most
  negative number (amd64), asking for 10^12 seconds gets the shortest lease, not the longest.
\<close>

lemma clampLease_huge_request:
  "clampLease demo_server (10 ^ 12) = 5 * Second"
proof -
  have "round64 (of_int (5 ^ 21 * 2 ^ 21)) = of_int (5 ^ 21 * 2 ^ 21)" by (rule round64_dyadic) simp
  then show ?thesis
    by (simp add: clampLease_def demo_server_def DefaultConfig_def Second_def to_int64_def trunc_def)
qed

end
