(* ===== verification/Worker_Exec.thy ===== *)
theory Worker_Exec
  imports Store
begin

text \<open>
  The shell executor (\<open>internal/worker/executor.go\<close>): the output buffer that keeps a bounded prefix and
  counts the rest, and \<open>ExecuteShell\<close> over what the operating system did with the command.
\<close>

section \<open>The bounded buffer\<close>

record boundedBuffer =
  buf :: string
  total :: int
  Limit :: int

definition bb_new :: "int \<Rightarrow> boundedBuffer" where
  "bb_new limit = \<lparr>buf = [], total = 0, Limit = limit\<rparr>"

text \<open>\<open>Write\<close> returns the count it reports and the buffer.\<close>

definition bb_Write :: "string \<Rightarrow> boundedBuffer \<Rightarrow> int \<times> boundedBuffer" where
  "bb_Write p b =
     (let b1 = b\<lparr>total := wrap64 (total b + int (length p))\<rparr>;
          room = Limit b1 - int (length (buf b1))
      in (int (length p),
          if room > 0
          then b1\<lparr>buf := buf b1 @ take (nat (if room > int (length p) then int (length p) else room)) p\<rparr>
          else b1))"

definition bb_String :: "boundedBuffer \<Rightarrow> string" where
  "bb_String b =
     (if total b > int (length (buf b))
      then buf b @ CHR 0x0A # ''...[truncated, '' @ FormatInt (total b) @ '' bytes total]''
      else buf b)"

fun bb_writes :: "string list \<Rightarrow> boundedBuffer \<Rightarrow> boundedBuffer" where
  "bb_writes [] b = b"
| "bb_writes (p # ps) b = bb_writes ps (snd (bb_Write p b))"

section \<open>ExecuteShell\<close>

record ExecResult =
  ExStdout :: string
  ExStderr :: string
  ExExitCode :: "int option"
  ExDuration :: duration

text \<open>\<open>Duration.Milliseconds\<close> truncates toward zero.\<close>

definition exec_DurationMS :: "ExecResult \<Rightarrow> int" where
  "exec_DurationMS r = sgn (ExDuration r) * (\<bar>ExDuration r\<bar> div 1000000)"

definition MaxOutputBytes :: int where
  "MaxOutputBytes = 32 * 1024"

text \<open>
  What the system did with \<open>sh -c payload\<close> under a timeout: the writes to each pipe, how \<open>cmd.Run\<close> ended (fine, an
  \<open>ExitError\<close> with its code, another error), whether the command's context hit its deadline, and the time taken.
\<close>

datatype run_end = RunOk | RunExit int | RunError string

record process =
  out_writes :: "string list"
  err_writes :: "string list"
  run_end :: run_end
  deadline_hit :: bool
  elapsed :: duration

type_synonym shell = "string \<Rightarrow> duration \<Rightarrow> process"

definition ErrTimeout :: string where
  "ErrTimeout = ''job execution timed out''"

definition ExecuteShell :: "shell \<Rightarrow> string \<Rightarrow> duration \<Rightarrow> ExecResult \<times> string option" where
  "ExecuteShell sh payload timeout0 =
     (let timeout = (if timeout0 \<le> 0 then 5 * Minute else timeout0);
          p = sh payload timeout;
          res = \<lparr>ExStdout = bb_String (bb_writes (out_writes p) (bb_new MaxOutputBytes)),
                 ExStderr = bb_String (bb_writes (err_writes p) (bb_new MaxOutputBytes)),
                 ExExitCode = None, ExDuration = elapsed p\<rparr>
      in if deadline_hit p
         then (res, Some (ErrTimeout @ '' after '' @ Duration_String timeout))
         else case run_end p of
           RunOk \<Rightarrow> (res\<lparr>ExExitCode := Some 0\<rparr>, None)
         | RunExit code \<Rightarrow>
             (res\<lparr>ExExitCode := Some code\<rparr>, Some (''command exited with status '' @ FormatInt code))
         | RunError m \<Rightarrow> (res, Some (''failed to start command: '' @ m)))"

section \<open>Facts\<close>

definition bb_ok :: "boundedBuffer \<Rightarrow> string \<Rightarrow> bool" where
  "bb_ok b out \<longleftrightarrow> 0 \<le> Limit b \<and> buf b = take (nat (Limit b)) out \<and> total b = int (length out)"

lemma Limit_bb_Write [simp]: "Limit (snd (bb_Write p b)) = Limit b"
  by (simp add: bb_Write_def Let_def)

lemma bb_Write_ok:
  assumes "bb_ok b out" "int (length (out @ p)) < 2 ^ 63"
  shows "bb_ok (snd (bb_Write p b)) (out @ p)"
proof -
  have t: "wrap64 (total b + int (length p)) = int (length (out @ p))"
    using assms by (subst wrap64_id) (auto simp: bb_ok_def int64_ok_def)
  have "buf (snd (bb_Write p b)) = take (nat (Limit b)) (out @ p)"
  proof (cases "Limit b - int (length (buf b)) > 0")
    case True
    then have l: "length out < nat (Limit b)" "buf b = out"
      using assms(1) by (auto simp: bb_ok_def)
    have r: "nat (Limit b - int (length out)) = nat (Limit b) - length out" by simp
    show ?thesis
    proof (cases "int (length p) < Limit b - int (length out)")
      case True
      then have "length p \<le> nat (Limit b) - length out" by simp
      with True l show ?thesis by (simp add: bb_Write_def Let_def)
    next
      case False
      with l r show ?thesis by (simp add: bb_Write_def Let_def)
    qed
  next
    case False
    then have "nat (Limit b) \<le> length out"
      using assms(1) by (auto simp: bb_ok_def)
    with False assms(1) show ?thesis by (simp add: bb_Write_def Let_def bb_ok_def)
  qed
  with assms(1) t show ?thesis by (auto simp: bb_ok_def bb_Write_def Let_def)
qed

lemma bb_writes_ok:
  "bb_ok b out \<Longrightarrow> int (length (out @ concat ps)) < 2 ^ 63 \<Longrightarrow> bb_ok (bb_writes ps b) (out @ concat ps)"
proof (induction ps arbitrary: b out)
  case (Cons p ps)
  from Cons.prems have "bb_ok (snd (bb_Write p b)) (out @ p)" by (intro bb_Write_ok) auto
  from Cons.IH [OF this] Cons.prems(2) show ?case by simp
qed simp

lemma bb_String_ok:
  "bb_ok b out \<Longrightarrow>
   bb_String b = (if int (length out) \<le> Limit b then out
     else take (nat (Limit b)) out @
          CHR 0x0A # ''...[truncated, '' @ FormatInt (int (length out)) @ '' bytes total]'')"
  by (auto simp: bb_ok_def bb_String_def)

text \<open>
  C28. The output buffer, however the command splits its output into writes: every write reports all its bytes as
  taken (so the command never sees a short write), the memory kept never exceeds the limit, and the text is the whole output or
  its first 32 KiB followed by a note with the exact number of bytes produced.
\<close>

theorem output_buffer_correct:
  assumes "int (length (concat ps)) < 2 ^ 63"
  shows "fst (bb_Write p b) = int (length p) \<and>
    length (buf (bb_writes ps (bb_new MaxOutputBytes))) \<le> 32768 \<and>
    bb_String (bb_writes ps (bb_new MaxOutputBytes)) =
      (if length (concat ps) \<le> 32768 then concat ps
       else take 32768 (concat ps) @ CHR 0x0A # ''...[truncated, '' @
              FormatInt (int (length (concat ps))) @ '' bytes total]'')"
proof -
  have "bb_ok (bb_new MaxOutputBytes) []" by (simp add: bb_ok_def bb_new_def MaxOutputBytes_def)
  from bb_writes_ok [OF this, of ps] assms
  have ok: "bb_ok (bb_writes ps (bb_new MaxOutputBytes)) (concat ps)" by simp
  have lim: "Limit (bb_writes ps b) = Limit b" for b by (induction ps arbitrary: b) simp_all
  have lim': "Limit (bb_writes ps (bb_new MaxOutputBytes)) = 32768"
    by (simp add: lim bb_new_def MaxOutputBytes_def)
  then show ?thesis
    using ok bb_String_ok [OF ok] by (auto simp: bb_ok_def bb_Write_def Let_def)
qed

theorem output_buffer_correct_witness:
  "bb_String (bb_writes [''hel'', ''lo''] (bb_new MaxOutputBytes)) = ''hello''"
  using output_buffer_correct [of "[''hel'', ''lo'']"] by simp

text \<open>
  An execution is reported as a success exactly when the command exited zero before its deadline; the exit
  code is recorded whenever the process ran to an exit, and a timeout is reported as a timeout whatever else happened.
\<close>

lemma ExecuteShell_outcome:
  "case ExecuteShell sh payload timeout of (res, err) \<Rightarrow>
     let p = sh payload (if timeout \<le> 0 then 5 * Minute else timeout) in
     (err = None \<longleftrightarrow> \<not> deadline_hit p \<and> run_end p = RunOk) \<and>
     (err = None \<longrightarrow> ExExitCode res = Some 0) \<and>
     (\<not> deadline_hit p \<and> run_end p = RunExit code \<longrightarrow>
        ExExitCode res = Some code \<and> err = Some (''command exited with status '' @ FormatInt code)) \<and>
     (deadline_hit p \<longrightarrow> ExExitCode res = None \<and>
        (\<exists>t. err = Some (ErrTimeout @ '' after '' @ t)))"
  by (auto simp: ExecuteShell_def Let_def split: run_end.split)

lemma ExecuteShell_outcome_witness:
  "snd (ExecuteShell (\<lambda>_ _. \<lparr>out_writes = [''x''], err_writes = [], run_end = RunExit 3,
     deadline_hit = False, elapsed = 5\<rparr>) ''exit 3'' 0) = Some ''command exited with status 3''"
proof -
  have "FormatInt 3 = ''3''" by code_simp
  with ExecuteShell_outcome [of "\<lambda>_ _. \<lparr>out_writes = [''x''], err_writes = [], run_end = RunExit 3,
     deadline_hit = False, elapsed = 5\<rparr>" "''exit 3''" 0 3]
  show ?thesis by (simp split: prod.splits)
qed

text \<open>
  The note with the exact count does not reach the tables: the server caps the worker's text again at
  the same 32 KiB, which cuts the note off and puts its own, count-less one in its place.
\<close>

lemma worker_note_lost:
  assumes "32768 < length (concat ps)" "int (length (concat ps)) < 2 ^ 63"
  shows "TruncateOutput (bb_String (bb_writes ps (bb_new MaxOutputBytes))) =
    take 32768 (concat ps) @ CHR 0x0A # ''...[truncated]''"
proof -
  have "bb_ok (bb_new MaxOutputBytes) []" by (simp add: bb_ok_def bb_new_def MaxOutputBytes_def)
  from bb_writes_ok [OF this, of ps] assms(2)
  have ok: "bb_ok (bb_writes ps (bb_new MaxOutputBytes)) (concat ps)" by simp
  have "Limit (bb_writes ps b) = Limit b" for b by (induction ps arbitrary: b) simp_all
  then have "Limit (bb_writes ps (bb_new MaxOutputBytes)) = 32768"
    by (simp add: bb_new_def MaxOutputBytes_def)
  with bb_String_ok [OF ok] assms(1) show ?thesis by (simp add: TruncateOutput_def MaxResultBytes_def)
qed

end
