(* ===== verification/Worker_Client.thy ===== *)
theory Worker_Client
  imports Api_Serve Worker_Exec
begin

text \<open>
  The worker's HTTP client (\<open>internal/worker/client.go\<close>): how a call becomes a request, how a reply becomes a result or one
  of the errors the worker loop tells apart. The network is a parameter, a function from
  requests to replies over a state of its own; \<open>server_net\<close> is the network that leads straight to
  the server of \<open>Api_Server\<close>.
\<close>

section \<open>What JSON text costs\<close>

text \<open>
  The bytes \<open>json.Marshal\<close> writes for the characters of a string: two for the short escapes, six for
  other control characters, for the HTML characters, for U+2028 and U+2029 and for every byte that is not part of a rune.
\<close>

definition esc_ascii :: "char \<Rightarrow> nat" where
  "esc_ascii c =
     (let n = (of_char c :: nat) in
      if n \<in> {34, 92, 8, 9, 10, 12, 13} then 2
      else if n < 32 \<or> n \<in> {38, 60, 62} then 6 else 1)"

function esc_len :: "string \<Rightarrow> nat" where
  "esc_len [] = 0"
| "esc_len (c # cs) =
     (if rune_len (c # cs) = 0 then 6 + esc_len cs
      else if rune_len (c # cs) = 1 then esc_ascii c + esc_len cs
      else (if take 2 (c # cs) = [CHR 0xE2, CHR 0x80] \<and>
               (take 3 (c # cs) = [CHR 0xE2, CHR 0x80, CHR 0xA8] \<or>
                take 3 (c # cs) = [CHR 0xE2, CHR 0x80, CHR 0xA9]) then 6 else rune_len (c # cs))
           + esc_len (drop (rune_len (c # cs)) (c # cs)))"
  by pat_completeness auto

termination esc_len
  by (relation "measure length") auto

declare esc_len.simps(2) [simp del]

section \<open>Requests\<close>

record Client =
  BaseURL :: string
  Token :: string

text \<open>What the libraries under the client contribute: the text of a decimal literal, and of an encoded value.\<close>

record codec =
  dec_len :: "rat \<Rightarrow> nat"
  raw_text :: "chunk \<Rightarrow> string"

fun value_len :: "codec \<Rightarrow> json \<Rightarrow> nat" where
  "value_len k (JStr s) = 2 + esc_len s"
| "value_len k (JInt n) = length (FormatInt n)"
| "value_len k (JDec q) = dec_len k q"
| "value_len k _ = 4"

text \<open>\<open>json.Marshal\<close> of a map with string keys.\<close>

definition object_len :: "codec \<Rightarrow> (string \<times> json) list \<Rightarrow> nat" where
  "object_len k kvs =
     1 + sum_list (map (\<lambda>(n, v). esc_len n + 3 + value_len k v) kvs) + (length kvs - 1) + 1"

text \<open>Strings travel as JSON, so the other side sees them with invalid bytes replaced.\<close>

definition jstr :: "string \<Rightarrow> json" where
  "jstr s = JStr (to_valid s)"

definition jint_ptr :: "int option \<Rightarrow> json" where
  "jint_ptr p = (case p of None \<Rightarrow> JNull | Some n \<Rightarrow> JInt n)"

text \<open>\<open>Duration.Seconds\<close>, and the literal of a float.\<close>

definition duration_Seconds :: "duration \<Rightarrow> rat" where
  "duration_Seconds d =
     (let sec = sgn d * (\<bar>d\<bar> div Second); nsec = d - sec * Second
      in round64 (of_int sec + round64 (of_int nsec / of_int Second)))"

definition jfloat :: "rat \<Rightarrow> json" where
  "jfloat x = (if x = of_int \<lfloor>x\<rfloor> then JInt \<lfloor>x\<rfloor> else JDec x)"

text \<open>The path of a URL, cut into decoded segments (\<open>net/url\<close>): None where \<open>url.Parse\<close> refuses it (a control byte, a malformed escape).\<close>

fun split_on :: "char \<Rightarrow> string \<Rightarrow> string list" where
  "split_on d [] = [[]]"
| "split_on d (c # cs) =
     (if c = d then [] # split_on d cs
      else case split_on d cs of [] \<Rightarrow> [[c]] | x # xs \<Rightarrow> (c # x) # xs)"

definition hex_val :: "char \<Rightarrow> nat option" where
  "hex_val c =
     (let n = (of_char c :: nat) in
      if 48 \<le> n \<and> n \<le> 57 then Some (n - 48)
      else if 97 \<le> n \<and> n \<le> 102 then Some (n - 87)
      else if 65 \<le> n \<and> n \<le> 70 then Some (n - 55) else None)"

fun unescape :: "string \<Rightarrow> string option" where
  "unescape [] = Some []"
| "unescape (c # cs) =
     (if c = CHR ''%'' then
        (case cs of a # b # r \<Rightarrow>
           (case (hex_val a, hex_val b) of
              (Some x, Some y) \<Rightarrow> map_option (\<lambda>t. char_of (16 * x + y) # t) (unescape r)
            | _ \<Rightarrow> None)
         | _ \<Rightarrow> None)
      else map_option (\<lambda>t. c # t) (unescape cs))"

definition ctl_byte :: "char \<Rightarrow> bool" where
  "ctl_byte c \<longleftrightarrow> (of_char c :: nat) < 0x20 \<or> (of_char c :: nat) = 0x7F"

definition url_segs :: "string \<Rightarrow> string list option" where
  "url_segs path =
     (if list_ex ctl_byte path then None
      else those (map unescape
        (split_on (CHR ''/'') (drop 1 (takeWhile (\<lambda>c. c \<noteq> CHR ''?'' \<and> c \<noteq> CHR ''#'') path)))))"

text \<open>
  \<open>url.ParseQuery\<close> and \<open>Get\<close>: the first value of a key; pairs with a semicolon or a malformed escape are dropped.
\<close>

definition query_pair :: "string \<Rightarrow> (string \<times> string) option" where
  "query_pair f =
     (if f = [] \<or> CHR '';'' \<in> set f then None
      else let un = (\<lambda>s. unescape (map (\<lambda>c. if c = CHR ''+'' then CHR '' '' else c) s)) in
           case (un (takeWhile (\<lambda>c. c \<noteq> CHR ''='') f), un (drop 1 (dropWhile (\<lambda>c. c \<noteq> CHR ''='') f))) of
             (Some a, Some b) \<Rightarrow> Some (a, b)
           | _ \<Rightarrow> None)"

definition query_of :: "string \<Rightarrow> string \<Rightarrow> string" where
  "query_of path key =
     (let q = drop 1 (dropWhile (\<lambda>c. c \<noteq> CHR ''?'') (takeWhile (\<lambda>c. c \<noteq> CHR ''#'') path))
      in case find (\<lambda>kv. fst kv = key) (List.map_filter query_pair (split_on (CHR ''&'') q)) of
           None \<Rightarrow> [] | Some kv \<Rightarrow> snd kv)"

definition build_request ::
  "Client \<Rightarrow> codec \<Rightarrow> string \<Rightarrow> string list \<Rightarrow> (string \<times> json) list option \<Rightarrow> Request" where
  "build_request c k meth sg bdy =
     \<lparr>http_method = meth, segs = sg, query = (\<lambda>_. []),
      authorization = (if Token c \<noteq> [] then ''Bearer '' @ Token c else []),
      body = (case bdy of
        None \<Rightarrow> \<lparr>scanned = ScanEOF, need = 0, rest = [], fit_msg = []\<rparr>
      | Some kvs \<Rightarrow> \<lparr>scanned = ScanValue (JObj kvs), need = object_len k kvs, rest = [], fit_msg = []\<rparr>),
      body_limit = 0, PathValue = []\<rparr>"

section \<open>Replies\<close>

text \<open>
  A reply carries one of the server's payloads. Where a caller decodes the payload of its endpoint and the reply carries another one,
  which the server never sends there, the model reports a decoding failure.
\<close>

datatype client_error =
  CErrNoJobs | CErrUnknownWorker | CAPIError nat string string | CErrOther string

datatype wire = NoReply string | Reply nat chunk

type_synonym 'st net = "Request \<Rightarrow> 'st \<Rightarrow> wire \<times> 'st"

text \<open>The error object of a reply, as far as 8 KiB of it can be parsed: message and code.\<close>

definition error_fields :: "codec \<Rightarrow> chunk \<Rightarrow> string \<times> string" where
  "error_fields k ch =
     (case ch of
        Json (ErrorBody msg code) \<Rightarrow> if length (raw_text k ch) \<le> 8 * 1024 then (msg, code) else ([], [])
      | _ \<Rightarrow> ([], []))"

definition classify :: "codec \<Rightarrow> nat \<Rightarrow> chunk \<Rightarrow> client_error" where
  "classify k st ch =
     (case error_fields k ch of (err, code) \<Rightarrow>
        if code = ''no_jobs_available'' then CErrNoJobs
        else if code = ''not_found'' \<and> err = ''unknown worker: register first'' then CErrUnknownWorker
        else CAPIError st code
               (if err = [] then TrimSpace (take (8 * 1024) (raw_text k ch)) else err))"

definition client_do ::
  "Client \<Rightarrow> codec \<Rightarrow> 'st net \<Rightarrow> string \<Rightarrow> string \<Rightarrow> (string \<times> json) list option \<Rightarrow> 'st \<Rightarrow>
   (client_error + chunk) \<times> 'st" where
  "client_do c k net meth path bdy st =
     (case url_segs path of
        None \<Rightarrow> (Inl (CErrOther ''build request''), st)
      | Some sg \<Rightarrow>
          (case net (build_request c k meth sg bdy) st of
             (NoReply m, st') \<Rightarrow> (Inl (CErrOther (meth @ '' '' @ path @ '': '' @ m)), st')
           | (Reply code ch, st') \<Rightarrow>
               if code \<ge> 300 then (Inl (classify k code ch), st') else (Inr ch, st')))"

section \<open>The calls\<close>

definition client_Register ::
  "Client \<Rightarrow> codec \<Rightarrow> 'st net \<Rightarrow> worker_id \<Rightarrow> string \<Rightarrow> 'st \<Rightarrow> (client_error + chunk) \<times> 'st" where
  "client_Register c k net w host =
     client_do c k net ''POST'' ''/workers/register'' (Some [(''hostname'', jstr host), (''worker_id'', jstr w)])"

definition client_Heartbeat ::
  "Client \<Rightarrow> codec \<Rightarrow> 'st net \<Rightarrow> worker_id \<Rightarrow> 'st \<Rightarrow> (client_error + chunk) \<times> 'st" where
  "client_Heartbeat c k net w =
     client_do c k net ''POST'' (''/workers/'' @ w @ ''/heartbeat'') None"

definition client_Claim ::
  "Client \<Rightarrow> codec \<Rightarrow> 'st net \<Rightarrow> worker_id \<Rightarrow> duration \<Rightarrow> 'st \<Rightarrow> (client_error + Job) \<times> 'st" where
  "client_Claim c k net w lease st =
     (case client_do c k net ''POST'' ''/jobs/claim''
             (Some [(''lease_seconds'', jfloat (duration_Seconds lease)), (''worker_id'', jstr w)]) st of
        (Inl e, st') \<Rightarrow> (Inl e, st')
      | (Inr (Json (JobBody j)), st') \<Rightarrow> (Inr j, st')
      | (Inr _, st') \<Rightarrow> (Inl (CErrOther ''decode response''), st'))"

definition job_path :: "job_id \<Rightarrow> string \<Rightarrow> string" where
  "job_path i act = ''/jobs/'' @ FormatInt i @ ''/'' @ act"

definition client_RenewLease ::
  "Client \<Rightarrow> codec \<Rightarrow> 'st net \<Rightarrow> job_id \<Rightarrow> worker_id \<Rightarrow> duration \<Rightarrow> 'st \<Rightarrow>
   (client_error + chunk) \<times> 'st" where
  "client_RenewLease c k net i w lease =
     client_do c k net ''POST'' (job_path i ''lease'')
       (Some [(''lease_seconds'', jfloat (duration_Seconds lease)), (''worker_id'', jstr w)])"

definition client_Complete ::
  "Client \<Rightarrow> codec \<Rightarrow> 'st net \<Rightarrow> job_id \<Rightarrow> worker_id \<Rightarrow> ExecResult \<Rightarrow> 'st \<Rightarrow>
   (client_error + chunk) \<times> 'st" where
  "client_Complete c k net i w r =
     client_do c k net ''POST'' (job_path i ''complete'')
       (Some [(''duration_ms'', JInt (exec_DurationMS r)), (''exit_code'', jint_ptr (ExExitCode r)),
              (''stderr'', jstr (ExStderr r)), (''stdout'', jstr (ExStdout r)), (''worker_id'', jstr w)])"

definition client_Fail ::
  "Client \<Rightarrow> codec \<Rightarrow> 'st net \<Rightarrow> job_id \<Rightarrow> worker_id \<Rightarrow> ExecResult \<Rightarrow> string \<Rightarrow> 'st \<Rightarrow>
   (client_error + chunk) \<times> 'st" where
  "client_Fail c k net i w r cause =
     client_do c k net ''POST'' (job_path i ''fail'')
       (Some [(''duration_ms'', JInt (exec_DurationMS r)), (''error'', jstr cause),
              (''exit_code'', jint_ptr (ExExitCode r)),
              (''stderr'', jstr (ExStderr r)), (''stdout'', jstr (ExStdout r)), (''worker_id'', jstr w)])"

section \<open>The network that leads to the server\<close>

definition server_net :: "Server \<Rightarrow> session \<Rightarrow> db net" where
  "server_net sv s r d =
     (let w = serve sv s r d in
      (case (sent w, chunks w) of
         (Some st, [ch]) \<Rightarrow> Reply st ch
       | _ \<Rightarrow> NoReply ''unexpected EOF'', tables w))"

text \<open>A network on which every request is lost.\<close>

definition dead :: "string \<Rightarrow> 'st net" where
  "dead m r st = (NoReply m, st)"

end
