(* ===== verification/Worker_E2E.thy ===== *)
theory Worker_E2E
  imports Worker_Client
begin

text \<open>
  The worker's calls through the client, the middleware, the router and the handlers down to the store: a
  worker sees exactly the store's verdict.
\<close>

section \<open>Through the server\<close>

definition inner :: "db \<Rightarrow> world" where
  "inner d = (fresh d)\<lparr>recorder := Some (200, False), substituted := Some False\<rparr>"

lemma inner_simps [simp]: "unanswered (inner d)" "tables (inner d) = d"
  by (simp_all add: inner_def fresh_def unanswered_def)

definition trusts :: "Server \<Rightarrow> Request \<Rightarrow> bool" where
  "trusts sv r \<longleftrightarrow>
     AuthToken (cfg sv) = [] \<or> authorization r = ''Bearer '' @ AuthToken (cfg sv)"

text \<open>A request that a route takes is answered by that route's handler.\<close>

lemma server_net_route:
  assumes "trusts sv r" "find (route_matches r) routes = Some t"
    "w = target t sv s (r\<lparr>body_limit := nat (MaxRequestBytes (cfg sv)),
                           PathValue := wild_value (pats t) (segs r)\<rparr>) (inner d)"
    "answered w st v"
  shows "server_net sv s r d = (Reply st (Json v), tables w)"
proof -
  let ?r = "r\<lparr>body_limit := nat (MaxRequestBytes (cfg sv))\<rparr>"
  have "route_matches ?r = route_matches r" by (simp add: route_matches_def fun_eq_iff)
  with assms(2,3) have "mux sv s ?r (inner d) = Returned w" by (simp add: mux_def)
  moreover have "auth (AuthToken (cfg sv)) h ?r = h ?r" for h
    using assms(1) by (auto simp: auth_def trusts_def TrimPrefix_eq_iff fun_eq_iff)
  ultimately have "ServeHTTP sv s r (fresh d) = Returned (w\<lparr>substituted := None, recorder := None,
      slog := slog w @ [Access (access_level r st) (http_method r) (url_path r) st]\<rparr>)"
    using assms(4)
    by (simp add: ServeHTTP_def chain_def recovery_def logging_def maxBody_def jsonErrors_def
        inner_def fresh_def answered_def)
  with assms(4) show ?thesis
    by (simp add: server_net_def serve_def answered_def Let_def)
qed

section \<open>What the client makes of the store's errors\<close>

fun client_view :: "error \<Rightarrow> client_error" where
  "client_view ErrNoJobs = CErrNoJobs"
| "client_view ErrUnknownWorker = CErrUnknownWorker"
| "client_view e = (case store_error_reply e of (st, code, msg) \<Rightarrow> CAPIError st code msg)"

text \<open>The error replies are short: their text fits the 8 KiB the client reads.\<close>

definition short_errors :: "codec \<Rightarrow> bool" where
  "short_errors k \<longleftrightarrow>
     (\<forall>msg code. length msg + length code \<le> 200 \<longrightarrow> length (raw_text k (Json (ErrorBody msg code))) \<le> 8 * 1024)"

lemma short_errorsD:
  "short_errors k \<Longrightarrow> length msg + length code \<le> 200 \<Longrightarrow>
   error_fields k (Json (ErrorBody msg code)) = (msg, code)"
  by (simp add: error_fields_def short_errors_def)

lemma classify_store_error:
  assumes "short_errors k" "store_error_reply e = (st, code, msg)"
  shows "classify k st (Json (ErrorBody msg code)) = client_view e" "300 \<le> st"
proof -
  have "length msg + length code \<le> 200" using assms(2) by (cases e) (auto simp: code_defs)
  with assms(1) have f: "error_fields k (Json (ErrorBody msg code)) = (msg, code)" by (rule short_errorsD)
  show "classify k st (Json (ErrorBody msg code)) = client_view e"
    unfolding classify_def f using assms(2) by (cases e) (auto simp: code_defs)
  show "300 \<le> st" using store_error_status [OF assms(2)] by auto
qed

lemma store_error_text:
  "store_error_reply e = (st, code, msg) \<Longrightarrow> msg \<noteq> [] \<and> length msg + length code \<le> 200 \<and> 300 \<le> st"
  using store_error_status [of e st code msg] by (cases e) (auto simp: code_defs)

section \<open>A handler that ends with a store call\<close>

text \<open>The reply tells the outcome of the store call, and the tables are those the call left.\<close>

definition tells :: "world \<Rightarrow> (error + Job) \<times> db \<Rightarrow> bool" where
  "tells w res \<longleftrightarrow>
     (\<exists>st v. answered w st v \<and> tables w = snd res \<and>
        (case fst res of
           Inl e \<Rightarrow> (\<exists>code msg. store_error_reply e = (st, code, msg) \<and> v = ErrorBody msg code)
         | Inr j \<Rightarrow> st = 200 \<and> v = JobBody j))"

definition client_result :: "(error + Job) \<times> db \<Rightarrow> (client_error + chunk) \<times> db" where
  "client_result res =
     (case res of (Inl e, d) \<Rightarrow> (Inl (client_view e), d) | (Inr j, d) \<Rightarrow> (Inr (Json (JobBody j)), d))"

lemma store_call_tells:
  assumes "unanswered w" "\<And>j w'. unanswered w' \<Longrightarrow> unanswered (lg j w')" "\<And>j w'. tables (lg j w') = tables w'"
  shows "tells (case res of (Inl e, d') \<Rightarrow> writeStoreError e (w\<lparr>tables := d'\<rparr>)
    | (Inr j, d') \<Rightarrow> writeJSON 200 (JobBody j) (lg j (w\<lparr>tables := d'\<rparr>))) res"
proof (cases res)
  case (Pair y d')
  show ?thesis
  proof (cases y)
    case (Inl e)
    obtain st code msg where m: "store_error_reply e = (st, code, msg)" by (cases "store_error_reply e")
    have "answered (writeStoreError e (w\<lparr>tables := d'\<rparr>)) st (ErrorBody msg code)"
      using assms(1) m by (intro writeStoreError_answers) auto
    with m Inl Pair show ?thesis by (auto simp: tells_def)
  next
    case (Inr j)
    have "answered (writeJSON 200 (JobBody j) (lg j (w\<lparr>tables := d'\<rparr>))) 200 (JobBody j)"
      using assms(1,2) by (intro writeJSON_answers) auto
    with Inr Pair assms(3) show ?thesis by (auto simp: tells_def)
  qed
qed

lemma build_request_simps [simp]:
  "http_method (build_request c k m sg b) = m" "segs (build_request c k m sg b) = sg"
  by (simp_all add: build_request_def)

lemma client_do_tells:
  assumes "Token c = AuthToken (cfg sv)" "short_errors k" "url_segs path = Some sg"
    "find (route_matches (build_request c k meth sg bdy)) routes = Some t"
    "tells (target t sv s ((build_request c k meth sg bdy)\<lparr>
        body_limit := nat (MaxRequestBytes (cfg sv)), PathValue := wild_value (pats t) sg\<rparr>) (inner d)) res"
  shows "client_do c k (server_net sv s) meth path bdy d = client_result res"
proof -
  let ?r = "build_request c k meth sg bdy"
  let ?w = "target t sv s (?r\<lparr>body_limit := nat (MaxRequestBytes (cfg sv)),
                              PathValue := wild_value (pats t) (segs ?r)\<rparr>) (inner d)"
  obtain st v where a: "answered ?w st v" "tables ?w = snd res"
    "case fst res of
       Inl e \<Rightarrow> (\<exists>code msg. store_error_reply e = (st, code, msg) \<and> v = ErrorBody msg code)
     | Inr j \<Rightarrow> st = 200 \<and> v = JobBody j"
    using assms(5) by (auto simp: tells_def)
  have "trusts sv ?r" using assms(1) by (simp add: trusts_def build_request_def)
  from server_net_route [OF this assms(4) refl a(1)]
  have "server_net sv s ?r d = (Reply st (Json v), snd res)" using a(2) by simp
  with a(3) classify_store_error [OF assms(2)] assms(3) show ?thesis
    by (auto simp: client_do_def client_result_def split: prod.splits sum.splits)
qed

section \<open>Claim\<close>

lemma duration_Seconds_whole:
  assumes "0 < n" "n < 2 ^ 53"
  shows "duration_Seconds (n * Second) = of_int n"
proof -
  have "sgn (n * Second) * (\<bar>n * Second\<bar> div Second) = n"
    using assms(1) by (simp add: Second_def sgn_mult abs_mult)
  then show ?thesis
    using round64_int [of n] assms by (simp add: duration_Seconds_def Let_def round64_def [of 0])
qed

lemma jfloat_int [simp]: "jfloat (of_int n) = JInt n"
  by (simp add: jfloat_def)

lemma finite64_int: "\<bar>n\<bar> < 2 ^ 53 \<Longrightarrow> finite64 (of_int n)"
proof -
  assume n: "\<bar>n\<bar> < 2 ^ 53"
  have "(2::int) ^ 53 \<le> 2 ^ 1024" by (rule power_increasing) simp_all
  with n have "\<bar>n\<bar> < 2 ^ 1024" by linarith
  then have "of_int \<bar>n\<bar> < (of_int (2 ^ 1024) :: rat)" by (subst of_int_less_iff)
  with round64_int [OF n] show ?thesis by (simp add: finite64_def)
qed

definition claim_body :: "worker_id \<Rightarrow> int \<Rightarrow> (string \<times> json) list" where
  "claim_body w n = [(''lease_seconds'', JInt n), (''worker_id'', JStr w)]"

text \<open>A body that carries one JSON object and fits the limit decodes to what its fields say.\<close>

definition carries :: "Request \<Rightarrow> (string \<times> json) list \<Rightarrow> bool" where
  "carries r kvs \<longleftrightarrow>
     scanned (body r) = ScanValue (JObj kvs) \<and> need (body r) \<le> body_limit r \<and> rest (body r) = []"

lemma decode_carries: "carries r kvs \<Longrightarrow> set_fields fs kvs zero = Some q \<Longrightarrow> decode fs zero r = Inr q"
  by (simp add: carries_def decode_def Let_def decoder_More_def)

lemma build_request_carries:
  "int (object_len k kvs) \<le> limit \<Longrightarrow>
   carries ((build_request c k m sg (Some kvs))\<lparr>body_limit := nat limit, PathValue := v\<rparr>) kvs"
  by (simp add: carries_def build_request_def)

text \<open>A worker id as the server keeps it: not blank at either end, not empty, valid UTF-8.\<close>

definition plain_worker :: "worker_id \<Rightarrow> bool" where
  "plain_worker w \<longleftrightarrow> w \<noteq> [] \<and> TrimSpace w = w \<and> utf8_valid w"

lemma jstr_worker: "plain_worker w \<Longrightarrow> jstr w = JStr w"
  by (simp add: jstr_def plain_worker_def to_valid_id)

lemma handleClaim_tells:
  assumes "unanswered w" "plain_worker wid" "\<bar>n\<bar> < 2 ^ 53" "carries r (claim_body wid n)"
  shows "tells (handleClaim sv s r w) (Claim s wid (clampLease sv (of_int n)) (tables w))"
proof -
  have "set_fields claim_fields (claim_body wid n) \<lparr>kWorkerID = [], kLeaseSeconds = 0\<rparr> =
      Some \<lparr>kWorkerID = wid, kLeaseSeconds = of_int n\<rparr>"
    using round64_int [OF assms(3)] finite64_int [OF assms(3)]
    by (simp add: claim_body_def claim_fields_def lookup_field_def)
  from decode_carries [OF assms(4) this]
  show ?thesis
    using assms(1,2) store_call_tells [of w "\<lambda>_. log_event LevelInfo ''job_claimed''"]
    by (simp add: handleClaim_def Let_def plain_worker_def)
qed

lemma find_claim_route:
  "find (route_matches (build_request c k ''POST'' [''jobs'', ''claim''] b)) routes =
     Some \<lparr>verb = ''POST'', pats = [Lit ''jobs'', Lit ''claim''], target = handleClaim\<rparr>"
  by (simp add: routes_def route_matches_def verb_matches_def)

lemma url_segs_claim: "url_segs ''/jobs/claim'' = Some [''jobs'', ''claim'']"
  by code_simp

text \<open>
  C19. End to end: a worker that claims through its client, with the server's token, a plain worker id and a lease of a whole
  number of seconds within the server's bounds, gets exactly the store's verdict on that
  worker and that lease: the job, "no jobs", "unknown worker", or the API error of the store's error;
  and the tables are those the store left.
\<close>

theorem client_claim_is_store_claim:
  assumes "Token c = AuthToken (cfg sv)" "plain_worker w" "short_errors k"
    "0 < n" "MinLease (cfg sv) \<le> n * Second" "n * Second \<le> MaxLease (cfg sv)" "MaxLease (cfg sv) < 2 ^ 53"
    "int (object_len k (claim_body w n)) \<le> MaxRequestBytes (cfg sv)"
  shows "client_Claim c k (server_net sv s) w (n * Second) d =
    (case Claim s w (n * Second) d of
       (Inl e, d') \<Rightarrow> (Inl (client_view e), d') | (Inr j, d') \<Rightarrow> (Inr j, d'))"
proof -
  have small: "n < 2 ^ 53" using assms(4,6,7) by (simp add: Second_def)
  have "client_do c k (server_net sv s) ''POST'' ''/jobs/claim'' (Some (claim_body w n)) d =
      client_result (Claim s w (n * Second) d)"
  proof (rule client_do_tells [OF assms(1,3) url_segs_claim find_claim_route])
    show "tells (target \<lparr>verb = ''POST'', pats = [Lit ''jobs'', Lit ''claim''], target = handleClaim\<rparr> sv s
        ((build_request c k ''POST'' [''jobs'', ''claim''] (Some (claim_body w n)))
          \<lparr>body_limit := nat (MaxRequestBytes (cfg sv)),
           PathValue := wild_value (pats \<lparr>verb = ''POST'', pats = [Lit ''jobs'', Lit ''claim''], target = handleClaim\<rparr>)
             [''jobs'', ''claim'']\<rparr>) (inner d)) (Claim s w (n * Second) d)"
      using handleClaim_tells [OF inner_simps(1) assms(2) _ build_request_carries [OF assms(8)], where sv = sv] assms(4)
        small clampLease_exact [OF assms(4-7)] by simp
  qed
  moreover have "jfloat (duration_Seconds (n * Second)) = JInt n"
    using duration_Seconds_whole [OF assms(4) small] by simp
  ultimately show ?thesis
    using jstr_worker [OF assms(2)]
    by (simp add: client_Claim_def claim_body_def client_result_def split: prod.split sum.split)
qed

definition demo_client :: Client where
  "demo_client = \<lparr>BaseURL = [], Token = []\<rparr>"

definition demo_codec :: codec where
  "demo_codec = \<lparr>dec_len = (\<lambda>_. 20), raw_text = (\<lambda>_. [])\<rparr>"

lemma demo_codec_short [simp]: "short_errors demo_codec"
  by (simp add: short_errors_def demo_codec_def)

lemma demo_server_simps [simp]:
  "AuthToken (cfg demo_server) = []" "MinLease (cfg demo_server) = 5000000000"
  "MaxLease (cfg demo_server) = 600000000000" "MaxRequestBytes (cfg demo_server) = 262144"
  "backoff demo_server = DefaultBackoff" "Token demo_client = []"
  by (simp_all add: demo_server_def demo_client_def DefaultConfig_def Second_def Minute_def)

lemma plain_w2: "plain_worker ''w2''"
  unfolding plain_worker_def by code_simp

theorem client_claim_is_store_claim_witness:
  "\<exists>j. fst (client_Claim demo_client demo_codec (server_net demo_server (quiet 50)) ''w2'' (30 * Second) demo_db) = Inr j \<and>
     ID j = 2"
proof -
  have len: "object_len demo_codec (claim_body ''w2'' 30) = 37" by code_simp
  have "\<exists>j d'. Claim (quiet 50) ''w2'' (30 * Second) demo_db = (Inr j, d') \<and> ID j = 2"
    by (simp add: Claim_def withTx_no_faults claim_tx_def claim_pick_def claimable_def demo_defs
        claim_order_def claim_set_def int4_ok_def)
  with client_claim_is_store_claim [of demo_client demo_server "''w2''" demo_codec 30 "quiet 50" demo_db]
    plain_w2 len
  show ?thesis by (auto simp: demo_client_def Second_def)
qed

section \<open>Reports\<close>

lemma unescape_plain: "CHR ''%'' \<notin> set s \<Longrightarrow> unescape s = Some s"
  by (induction s) auto

lemma split_on_plain [simp]:
  "d \<notin> set s \<Longrightarrow> split_on d (s @ d # r) = s # split_on d r"
  "d \<notin> set s \<Longrightarrow> split_on d s = [s]"
  by (induction s) auto

definition path_plain :: "string \<Rightarrow> bool" where
  "path_plain s \<longleftrightarrow> set s \<inter> {CHR ''/'', CHR ''%'', CHR ''?'', CHR ''#''} = {} \<and> \<not> list_ex ctl_byte s"

lemma path_plain_words [simp]:
  "path_plain ''jobs''" "path_plain ''complete''" "path_plain ''fail''" "path_plain ''lease''" "path_plain ''cancel''"
  by (simp_all add: path_plain_def ctl_byte_def)

lemma url_segs_plain3:
  assumes "path_plain a" "path_plain b" "path_plain c"
  shows "url_segs (CHR ''/'' # a @ CHR ''/'' # b @ CHR ''/'' # c) = Some [a, b, c]"
proof -
  have tw: "takeWhile (\<lambda>x. x \<noteq> CHR ''?'' \<and> x \<noteq> CHR ''#'') (CHR ''/'' # a @ CHR ''/'' # b @ CHR ''/'' # c) =
      CHR ''/'' # a @ CHR ''/'' # b @ CHR ''/'' # c"
    using assms by (intro takeWhile_eq_all_conv [THEN iffD2]) (auto simp: path_plain_def)
  show ?thesis
    unfolding url_segs_def tw using assms unescape_plain by (simp add: path_plain_def ctl_byte_def)
qed

lemma path_plain_dec_nat: "path_plain (dec_nat n)"
proof (induction n rule: dec_nat.induct)
  case (1 n)
  have d: "path_plain [char_of (48 + m :: nat)]" if "m < 10" for m
  proof -
    have "char_of (48 + m) \<noteq> c" if "(of_char c :: nat) < 48 \<or> 57 < (of_char c :: nat)" for c
    proof
      assume "char_of (48 + m) = c"
      then have "of_char c = 48 + m" using \<open>m < 10\<close> by auto
      with that \<open>m < 10\<close> show False by simp
    qed
    then show ?thesis using that by (auto simp: path_plain_def ctl_byte_def)
  qed
  show ?case
  proof (cases "n < 10")
    case True
    then show ?thesis using d by (subst dec_nat.simps) simp
  next
    case False
    with "1.IH" d [of "n mod 10"] show ?thesis by (subst dec_nat.simps) (auto simp: path_plain_def)
  qed
qed

lemma url_segs_job:
  "0 < i \<Longrightarrow> path_plain act \<Longrightarrow> url_segs (job_path i act) = Some [''jobs'', FormatInt i, act]"
  using url_segs_plain3 [of "''jobs''" "FormatInt i" act] path_plain_dec_nat [of "nat i"]
  by (simp add: job_path_def FormatInt_def)

text \<open>What a report carries, in the order its keys are marshalled.\<close>

definition complete_body :: "worker_id \<Rightarrow> ExecResult \<Rightarrow> (string \<times> json) list" where
  "complete_body w r =
     [(''duration_ms'', JInt (exec_DurationMS r)), (''exit_code'', jint_ptr (ExExitCode r)),
      (''stderr'', jstr (ExStderr r)), (''stdout'', jstr (ExStdout r)), (''worker_id'', JStr w)]"

definition fail_body :: "worker_id \<Rightarrow> ExecResult \<Rightarrow> string \<Rightarrow> (string \<times> json) list" where
  "fail_body w r cause =
     [(''duration_ms'', JInt (exec_DurationMS r)), (''error'', jstr cause),
      (''exit_code'', jint_ptr (ExExitCode r)),
      (''stderr'', jstr (ExStderr r)), (''stdout'', jstr (ExStdout r)), (''worker_id'', JStr w)]"

text \<open>The store's view of an execution result: output as JSON delivers it.\<close>

definition stored_result :: "ExecResult \<Rightarrow> string \<Rightarrow> Result" where
  "stored_result r cause =
     \<lparr>Stdout = to_valid (ExStdout r), Stderr = to_valid (ExStderr r), ExitCode = ExExitCode r,
      ResDurationMS = Some (exec_DurationMS r), ResError = cause\<rparr>"

definition result_fits :: "ExecResult \<Rightarrow> bool" where
  "result_fits r \<longleftrightarrow>
     int64_ok (exec_DurationMS r) \<and> (case ExExitCode r of None \<Rightarrow> True | Some n \<Rightarrow> int64_ok n)"

lemma set_complete_body:
  "result_fits r \<Longrightarrow>
   set_fields report_fields (complete_body w r) zero_report =
     Some (zero_report\<lparr>rDurationMS := Some (exec_DurationMS r), rExitCode := ExExitCode r,
       rStderr := to_valid (ExStderr r), rStdout := to_valid (ExStdout r), rWorkerID := w\<rparr>)"
  by (cases "ExExitCode r")
    (auto simp: complete_body_def report_fields_def lookup_field_def result_fits_def jint_ptr_def jstr_def
      zero_report_def)

lemma set_fail_body:
  "result_fits r \<Longrightarrow>
   set_fields report_fields (fail_body w r cause) zero_report =
     Some (zero_report\<lparr>rDurationMS := Some (exec_DurationMS r), rError := to_valid cause, rExitCode := ExExitCode r,
       rStderr := to_valid (ExStderr r), rStdout := to_valid (ExStdout r), rWorkerID := w\<rparr>)"
  by (cases "ExExitCode r")
    (auto simp: fail_body_def report_fields_def lookup_field_def result_fits_def jint_ptr_def jstr_def
      zero_report_def)

lemma parseReport_ok:
  assumes "PathValue r = FormatInt i" "0 < i" "int64_ok i" "carries r kvs"
    "set_fields report_fields kvs zero_report = Some q" "plain_worker (rWorkerID q)"
  shows "parseReport r = Inr (i, q)"
  using assms ParseInt_FormatInt [OF assms(3)] decode_carries [OF assms(4,5)]
  by (simp add: parseReport_def pathID_def plain_worker_def Let_def)

lemma find_report_route:
  "find (route_matches (build_request c k ''POST'' [''jobs'', FormatInt i, ''complete''] b)) routes =
     Some \<lparr>verb = ''POST'', pats = [Lit ''jobs'', Wild, Lit ''complete''], target = handleComplete\<rparr>"
  "find (route_matches (build_request c k ''POST'' [''jobs'', FormatInt i, ''fail''] b)) routes =
     Some \<lparr>verb = ''POST'', pats = [Lit ''jobs'', Wild, Lit ''fail''], target = handleFail\<rparr>"
  by (auto simp: routes_def route_matches_def verb_matches_def FormatInt_def)

text \<open>The common part of the two reports.\<close>

lemma client_report_tells:
  assumes "Token c = AuthToken (cfg sv)" "short_errors k" "0 < i" "path_plain act"
    "find (route_matches (build_request c k ''POST'' [''jobs'', FormatInt i, act] (Some kvs))) routes =
       Some \<lparr>verb = ''POST'', pats = [Lit ''jobs'', Wild, Lit act], target = h\<rparr>"
    "int (object_len k kvs) \<le> MaxRequestBytes (cfg sv)"
    "\<And>r. PathValue r = FormatInt i \<Longrightarrow> carries r kvs \<Longrightarrow> tells (h sv s r (inner d)) res"
  shows "client_do c k (server_net sv s) ''POST'' (job_path i act) (Some kvs) d = client_result res"
  by (rule client_do_tells [OF assms(1,2) url_segs_job [OF assms(3,4)] assms(5)])
    (simp add: assms(7) build_request_carries [OF assms(6)])

lemma handleComplete_tells:
  assumes "plain_worker w" "0 < i" "int64_ok i" "result_fits r"
    "PathValue q = FormatInt i" "carries q (complete_body w r)"
  shows "tells (handleComplete sv s q (inner d)) (Complete s i w (stored_result r []) d)"
proof -
  note p = parseReport_ok [OF assms(5,2,3,6) set_complete_body [OF assms(4)]]
  show ?thesis
    using p assms(1) store_call_tells [OF inner_simps(1), of "\<lambda>_. log_event LevelInfo ''job_completed''"]
    by (simp add: handleComplete_def zero_report_def stored_result_def)
qed

lemma handleFail_tells:
  assumes "plain_worker w" "0 < i" "int64_ok i" "result_fits r"
    "PathValue q = FormatInt i" "carries q (fail_body w r cause)" "TrimSpace (to_valid cause) \<noteq> []"
  shows "tells (handleFail sv s q (inner d))
    (Fail s (backoff sv) i w (stored_result r (to_valid cause)) d)"
proof -
  note p = parseReport_ok [OF assms(5,2,3,6) set_fail_body [OF assms(4)]]
  show ?thesis
    using p assms(1,7) store_call_tells [OF inner_simps(1), of "\<lambda>j w.
        if Status j = StatusPending then log_event LevelWarn ''job_retrying'' w
        else log_event LevelError ''job_failed'' w"]
    by (simp add: handleFail_def zero_report_def stored_result_def fail_cause_def)
qed

lemma client_Complete_eq:
  assumes "Token c = AuthToken (cfg sv)" "plain_worker w" "short_errors k" "0 < i" "int64_ok i" "result_fits r"
    "int (object_len k (complete_body w r)) \<le> MaxRequestBytes (cfg sv)"
  shows "client_Complete c k (server_net sv s) i w r d =
    client_result (Complete s i w (stored_result r []) d)"
proof -
  have "client_do c k (server_net sv s) ''POST'' (job_path i ''complete'') (Some (complete_body w r)) d =
      client_result (Complete s i w (stored_result r []) d)"
    by (rule client_report_tells [OF assms(1,3,4) _ find_report_route(1) assms(7)])
      (use assms in \<open>auto intro: handleComplete_tells\<close>)
  then show ?thesis using jstr_worker [OF assms(2)] by (simp add: client_Complete_def complete_body_def)
qed

lemma client_Fail_eq:
  assumes "Token c = AuthToken (cfg sv)" "plain_worker w" "short_errors k" "0 < i" "int64_ok i" "result_fits r"
    "int (object_len k (fail_body w r cause)) \<le> MaxRequestBytes (cfg sv)" "TrimSpace (to_valid cause) \<noteq> []"
  shows "client_Fail c k (server_net sv s) i w r cause d =
    client_result (Fail s (backoff sv) i w (stored_result r (to_valid cause)) d)"
proof -
  have "client_do c k (server_net sv s) ''POST'' (job_path i ''fail'') (Some (fail_body w r cause)) d =
      client_result (Fail s (backoff sv) i w (stored_result r (to_valid cause)) d)"
    by (rule client_report_tells [OF assms(1,3,4) _ find_report_route(2) assms(7)])
      (use assms in \<open>auto intro: handleFail_tells\<close>)
  then show ?thesis using jstr_worker [OF assms(2)] by (simp add: client_Fail_def fail_body_def)
qed

text \<open>
  C20. End to end: a completion or a failure reported through the client, with the server's token and a body within the
  request limit, is exactly the store's \<open>Complete\<close> or \<open>Fail\<close> on the output as JSON delivers it, and the worker is
  told the store's verdict.
\<close>

theorem client_report_is_store_report:
  assumes "Token c = AuthToken (cfg sv)" "plain_worker w" "short_errors k" "0 < i" "int64_ok i" "result_fits r"
    "int (object_len k (complete_body w r)) \<le> MaxRequestBytes (cfg sv)"
    "int (object_len k (fail_body w r cause)) \<le> MaxRequestBytes (cfg sv)" "TrimSpace (to_valid cause) \<noteq> []"
  shows "client_Complete c k (server_net sv s) i w r d =
      client_result (Complete s i w (stored_result r []) d) \<and>
    client_Fail c k (server_net sv s) i w r cause d =
      client_result (Fail s (backoff sv) i w (stored_result r (to_valid cause)) d)"
  using client_Complete_eq [OF assms(1-7)] client_Fail_eq [OF assms(1-6,8,9)] by blast

definition demo_exec :: ExecResult where
  "demo_exec = \<lparr>ExStdout = ''hi'', ExStderr = [], ExExitCode = Some 0, ExDuration = 7000000\<rparr>"

theorem client_report_is_store_report_witness:
  "client_Complete demo_client demo_codec (server_net demo_server (quiet 50)) 1 ''w2'' demo_exec demo_db =
     client_result (Complete (quiet 50) 1 ''w2'' (stored_result demo_exec []) demo_db) \<and>
   client_Fail demo_client demo_codec (server_net demo_server (quiet 50)) 1 ''w2'' demo_exec ''no'' demo_db =
     client_result (Fail (quiet 50) DefaultBackoff 1 ''w2'' (stored_result demo_exec ''no'') demo_db)"
proof -
  have len: "object_len demo_codec (complete_body ''w2'' demo_exec) = 74"
    "object_len demo_codec (fail_body ''w2'' demo_exec ''no'') = 87"
    by code_simp+
  have v: "to_valid ''no'' = ''no''" "TrimSpace ''no'' \<noteq> []" by code_simp+
  have fits: "result_fits demo_exec" by (simp add: result_fits_def demo_exec_def exec_DurationMS_def int64_ok_def)
  show ?thesis
    using client_report_is_store_report [of demo_client demo_server "''w2''" demo_codec 1 demo_exec "''no''"
        "quiet 50" demo_db] plain_w2 len v fits
    by (simp add: int64_ok_def)
qed

end
