(* ===== verification/Worker_Loop.thy ===== *)
theory Worker_Loop
  imports Worker_E2E
begin

text \<open>
  The worker's control flow (\<open>internal/worker/worker.go\<close>): defaults, registration with backoff, the lease renewal loop, the
  report with retries, the processing of one job and the claim loop. Time and cancellation are inputs: at each point where
  the code looks at a context or waits, the model is told what it sees.
\<close>

section \<open>Configuration\<close>

record WConfig =
  ServerURL :: string
  WorkerName :: worker_id
  WHostname :: string
  WToken :: string
  Lease :: duration
  PollInterval :: duration
  HeartbeatInterval :: duration
  JobTimeout :: duration

definition New :: "WConfig \<Rightarrow> WConfig" where
  "New c =
     (let c1 = (if Lease c \<le> 0 then c\<lparr>Lease := 30 * Second\<rparr> else c);
          c2 = (if PollInterval c1 \<le> 0 then c1\<lparr>PollInterval := Second\<rparr> else c1);
          c3 = (if HeartbeatInterval c2 \<le> 0 then c2\<lparr>HeartbeatInterval := 10 * Second\<rparr> else c2)
      in if JobTimeout c3 \<le> 0 then c3\<lparr>JobTimeout := 5 * Minute\<rparr> else c3)"

definition NewClient :: "string \<Rightarrow> string \<Rightarrow> Client" where
  "NewClient url tok = \<lparr>BaseURL = url, Token = tok\<rparr>"

definition Millisecond :: duration where
  "Millisecond = 1000000"

text \<open>The worker's own client.\<close>

abbreviation client_of :: "WConfig \<Rightarrow> Client" where
  "client_of c \<equiv> NewClient (ServerURL c) (WToken c)"

section \<open>Jitter\<close>

text \<open>
  Each operation rounded by itself (no fused multiply-add); \<open>u\<close> is the random number, \<open>cv\<close> the platform's
  conversion outside \<open>int64\<close>.
\<close>

definition jitter :: "(rat \<Rightarrow> int) \<Rightarrow> rat \<Rightarrow> duration \<Rightarrow> duration" where
  "jitter cv u d =
     (if d \<le> 0 then d
      else let f = round64 (of_int d); delta = round64 (f * (1 / 4)) in
           to_int64 cv (round64 (round64 (f - delta) + round64 (round64 (u * 2) * delta))))"

section \<open>Registration\<close>

text \<open>
  Attempt \<open>n\<close>: the network then, whether the context had ended when the code looked after a failure, and whether the
  sleep that follows runs its full length.
\<close>

record 'st reg_env =
  reg_net :: "nat \<Rightarrow> 'st net"
  reg_gone :: "nat \<Rightarrow> bool"
  reg_woken :: "nat \<Rightarrow> bool"

text \<open>The result: whether the worker is registered, the sleeps so far, and the state. None: it tries forever.\<close>

partial_function (option) register_loop ::
  "WConfig \<Rightarrow> codec \<Rightarrow> 'st reg_env \<Rightarrow> nat \<Rightarrow> duration \<Rightarrow> duration list \<Rightarrow> 'st \<Rightarrow>
   (bool \<times> duration list \<times> 'st) option" where
  "register_loop c k e n wait waits st =
     (case client_Register (client_of c) k (reg_net e n) (WorkerName c) (WHostname c) st of
        (Inr _, st') \<Rightarrow> Some (True, waits, st')
      | (Inl _, st') \<Rightarrow>
          if reg_gone e n then Some (False, waits, st')
          else if \<not> reg_woken e n then Some (False, waits @ [wait], st')
          else register_loop c k e (Suc n) (if wait < 10 * Second then wait * 2 else wait)
                 (waits @ [wait]) st')"

definition registerWithRetry ::
  "WConfig \<Rightarrow> codec \<Rightarrow> 'st reg_env \<Rightarrow> 'st \<Rightarrow> (bool \<times> duration list \<times> 'st) option" where
  "registerWithRetry c k e st = register_loop c k e 1 (500 * Millisecond) [] st"

section \<open>Heartbeats\<close>

text \<open>
  What a ticker loop meets, one per turn of its \<open>select\<close>: the context done, or a tick, with the network for the call it makes and
  whether the context had ended when the call came back.
\<close>

datatype 'st tick = CtxDone | Tick "'st net" bool

datatype loop_end = LoopStopped | LoopGoing

text \<open>The number is that of the \<open>heartbeat_failed\<close> warnings.\<close>

fun heartbeatLoop :: "WConfig \<Rightarrow> codec \<Rightarrow> 'st tick list \<Rightarrow> 'st \<Rightarrow> loop_end \<times> nat \<times> 'st" where
  "heartbeatLoop c k [] st = (LoopGoing, 0, st)"
| "heartbeatLoop c k (CtxDone # es) st = (LoopStopped, 0, st)"
| "heartbeatLoop c k (Tick net gone # es) st =
     (case client_Heartbeat (client_of c) k net (WorkerName c) st of
        (Inr _, st') \<Rightarrow> heartbeatLoop c k es st'
      | (Inl e, st') \<Rightarrow>
          if gone then (LoopStopped, 0, st')
          else case heartbeatLoop c k es st' of (r, warned, st'') \<Rightarrow> (r, Suc warned, st''))"

section \<open>Lease renewal\<close>

datatype renew_end = RenewStopped | LeaseLost | RenewGoing

fun renewLoop :: "WConfig \<Rightarrow> codec \<Rightarrow> job_id \<Rightarrow> 'st tick list \<Rightarrow> 'st \<Rightarrow> renew_end \<times> 'st" where
  "renewLoop c k i [] st = (RenewGoing, st)"
| "renewLoop c k i (CtxDone # es) st = (RenewStopped, st)"
| "renewLoop c k i (Tick net gone # es) st =
     (case client_RenewLease (client_of c) k net i (WorkerName c) (Lease c) st of
        (Inr _, st') \<Rightarrow> renewLoop c k i es st'
      | (Inl e, st') \<Rightarrow>
          if gone then (RenewStopped, st')
          else (case e of
                  CAPIError status code msg \<Rightarrow>
                    if status = 409 then (LeaseLost, st') else renewLoop c k i es st'
                | _ \<Rightarrow> renewLoop c k i es st'))"

text \<open>The period of the ticker.\<close>

definition renew_period :: "WConfig \<Rightarrow> duration" where
  "renew_period c = Lease c div 3"

section \<open>Reporting\<close>

datatype report_end = Reported | Rejected nat | ReportCtxDone | GaveUp

text \<open>A reply below 500 will not change on a retry.\<close>

fun final_status :: "client_error \<Rightarrow> nat option" where
  "final_status (CAPIError st code msg) = (if st < 500 then Some st else None)"
| "final_status _ = None"

text \<open>
  The loop over the attempts that are left: \<open>call n\<close> is attempt \<open>n\<close>, \<open>gone n\<close> whether the context ends during the
  wait after it.
\<close>

fun report_loop ::
  "(nat \<Rightarrow> 'st \<Rightarrow> (client_error + 'r) \<times> 'st) \<Rightarrow> (nat \<Rightarrow> bool) \<Rightarrow> nat \<Rightarrow> nat \<Rightarrow> duration \<Rightarrow> 'st \<Rightarrow>
   report_end \<times> duration list \<times> 'st" where
  "report_loop call gone n 0 wait st = (GaveUp, [], st)"
| "report_loop call gone n (Suc left) wait st =
     (case call n st of
        (Inr _, st') \<Rightarrow> (Reported, [], st')
      | (Inl e, st') \<Rightarrow>
          (case final_status e of
             Some code \<Rightarrow> (Rejected code, [], st')
           | None \<Rightarrow>
               if gone n then (ReportCtxDone, [wait], st')
               else (case report_loop call gone (Suc n) left (wait * 2) st' of
                       (r, waits, st'') \<Rightarrow> (r, wait # waits, st''))))"

definition report ::
  "(nat \<Rightarrow> 'st \<Rightarrow> (client_error + 'r) \<times> 'st) \<Rightarrow> (nat \<Rightarrow> bool) \<Rightarrow> 'st \<Rightarrow>
   report_end \<times> duration list \<times> 'st" where
  "report call gone st = report_loop call gone 1 4 (250 * Millisecond) st"

section \<open>One job\<close>

definition derefInt :: "int option \<Rightarrow> int" where
  "derefInt p = (case p of None \<Rightarrow> - 1 | Some n \<Rightarrow> n)"

text \<open>
  What surrounds one job: what the renewal loop meets while the command runs; the shell, told whether the renewal
  loop cancelled the job; whether the worker is being shut down when the command has ended; the network at
  each report attempt; and whether the report's own context ends.
\<close>

record 'st surroundings =
  renewals :: "'st tick list"
  shell_of :: "bool \<Rightarrow> shell"
  shutting_down :: bool
  net_at :: "nat \<Rightarrow> 'st net"
  report_gone :: "nat \<Rightarrow> bool"

definition execute :: "WConfig \<Rightarrow> shell \<Rightarrow> Job \<Rightarrow> ExecResult \<times> string option" where
  "execute c sh job =
     (if Type job = TypeShell then ExecuteShell sh (Payload job) (JobTimeout c)
      else (\<lparr>ExStdout = [], ExStderr = [], ExExitCode = None, ExDuration = 0\<rparr>,
            Some (''unsupported job type '' @ Quote (Type job))))"

text \<open>
  \<open>process\<close>: the renewals all happen before the first report, because the worker waits for the renewal loop to
  end; the job's own context is cancelled by then, so the cause depends on the worker's context only.
\<close>

definition process ::
  "WConfig \<Rightarrow> codec \<Rightarrow> 'st surroundings \<Rightarrow> Job \<Rightarrow> 'st \<Rightarrow> report_end \<times> duration list \<times> 'st" where
  "process c k env job st =
     (case renewLoop c k (ID job) (renewals env) st of (renewed, st1) \<Rightarrow>
      case execute c (shell_of env (renewed = LeaseLost)) job of (res, err) \<Rightarrow>
        case err of
          Some m \<Rightarrow>
            (let cause = (if shutting_down env then ''worker shut down mid-execution: '' @ m else m) in
             report (\<lambda>n. client_Fail (client_of c) k (net_at env n) (ID job) (WorkerName c) res cause)
               (report_gone env) st1)
        | None \<Rightarrow>
            report (\<lambda>n. client_Complete (client_of c) k (net_at env n) (ID job) (WorkerName c) res)
              (report_gone env) st1)"

section \<open>The claim loop\<close>

text \<open>What one turn of the loop decides from the claim's result.\<close>

datatype turn_action = DoProcess Job | DoSleep duration | DoReregister | DoStop

definition turn :: "WConfig \<Rightarrow> (duration \<Rightarrow> duration) \<Rightarrow> bool \<Rightarrow> client_error + Job \<Rightarrow> turn_action" where
  "turn c jit ctx_gone res =
     (case res of
        Inr job \<Rightarrow> DoProcess job
      | Inl CErrNoJobs \<Rightarrow> DoSleep (jit (PollInterval c))
      | Inl CErrUnknownWorker \<Rightarrow> DoReregister
      | Inl _ \<Rightarrow> if ctx_gone then DoStop else DoSleep (jit (wrap64 (2 * PollInterval c))))"

text \<open>
  One turn's inputs: whether the context has ended at the top, the network for the claim, whether the context had ended after
  it, the draw of the random number for the jitter, what surrounds the job, and what a new registration meets.
\<close>

record 'st turn_input =
  top_gone :: bool
  claim_net :: "'st net"
  after_gone :: bool
  draw :: rat
  around :: "'st surroundings"
  rereg :: "'st reg_env"

datatype run_result = RunReturned | RunRegisterFailed | RunGoing

datatype act = Processed Job report_end | Slept duration | Reregistered

text \<open>The loop over the turns it is given; what it did, in order. None: a registration that never returns.\<close>

fun Run_loop ::
  "WConfig \<Rightarrow> codec \<Rightarrow> (rat \<Rightarrow> int) \<Rightarrow> 'st turn_input list \<Rightarrow> 'st \<Rightarrow> (run_result \<times> act list \<times> 'st) option" where
  "Run_loop c k cv [] st = Some (RunGoing, [], st)"
| "Run_loop c k cv (i # is) st =
     (if top_gone i then Some (RunReturned, [], st)
      else case client_Claim (client_of c) k (claim_net i) (WorkerName c) (Lease c) st of
        (res, st1) \<Rightarrow>
          (case turn c (jitter cv (draw i)) (after_gone i) res of
             DoProcess job \<Rightarrow>
               (case process c k (around i) job st1 of (r, waits, st2) \<Rightarrow>
                map_option (\<lambda>(e, acts, st'). (e, Processed job r # acts, st')) (Run_loop c k cv is st2))
           | DoSleep d \<Rightarrow>
               map_option (\<lambda>(e, acts, st'). (e, Slept d # acts, st')) (Run_loop c k cv is st1)
           | DoReregister \<Rightarrow>
               (case registerWithRetry c k (rereg i) st1 of
                  None \<Rightarrow> None
                | Some (False, waits, st2) \<Rightarrow> Some (RunRegisterFailed, [], st2)
                | Some (True, waits, st2) \<Rightarrow>
                    map_option (\<lambda>(e, acts, st'). (e, Reregistered # acts, st')) (Run_loop c k cv is st2))
           | DoStop \<Rightarrow> Some (RunReturned, [], st1)))"

text \<open>
  The goroutine of \<open>heartbeatLoop\<close> shares only the configuration with the claim loop; what its calls do to the server is part of what
  the networks of the turns meet, like the calls of any other client.
\<close>

definition Run ::
  "WConfig \<Rightarrow> codec \<Rightarrow> (rat \<Rightarrow> int) \<Rightarrow> 'st reg_env \<Rightarrow> 'st turn_input list \<Rightarrow> 'st \<Rightarrow>
   (run_result \<times> act list \<times> 'st) option" where
  "Run c k cv e is st =
     (case registerWithRetry c k e st of
        None \<Rightarrow> None
      | Some (False, waits, st1) \<Rightarrow> Some (RunRegisterFailed, [], st1)
      | Some (True, waits, st1) \<Rightarrow> Run_loop c k cv is st1)"

section \<open>Defaults and registration\<close>

text \<open>
  Whatever is configured, the worker runs with positive intervals, so no ticker panics and no loop spins; a lease of at least
  three nanoseconds has a positive renewal period, and two renewals in a row may fail before the lease runs out.
\<close>

lemma New_positive:
  "0 < Lease (New c) \<and> 0 < PollInterval (New c) \<and> 0 < HeartbeatInterval (New c) \<and> 0 < JobTimeout (New c) \<and>
   (3 \<le> Lease (New c) \<longrightarrow> 0 < renew_period (New c)) \<and> 3 * renew_period (New c) \<le> Lease (New c) \<and>
   (0 < Lease c \<longrightarrow> Lease (New c) = Lease c)"
  by (auto simp: New_def Let_def renew_period_def Second_def Minute_def)

definition demo_wconfig :: WConfig where
  "demo_wconfig = \<lparr>ServerURL = [], WorkerName = ''w2'', WHostname = ''h'', WToken = [], Lease = 30 * Second,
     PollInterval = 0, HeartbeatInterval = 0, JobTimeout = 0\<rparr>"

lemma New_positive_witness:
  "Lease (New demo_wconfig) = 30 * Second \<and> 0 < renew_period (New demo_wconfig)"
proof -
  have "0 < Lease demo_wconfig" "3 \<le> Lease demo_wconfig" by (simp_all add: demo_wconfig_def Second_def)
  with New_positive [of demo_wconfig] show ?thesis by (simp add: demo_wconfig_def)
qed

text \<open>The wait after attempt \<open>n\<close>: doubling until it has reached ten seconds.\<close>

definition reg_wait :: "nat \<Rightarrow> duration" where
  "reg_wait i = 500 * Millisecond * 2 ^ min i 5"

lemma reg_wait_step:
  "(if reg_wait i < 10 * Second then reg_wait i * 2 else reg_wait i) = reg_wait (Suc i)"
proof (cases "i < 5")
  case True
  then have "i \<in> {0, 1, 2, 3, 4}" by auto
  then show ?thesis by (auto simp: reg_wait_def Millisecond_def Second_def)
next
  case False
  then show ?thesis by (simp add: reg_wait_def Millisecond_def Second_def)
qed

text \<open>Attempt \<open>m\<close> fails and leaves the server's state alone.\<close>

definition reg_refused :: "WConfig \<Rightarrow> codec \<Rightarrow> 'st reg_env \<Rightarrow> nat \<Rightarrow> 'st \<Rightarrow> bool" where
  "reg_refused c k e m st \<longleftrightarrow>
     (\<exists>err. client_Register (client_of c) k (reg_net e m) (WorkerName c) (WHostname c) st = (Inl err, st))"

lemma register_loop_runs:
  assumes "\<forall>m. n \<le> m \<and> m < n + h \<longrightarrow> reg_refused c k e m st \<and> \<not> reg_gone e m \<and> reg_woken e m"
  shows "register_loop c k e n (reg_wait i) ws st =
    register_loop c k e (n + h) (reg_wait (i + h)) (ws @ map reg_wait [i..<i + h]) st"
  using assms
proof (induction h arbitrary: n i ws)
  case 0
  then show ?case by simp
next
  case (Suc h)
  have "register_loop c k e n (reg_wait i) ws st =
      register_loop c k e (Suc n) (reg_wait (Suc i)) (ws @ [reg_wait i]) st"
    using Suc.prems [rule_format, of n] reg_wait_step [of i]
    by (subst register_loop.simps) (auto simp: reg_refused_def)
  also have "\<dots> = register_loop c k e (Suc n + h) (reg_wait (Suc i + h))
      ((ws @ [reg_wait i]) @ map reg_wait [Suc i..<Suc i + h]) st"
    using Suc.prems by (intro Suc.IH) simp
  also have "[i..<i + Suc h] = i # [Suc i..<Suc i + h]" by (subst upt_conv_Cons) auto
  then have "(ws @ [reg_wait i]) @ map reg_wait [Suc i..<Suc i + h] = ws @ map reg_wait [i..<i + Suc h]"
    by (simp del: upt_Suc)
  finally show ?case by (simp del: upt_Suc)
qed

lemma reg_wait_bounds: "500 * Millisecond \<le> reg_wait i \<and> reg_wait i \<le> 16 * Second"
proof -
  have "(1::int) \<le> 2 ^ min i 5" by simp
  moreover have "(2::int) ^ min i 5 \<le> 2 ^ 5" by (rule power_increasing) simp_all
  ultimately have "(1::int) \<le> 2 ^ min i 5" "(2::int) ^ min i 5 \<le> 32" by simp_all
  then show ?thesis by (simp add: reg_wait_def Millisecond_def Second_def)
qed

text \<open>
  Registration returns as soon as the server accepts, however many attempts are refused or lost before that, as long as
  the worker is not shut down; between attempts it waits 0.5s, 1s, 2s, 4s, 8s and then 16s each time.
\<close>

lemma registerWithRetry_returns:
  assumes "\<forall>m. 1 \<le> m \<and> m \<le> h \<longrightarrow> reg_refused c k e m st \<and> \<not> reg_gone e m \<and> reg_woken e m"
    "client_Register (client_of c) k (reg_net e (Suc h)) (WorkerName c) (WHostname c) st = (Inr ch, st')"
  shows "registerWithRetry c k e st = Some (True, map reg_wait [0..<h], st') \<and>
    (\<forall>w \<in> set (map reg_wait [0..<h]). 500 * Millisecond \<le> w \<and> w \<le> 16 * Second)"
proof
  have w0: "reg_wait 0 = 500 * Millisecond" by (simp add: reg_wait_def)
  have "registerWithRetry c k e st =
      register_loop c k e (1 + h) (reg_wait (0 + h)) ([] @ map reg_wait [0..<0 + h]) st"
    unfolding registerWithRetry_def w0 [symmetric] using assms(1) by (intro register_loop_runs) auto
  also have "\<dots> = Some (True, map reg_wait [0..<h], st')"
    using assms(2) by (subst register_loop.simps) simp
  finally show "registerWithRetry c k e st = Some (True, map reg_wait [0..<h], st')" .
qed (use reg_wait_bounds in auto)

section \<open>Reporting\<close>

lemma report_loop_shape:
  "report_loop call gone n left wait st = (r, ws, st') \<Longrightarrow>
   length ws \<le> left \<and> (r = GaveUp \<longrightarrow> length ws = left) \<and> (\<forall>i < length ws. ws ! i = wait * 2 ^ i)"
proof (induction left arbitrary: n wait st r ws st')
  case (Suc left)
  obtain x st1 where c: "call n st = (x, st1)" by fastforce
  show ?case
  proof (cases "\<exists>e. x = Inl e \<and> final_status e = None \<and> \<not> gone n")
    case True
    obtain r2 ws2 st2 where l: "report_loop call gone (Suc n) left (wait * 2) st1 = (r2, ws2, st2)"
      using prod_cases3 by blast
    with True c Suc.prems have "r = r2" "ws = wait # ws2" by auto
    with Suc.IH [OF l] show ?thesis by (auto simp: nth_Cons split: nat.split)
  next
    case False
    with c Suc.prems show ?thesis by (auto split: sum.splits option.splits if_splits)
  qed
qed simp

text \<open>
  A report always ends, after at most four calls and waits of 250ms, 500ms, 1s and 2s; and it
  gives up only after all four.
\<close>

lemma report_bounded:
  "case report call gone st of (r, waits, st') \<Rightarrow>
     length waits \<le> 4 \<and> (\<forall>i < length waits. waits ! i = 250 * Millisecond * 2 ^ i) \<and>
     (r = GaveUp \<longrightarrow> length waits = 4)"
  unfolding report_def by (auto dest: report_loop_shape split: prod.split)

lemma report_bounded_witness:
  "case report (\<lambda>n st. (Inl (CErrOther ''down''), st) :: (client_error + nat) \<times> nat) (\<lambda>_. False) 0 of
     (r, waits, st') \<Rightarrow> length waits \<le> 4"
  using report_bounded [of "\<lambda>n st. (Inl (CErrOther ''down''), st) :: (client_error + nat) \<times> nat" "\<lambda>_. False" 0]
  by (auto split: prod.splits)

end
