(* ===== verification/Worker_Renew.thy ===== *)
theory Worker_Renew
  imports Worker_Loop
begin

text \<open>
  Lease renewal against the server: as long as the worker owns the job every renewal that gets through
  extends the lease; once it does not, the next renewal that gets through cancels the job.
\<close>

section \<open>A renewal is the store's\<close>

text \<open>What a worker needs to be understood by the server it talks to.\<close>

definition paired :: "WConfig \<Rightarrow> codec \<Rightarrow> Server \<Rightarrow> bool" where
  "paired c k sv \<longleftrightarrow>
     WToken c = AuthToken (cfg sv) \<and> plain_worker (WorkerName c) \<and> short_errors k"

text \<open>The lease is a whole number of seconds the server grants as asked.\<close>

definition lease_granted :: "WConfig \<Rightarrow> codec \<Rightarrow> Server \<Rightarrow> int \<Rightarrow> bool" where
  "lease_granted c k sv n \<longleftrightarrow>
     Lease c = n * Second \<and> 0 < n \<and> MinLease (cfg sv) \<le> n * Second \<and> n * Second \<le> MaxLease (cfg sv) \<and>
     MaxLease (cfg sv) < 2 ^ 53 \<and> int (object_len k (claim_body (WorkerName c) n)) \<le> MaxRequestBytes (cfg sv)"

lemma find_lease_route:
  "find (route_matches (build_request c k ''POST'' [''jobs'', FormatInt i, ''lease''] b)) routes =
     Some \<lparr>verb = ''POST'', pats = [Lit ''jobs'', Wild, Lit ''lease''], target = handleRenewLease\<rparr>"
  by (auto simp: routes_def route_matches_def verb_matches_def FormatInt_def)

lemma set_lease_body:
  "\<bar>n\<bar> < 2 ^ 53 \<Longrightarrow>
   set_fields report_fields (claim_body w n) zero_report =
     Some (zero_report\<lparr>rLeaseSeconds := of_int n, rWorkerID := w\<rparr>)"
  using round64_int [of n] finite64_int [of n]
  by (simp add: claim_body_def report_fields_def lookup_field_def zero_report_def)

lemma handleRenewLease_tells:
  assumes "plain_worker w" "0 < i" "int64_ok i" "\<bar>n\<bar> < 2 ^ 53"
    "PathValue q = FormatInt i" "carries q (claim_body w n)"
  shows "tells (handleRenewLease sv s q (inner d)) (RenewLease s i w (clampLease sv (of_int n)) d)"
proof -
  note p = parseReport_ok [OF assms(5,2,3,6) set_lease_body [OF assms(4)]]
  show ?thesis
    using p assms(1) store_call_tells [OF inner_simps(1), of "\<lambda>_. log_event LevelDebug ''lease_renewed''"]
    by (simp add: handleRenewLease_def zero_report_def)
qed

lemma client_RenewLease_eq:
  assumes "paired c k sv" "lease_granted c k sv n" "0 < i" "int64_ok i"
  shows "client_RenewLease (client_of c) k (server_net sv s) i (WorkerName c) (Lease c) d =
    client_result (RenewLease s i (WorkerName c) (Lease c) d)"
proof -
  let ?w = "WorkerName c"
  have p: "Token (client_of c) = AuthToken (cfg sv)" "plain_worker ?w" "short_errors k"
    using assms(1) by (auto simp: paired_def NewClient_def)
  have g: "Lease c = n * Second" "0 < n" "MinLease (cfg sv) \<le> n * Second" "n * Second \<le> MaxLease (cfg sv)"
    "MaxLease (cfg sv) < 2 ^ 53" "int (object_len k (claim_body ?w n)) \<le> MaxRequestBytes (cfg sv)"
    using assms(2) by (auto simp: lease_granted_def)
  have small: "n < 2 ^ 53" using g by (simp add: Second_def)
  have "client_do (client_of c) k (server_net sv s) ''POST'' (job_path i ''lease'') (Some (claim_body ?w n)) d =
      client_result (RenewLease s i ?w (clampLease sv (of_int n)) d)"
    by (rule client_report_tells [OF p(1,3) assms(3) _ find_lease_route g(6)])
      (use assms g small p in \<open>auto intro: handleRenewLease_tells\<close>)
  moreover have "jfloat (duration_Seconds (n * Second)) = JInt n"
    using duration_Seconds_whole [OF g(2) small] by simp
  ultimately show ?thesis
    using jstr_worker [OF p(2)] clampLease_exact [OF g(2-5)]
    by (simp add: client_RenewLease_def claim_body_def g(1))
qed

section \<open>The loop\<close>

text \<open>
  What the ticks meet: None is a request that is lost on the way, \<open>Some t\<close> one that reaches the server when its database's clock
  shows \<open>t\<close>.
\<close>

definition beats :: "Server \<Rightarrow> timestamp option list \<Rightarrow> db tick list" where
  "beats sv ts = map (\<lambda>b. Tick (case b of None \<Rightarrow> dead ''timeout'' | Some t \<Rightarrow> server_net sv (quiet t)) False) ts"

text \<open>The lease after the beats.\<close>

definition lease_after :: "duration \<Rightarrow> timestamp option list \<Rightarrow> timestamp option \<Rightarrow> timestamp option" where
  "lease_after lease ts l =
     fold (\<lambda>b l. case b of None \<Rightarrow> l | Some t \<Rightarrow> Some (t + interval (quiet t) lease)) ts l"

lemma client_RenewLease_dead:
  assumes "0 < i"
  shows "\<exists>e. client_RenewLease c k (dead m) i w lease st = (Inl (CErrOther e), st)"
  using url_segs_job [OF assms, of "''lease''"]
  by (auto simp: client_RenewLease_def client_do_def dead_def)

lemma RenewLease_quiet:
  assumes "jobs_inv d" "j \<in> set (jobs d)"
  shows "RenewLease (quiet t) (ID j) w lease d =
    (if owned (ID j) w j
     then (Inr (renew_set (quiet t) lease j),
           d\<lparr>jobs := update_where (owned (ID j) w) (renew_set (quiet t) lease) (jobs d)\<rparr>)
     else (Inl ErrNotOwned, d))"
  using find_owned [OF assms, of w] Get_row [OF assms, of "quiet t"]
  by (simp add: RenewLease_def autocommit_def explainLostRow_def Let_def)

lemma renewLoop_held:
  assumes "paired c k sv" "lease_granted c k sv n" "int64_ok i"
  shows "db_inv d \<Longrightarrow> j \<in> set (jobs d) \<Longrightarrow> ID j = i \<Longrightarrow> owned i (WorkerName c) j \<Longrightarrow>
    \<exists>d' j'. renewLoop c k i (beats sv ts) d = (RenewGoing, d') \<and> db_inv d' \<and> j' \<in> set (jobs d') \<and> ID j' = i \<and>
      owned i (WorkerName c) j' \<and> LeaseUntil j' = lease_after (Lease c) ts (LeaseUntil j)"
proof (induction ts arbitrary: d j)
  case Nil
  then show ?case by (auto simp: beats_def lease_after_def)
next
  case (Cons b ts)
  have ji: "jobs_inv d" using Cons.prems(1) by (simp add: db_inv_def)
  have pos: "0 < i" using jobs_invD(1) [OF ji Cons.prems(2)] Cons.prems(3) by simp
  show ?case
  proof (cases b)
    case None
    obtain e where "client_RenewLease (client_of c) k (dead ''timeout'') i (WorkerName c) (Lease c) d = (Inl (CErrOther e), d)"
      by (rule exE [OF client_RenewLease_dead [OF pos]])
    then have "renewLoop c k i (beats sv (b # ts)) d = renewLoop c k i (beats sv ts) d"
      by (simp add: beats_def None)
    with Cons.IH [OF Cons.prems] None show ?thesis by (simp add: lease_after_def)
  next
    case (Some t)
    let ?j = "renew_set (quiet t) (Lease c) j" and
      ?d = "d\<lparr>jobs := update_where (owned i (WorkerName c)) (renew_set (quiet t) (Lease c)) (jobs d)\<rparr>"
    have r: "RenewLease (quiet t) i (WorkerName c) (Lease c) d = (Inr ?j, ?d)"
      using RenewLease_quiet [OF ji Cons.prems(2), of t "WorkerName c" "Lease c"] Cons.prems(3,4) by simp
    then have "renewLoop c k i (beats sv (b # ts)) d = renewLoop c k i (beats sv ts) ?d"
      using client_RenewLease_eq [OF assms(1,2) pos assms(3), of "quiet t" d]
      by (simp add: beats_def Some client_result_def)
    moreover have "db_inv ?d"
      using guar_RenewLease [OF session_ok_quiet Cons.prems(1), of t i "WorkerName c" "Lease c"] r
      by (simp add: guar_def)
    moreover have "?j \<in> set (jobs ?d)" using Cons.prems by (auto simp: set_update_where)
    moreover have "ID ?j = i" "owned i (WorkerName c) ?j"
      using Cons.prems(3,4) by (simp_all add: renew_set_def owned_def)
    ultimately show ?thesis
      using Cons.IH [of ?d ?j] by (simp add: Some lease_after_def renew_set_def)
  qed
qed

lemma renewLoop_lost:
  assumes "paired c k sv" "lease_granted c k sv n" "int64_ok (ID j)" "db_inv d" "j \<in> set (jobs d)"
    "\<not> owned (ID j) (WorkerName c) j"
  shows "renewLoop c k (ID j) (beats sv ts) d = (if set ts \<subseteq> {None} then RenewGoing else LeaseLost, d)"
proof (induction ts)
  case (Cons b ts)
  have ji: "jobs_inv d" using assms(4) by (simp add: db_inv_def)
  have pos: "0 < ID j" using jobs_invD(1) [OF ji assms(5)] .
  show ?case
  proof (cases b)
    case None
    obtain e where "client_RenewLease (client_of c) k (dead ''timeout'') (ID j) (WorkerName c) (Lease c) d = (Inl (CErrOther e), d)"
      by (rule exE [OF client_RenewLease_dead [OF pos]])
    with Cons.IH None show ?thesis by (simp add: beats_def)
  next
    case (Some t)
    then show ?thesis
      using client_RenewLease_eq [OF assms(1,2) pos assms(3), of "quiet t" d] assms(6)
        RenewLease_quiet [OF ji assms(5), of t "WorkerName c" "Lease c"]
      by (simp add: beats_def client_result_def code_defs)
  qed
qed (simp add: beats_def)

text \<open>
  C21. While a worker runs a job, whatever renewals are lost on the way: if it owns the job it is never told to stop, and the lease
  runs from the last renewal that got through; if it does not own the job any more, the first
  renewal that gets through cancels the command, and the tables are untouched.
\<close>

theorem renewal_keeps_or_abandons:
  assumes "paired c k sv" "lease_granted c k sv n" "int64_ok (ID j)" "db_inv d" "j \<in> set (jobs d)"
  shows "(owned (ID j) (WorkerName c) j \<longrightarrow>
      (\<exists>d' j'. renewLoop c k (ID j) (beats sv ts) d = (RenewGoing, d') \<and> j' \<in> set (jobs d') \<and> ID j' = ID j \<and>
         owned (ID j) (WorkerName c) j' \<and> LeaseUntil j' = lease_after (Lease c) ts (LeaseUntil j))) \<and>
    (\<not> owned (ID j) (WorkerName c) j \<longrightarrow>
       renewLoop c k (ID j) (beats sv ts) d = (if set ts \<subseteq> {None} then RenewGoing else LeaseLost, d))"
  using renewLoop_held [OF assms(1-5) refl] renewLoop_lost [OF assms] by blast

theorem renewal_keeps_or_abandons_witness:
  "renewLoop demo_wconfig demo_codec 1 (beats demo_server [None, Some 50, Some 60]) demo_db = (LeaseLost, demo_db)"
proof -
  let ?j = "demo_job 1 StatusRunning 1 (Some ''w1'') (Some 100)"
  have len: "object_len demo_codec (claim_body ''w2'' 30) = 37" by code_simp
  have "paired demo_wconfig demo_codec demo_server"
    using plain_w2 by (simp add: paired_def demo_wconfig_def)
  moreover have "lease_granted demo_wconfig demo_codec demo_server 30"
    using len by (simp add: lease_granted_def demo_wconfig_def Second_def)
  moreover have "?j \<in> set (jobs demo_db)" "ID ?j = 1" "\<not> owned 1 ''w2'' ?j"
    by (simp_all add: demo_db_def demo_job_def owned_def)
  ultimately show ?thesis
    using renewal_keeps_or_abandons [of demo_wconfig demo_codec demo_server 30 ?j demo_db "[None, Some 50, Some 60]"]
      demo_inv
    by (simp add: int64_ok_def demo_wconfig_def)
qed

end
