(* ===== verification/Worker_Props.thy ===== *)
theory Worker_Props
  imports Worker_Renew
begin

text \<open>
  Processing one job, from the command's exit down to the tables: a lost acknowledgement is made good by the
  retry without a second effect; output the database refuses is never stored.
\<close>

section \<open>A lost acknowledgement\<close>

text \<open>A database whose commit takes effect although the client sees the connection break.\<close>

definition lost_commit :: "timestamp \<Rightarrow> session" where
  "lost_commit t = (quiet t)\<lparr>fault := (\<lambda>c. if c = Commit then Some ''connection reset'' else None), lost_ack := True\<rparr>"

lemma lost_commit_simps [simp]:
  "now (lost_commit t) = t" "lost_ack (lost_commit t)" "bind_ok (lost_commit t) xs"
  "fault (lost_commit t) c = (if c = Commit then Some ''connection reset'' else None)"
  by (simp_all add: lost_commit_def quiet_def bind_ok_def list_all_iff)

lemma done_worker_set_now: "now s = now s' \<Longrightarrow> done_worker_set s = done_worker_set s'"
  by (simp add: done_worker_set_def fun_eq_iff)

lemma complete_set_now: "now s = now s' \<Longrightarrow> complete_set s w res = complete_set s' w res"
  by (simp add: complete_set_def fun_eq_iff)

lemma Complete_lost_commit:
  assumes "owned i w j" "find (owned i w) (jobs d) = Some j" "exit_ok (ExitCode res)"
  shows "Complete (lost_commit t) i w res d =
    (Inl (ErrDB ''connection reset''), snd (Complete (quiet t) i w res d))"
    "Complete (quiet t) i w res d =
      (Inr (complete_set (quiet t) w res j), reported_db (quiet t) (complete_set (quiet t) w res) i w d)"
proof -
  have now: "now (lost_commit t) = now (quiet t)" by simp
  show q: "Complete (quiet t) i w res d =
      (Inr (complete_set (quiet t) w res j), reported_db (quiet t) (complete_set (quiet t) w res) i w d)"
    using assms(2,3)
    by (simp add: Complete_def finish_def settle_def withTx_no_faults report_tx_def reported_db_def Let_def)
  show "Complete (lost_commit t) i w res d =
    (Inl (ErrDB ''connection reset''), snd (Complete (quiet t) i w res d))"
    unfolding q using assms(2,3)
    by (simp add: Complete_def finish_def settle_def withTx_def autocommit_def report_tx_def reported_db_def
        Let_def complete_set_now [OF now] done_worker_set_now [OF now])
qed

lemma completed_replay:
  assumes "jobs_inv d" "j \<in> set (jobs d)" "Status j = StatusCompleted" "WorkerID j = Some w"
    "exit_ok (ExitCode res)"
  shows "Complete (quiet t) (ID j) w res d = (Inr j, d)"
proof -
  have "\<not> owned (ID j) w j" using assms(3) by (simp add: owned_def)
  note r = not_owned_report(2) [OF this assms(1,2) refl]
  show ?thesis
    using assms(3-5) Get_row [OF assms(1,2), of "quiet t"]
    by (simp add: Complete_def finish_def r settle_def replayOrConflict_def Let_def)
qed

definition sendable :: "WConfig \<Rightarrow> codec \<Rightarrow> Server \<Rightarrow> ExecResult \<Rightarrow> bool" where
  "sendable c k sv r \<longleftrightarrow>
     result_fits r \<and> int (object_len k (complete_body (WorkerName c) r)) \<le> MaxRequestBytes (cfg sv)"

text \<open>The command ran to success, and the tables when its renewals are over.\<close>

definition succeeds :: "WConfig \<Rightarrow> codec \<Rightarrow> 'st surroundings \<Rightarrow> Job \<Rightarrow> 'st \<Rightarrow> ExecResult \<Rightarrow> 'st \<Rightarrow> bool" where
  "succeeds c k env job st res st1 \<longleftrightarrow>
     (case renewLoop c k (ID job) (renewals env) st of (renewed, st') \<Rightarrow>
        st' = st1 \<and> execute c (shell_of env (renewed = LeaseLost)) job = (res, None))"

lemma process_success:
  assumes "succeeds c k env job st res st1"
  shows "process c k env job st =
    report (\<lambda>n. client_Complete (client_of c) k (net_at env n) (ID job) (WorkerName c) res)
      (report_gone env) st1"
  using assms by (auto simp: process_def succeeds_def)

lemma worker_Complete_eq:
  assumes "paired c k sv" "sendable c k sv res" "0 < i" "int64_ok i"
  shows "client_Complete (client_of c) k (server_net sv s) i (WorkerName c) res d =
    client_result (Complete s i (WorkerName c) (stored_result res []) d)"
  using assms by (intro client_Complete_eq) (auto simp: paired_def sendable_def NewClient_def)

text \<open>
  C22. A completion whose first acknowledgement is lost (the commit took effect, the worker saw an error) is sent again, answered
  as the replay it is, and counted as delivered; the tables are exactly those after one
  completion, with the attempt counted once for the worker.
\<close>

theorem lost_ack_completes_once:
  assumes "paired c k sv" "succeeds c k env job d0 res d" "sendable c k sv res"
    "exit_ok (ExExitCode res)" "db_inv d" "j \<in> set (jobs d)" "ID job = ID j" "int64_ok (ID j)"
    "Status j = StatusRunning" "WorkerID j = Some (WorkerName c)"
    "net_at env 1 = server_net sv (lost_commit t)" "net_at env 2 = server_net sv (quiet t2)" "\<not> report_gone env 1"
  shows "process c k env job d0 =
    (Reported, [250 * Millisecond], snd (Complete (quiet t) (ID j) (WorkerName c) (stored_result res []) d))"
proof -
  let ?w = "WorkerName c" and ?res = "stored_result res []"
  have ji: "jobs_inv d" using assms(5) by (simp add: db_inv_def)
  have pos: "0 < ID j" using jobs_invD(1) [OF ji assms(6)] .
  have own: "owned (ID j) ?w j" using assms(9,10) by (simp add: owned_def)
  have fnd: "find (owned (ID j) ?w) (jobs d) = Some j" using find_owned [OF ji assms(6)] own by simp
  have ex: "exit_ok (ExitCode ?res)" using assms(4) by (simp add: stored_result_def)
  note lost = Complete_lost_commit [OF own fnd ex, of t]
  let ?j' = "complete_set (quiet t) ?w ?res j" and ?d' = "snd (Complete (quiet t) (ID j) ?w ?res d)"
  have "jobs_inv ?d'" using guar_Complete [OF session_ok_quiet assms(5)] by (simp add: guar_def db_inv_def)
  moreover have "?j' \<in> set (jobs ?d')"
    using assms(6) own unfolding lost(2) by (auto simp: reported_db_def set_update_where)
  ultimately have replay: "Complete (quiet t2) (ID ?j') ?w ?res ?d' = (Inr ?j', ?d')"
    using ex by (intro completed_replay) (auto simp: complete_set_def)
  have id: "ID ?j' = ID j" by (simp add: complete_set_def)
  note client = worker_Complete_eq [OF assms(1,3) pos assms(8)]
  show ?thesis
    unfolding process_success [OF assms(2)] report_def
    using assms(7,11-13) client [of "lost_commit t" d] client [of "quiet t2" ?d'] lost(1) replay id
    by (simp add: numeral_eq_Suc client_result_def)
qed

definition ok_process :: process where
  "ok_process = \<lparr>out_writes = [''hi''], err_writes = [], run_end = RunOk, deadline_hit = False, elapsed = 7000000\<rparr>"

definition flaky_env :: "db surroundings" where
  "flaky_env = \<lparr>renewals = [], shell_of = (\<lambda>_ _ _. ok_process), shutting_down = False,
     net_at = (\<lambda>n. server_net demo_server (if n = 1 then lost_commit 50 else quiet 60)), report_gone = (\<lambda>_. False)\<rparr>"

theorem lost_ack_completes_once_witness:
  "\<exists>d'. process (demo_wconfig\<lparr>WorkerName := ''w1''\<rparr>) demo_codec flaky_env
      (demo_job 1 StatusRunning 1 (Some ''w1'') (Some 100)) demo_db = (Reported, [250 * Millisecond], d') \<and>
    map JobsProcessed (workers d') = [1, 0]"
proof -
  let ?c = "demo_wconfig\<lparr>WorkerName := ''w1''\<rparr>" and ?j = "demo_job 1 StatusRunning 1 (Some ''w1'') (Some 100)"
  have ex: "succeeds ?c demo_codec flaky_env ?j demo_db demo_exec demo_db"
    by (simp add: succeeds_def execute_def demo_job_def TypeShell_def ExecuteShell_def flaky_env_def ok_process_def Let_def
        bb_String_def bb_Write_def bb_new_def MaxOutputBytes_def wrap64_def demo_exec_def)
  have len: "object_len demo_codec (complete_body ''w1'' demo_exec) = 74" by code_simp
  have "plain_worker ''w1''" unfolding plain_worker_def by code_simp
  then have pa: "paired ?c demo_codec demo_server" by (simp add: paired_def demo_wconfig_def)
  have se: "sendable ?c demo_codec demo_server demo_exec"
    using len by (simp add: sendable_def result_fits_def demo_exec_def exec_DurationMS_def int64_ok_def)
  have j: "?j \<in> set (jobs demo_db)" by (simp add: demo_db_def)
  have "map JobsProcessed (workers (snd (Complete (quiet 50) 1 ''w1'' (stored_result demo_exec []) demo_db))) = [1, 0]"
    by (simp add: Complete_def finish_def settle_def withTx_no_faults report_tx_def owned_def exit_ok_def
        done_worker_set_def stored_result_def demo_exec_def int4_ok_def demo_defs)
  with lost_ack_completes_once [OF pa ex se _ demo_inv j refl, of 50 60] show ?thesis
    by (simp add: flaky_env_def demo_exec_def exit_ok_def int4_ok_def int64_ok_def demo_job_def)
qed

section \<open>Output the database refuses\<close>

lemma report_all_500:
  assumes "\<And>n. call n st = (Inl (CAPIError 500 code msg), st)" "\<And>n. \<not> gone n"
  shows "report_loop call gone n left wait st = (GaveUp, map (\<lambda>i. wait * 2 ^ i) [0..<left], st)"
proof (induction left arbitrary: n wait)
  case (Suc left)
  have "map (\<lambda>i. wait * 2 ^ i) [0..<Suc left] = wait # map (\<lambda>i. wait * 2 * 2 ^ i) [0..<left]"
    by (simp add: map_upt_Suc del: upt_Suc)
  with Suc assms show ?case by (simp del: upt_Suc)
qed simp

lemma Complete_refused:
  assumes "no_faults s" "\<not> text_ok s (TruncateOutput (Stdout res))"
  shows "Complete s i w res d = (Inl bad_text, d)"
  using assms
  by (simp add: Complete_def finish_def settle_def withTx_no_faults report_tx_def bind_ok_def bad_text_def)

text \<open>
  C23. A job that ran to success but whose output, cut to the cap, is text the database does not accept is never marked
  completed: every one of the four reports is answered 500, the worker gives up, and the
  tables are untouched, so the job stays RUNNING until its lease expires and is run again.
\<close>

theorem refused_output_never_completes:
  assumes "paired c k sv" "succeeds c k env job d0 res d" "sendable c k sv res"
    "0 < ID job" "int64_ok (ID job)"
    "\<And>n. net_at env n = server_net sv s" "\<And>n. \<not> report_gone env n" "no_faults s"
    "\<not> text_ok s (TruncateOutput (to_valid (ExStdout res)))"
  shows "process c k env job d0 =
    (GaveUp, [250 * Millisecond, 500 * Millisecond, 1000 * Millisecond, 2000 * Millisecond], d)"
proof -
  have "Complete s (ID job) (WorkerName c) (stored_result res []) d = (Inl bad_text, d)"
    using assms(8,9) by (intro Complete_refused) (auto simp: stored_result_def)
  then have "client_Complete (client_of c) k (net_at env n) (ID job) (WorkerName c) res d =
      (Inl (CAPIError 500 CodeInternal ''internal server error''), d)" for n
    using worker_Complete_eq [OF assms(1,3,4,5), of s d] assms(6)
    by (simp add: client_result_def bad_text_def)
  then show ?thesis
    unfolding process_success [OF assms(2)] report_def
    using assms(7) by (subst report_all_500) (auto simp: upt_rec Millisecond_def)
qed

definition nul_process :: process where
  "nul_process = \<lparr>out_writes = [[CHR 0x00]], err_writes = [], run_end = RunOk, deadline_hit = False, elapsed = 0\<rparr>"

definition nul_session :: session where
  "nul_session = (quiet 50)\<lparr>text_ok := (\<lambda>x. CHR 0x00 \<notin> set x)\<rparr>"

definition nul_env :: "db surroundings" where
  "nul_env = \<lparr>renewals = [], shell_of = (\<lambda>_ _ _. nul_process), shutting_down = False,
     net_at = (\<lambda>_. server_net demo_server nul_session), report_gone = (\<lambda>_. False)\<rparr>"

text \<open>A command that prints one NUL byte, which PostgreSQL accepts in no text.\<close>

theorem refused_output_never_completes_witness:
  "fst (process demo_wconfig demo_codec nul_env (demo_job 2 StatusRunning 1 (Some ''w2'') (Some 100)) demo_db) = GaveUp"
proof -
  let ?res = "\<lparr>ExStdout = [CHR 0x00], ExStderr = [], ExExitCode = Some 0, ExDuration = 0\<rparr>"
  have ex: "succeeds demo_wconfig demo_codec nul_env (demo_job 2 StatusRunning 1 (Some ''w2'') (Some 100)) demo_db ?res demo_db"
    by (simp add: succeeds_def execute_def demo_job_def TypeShell_def ExecuteShell_def nul_env_def nul_process_def Let_def
        bb_String_def bb_Write_def bb_new_def MaxOutputBytes_def wrap64_def)
  have len: "object_len demo_codec (complete_body ''w2'' ?res) = 78" by code_simp
  have v: "to_valid [CHR 0x00] = [CHR 0x00]" by code_simp
  have pa: "paired demo_wconfig demo_codec demo_server"
    using plain_w2 by (simp add: paired_def demo_wconfig_def)
  have se: "sendable demo_wconfig demo_codec demo_server ?res"
    using len by (simp add: sendable_def demo_wconfig_def result_fits_def exec_DurationMS_def int64_ok_def)
  have nf: "no_faults nul_session" by (simp add: no_faults_def nul_session_def quiet_def)
  have tx: "\<not> text_ok nul_session (TruncateOutput (to_valid (ExStdout ?res)))"
    by (simp add: v nul_session_def TruncateOutput_def MaxResultBytes_def)
  from refused_output_never_completes [OF pa ex se _ _ _ _ nf tx] show ?thesis
    by (simp add: nul_env_def demo_job_def int64_ok_def)
qed

text \<open>
  Nor does valid output fare better when the cap falls inside a character: 32767 bytes of ASCII and a two-byte character
  give the worker half a character, JSON turns that half into the three bytes of U+FFFD, and the server's cap keeps the first of them.
\<close>

lemma split_character_refused:
  "\<not> utf8_valid (TruncateOutput (to_valid
      (bb_String (bb_writes [replicate 32767 CHR ''a'' @ [CHR 0xC3, CHR 0xA9]] (bb_new MaxOutputBytes)))))"
proof -
  have a: "byte_in 0 0x7F CHR ''a''" by code_simp
  let ?note = "CHR 0x0A # ''...[truncated, '' @ FormatInt 32769 @ '' bytes total]''"
  have s: "bb_String (bb_writes [replicate 32767 CHR ''a'' @ [CHR 0xC3, CHR 0xA9]] (bb_new MaxOutputBytes)) =
      replicate 32767 CHR ''a'' @ CHR 0xC3 # ?note"
    by (simp add: bb_Write_def bb_new_def bb_String_def MaxOutputBytes_def Let_def wrap64_def del: replicate.simps)
  have "rune_len (CHR 0xC3 # ?note) = 0" by (simp add: rune_len.simps(2) byte_in_def)
  then have v: "to_valid (CHR 0xC3 # ?note) = CHR 0xEF # CHR 0xBF # CHR 0xBD # to_valid ?note"
    by (simp add: to_valid.simps(2))
  have "\<not> utf8_valid (CHR 0xEF # CHR 0x0A # ''...[truncated]'')" by code_simp
  then show ?thesis
    unfolding s to_valid_replicate_ascii [OF a] v
    by (simp add: TruncateOutput_def MaxResultBytes_def utf8_valid_replicate_ascii [OF a] del: replicate.simps)
qed

end
