(* ===== verification/Go_Flag.thy ===== *)
theory Go_Flag
  imports Go_Lib
begin

text \<open>
  The \<open>flag\<close> package as the commands use it: a flag set is a list of names, each with how it stores its
  value; parsing stops at the first argument that is not a flag.
\<close>

section \<open>Flag sets\<close>

text \<open>A boolean flag, or one with a value: how the value's text is stored, or the parse error.\<close>

datatype 'a flag = BoolFlag "bool \<Rightarrow> 'a \<Rightarrow> 'a" | ValueFlag "string \<Rightarrow> 'a \<Rightarrow> string + 'a"

type_synonym 'a FlagSet = "(string \<times> 'a flag) list"

definition StringFlag :: "(string \<Rightarrow> 'a \<Rightarrow> 'a) \<Rightarrow> 'a flag" where
  "StringFlag put = ValueFlag (\<lambda>v a. Inr (put v a))"

definition ParsedFlag :: "(string \<Rightarrow> string + 'v) \<Rightarrow> ('v \<Rightarrow> 'a \<Rightarrow> 'a) \<Rightarrow> 'a flag" where
  "ParsedFlag rd put = ValueFlag (\<lambda>v a. case rd v of Inl e \<Rightarrow> Inl e | Inr x \<Rightarrow> Inr (put x a))"

definition ParseBool :: "string \<Rightarrow> bool option" where
  "ParseBool s =
     (if s \<in> {''1'', ''t'', ''T'', ''TRUE'', ''true'', ''True''} then Some True
      else if s \<in> {''0'', ''f'', ''F'', ''FALSE'', ''false'', ''False''} then Some False
      else None)"

section \<open>Parsing\<close>

text \<open>The name and value of a flag argument, without its dashes: the value after the first \<open>=\<close> that is not in front.\<close>

fun cut_value :: "string \<Rightarrow> string \<times> string option" where
  "cut_value [] = ([], None)"
| "cut_value (c # cs) =
     (let (n, r) = (takeWhile (\<lambda>x. x \<noteq> CHR ''='') cs, dropWhile (\<lambda>x. x \<noteq> CHR ''='') cs)
      in (c # n, if r = [] then None else Some (tl r)))"

text \<open>One argument: the end of the flags (with the arguments left), an error, or the value stored.\<close>

datatype 'a one = NoFlag "string list" | FlagError string | FlagSet 'a "string list"

definition set_bool :: "(bool \<Rightarrow> 'a \<Rightarrow> 'a) \<Rightarrow> string \<Rightarrow> string option \<Rightarrow> string list \<Rightarrow> 'a \<Rightarrow> 'a one" where
  "set_bool put name val args a =
     (case val of
        None \<Rightarrow> FlagSet (put True a) args
      | Some v \<Rightarrow>
          (case ParseBool v of
             None \<Rightarrow> FlagError (''invalid boolean value '' @ Quote v @ '' for -'' @ name @ '': parse error'')
           | Some b \<Rightarrow> FlagSet (put b a) args))"

definition set_value ::
  "(string \<Rightarrow> 'a \<Rightarrow> string + 'a) \<Rightarrow> string \<Rightarrow> string option \<Rightarrow> string list \<Rightarrow> 'a \<Rightarrow> 'a one" where
  "set_value put name val args a =
     (case (case val of Some v \<Rightarrow> Some (v, args) | None \<Rightarrow> (case args of [] \<Rightarrow> None | v # r \<Rightarrow> Some (v, r))) of
        None \<Rightarrow> FlagError (''flag needs an argument: -'' @ name)
      | Some (v, r) \<Rightarrow>
          (case put v a of
             Inl e \<Rightarrow> FlagError (''invalid value '' @ Quote v @ '' for flag -'' @ name @ '': '' @ e)
           | Inr a' \<Rightarrow> FlagSet a' r))"

definition named_flag :: "'a FlagSet \<Rightarrow> string \<Rightarrow> string \<Rightarrow> string list \<Rightarrow> 'a \<Rightarrow> 'a one" where
  "named_flag fs s word args a =
     (if word = [] \<or> hd word = CHR ''-'' \<or> hd word = CHR ''='' then FlagError (''bad flag syntax: '' @ s)
      else case cut_value word of (name, val) \<Rightarrow>
        (case map_of fs name of
           None \<Rightarrow>
             if name = ''help'' \<or> name = ''h'' then FlagError ''flag: help requested''
             else FlagError (''flag provided but not defined: -'' @ name)
         | Some (BoolFlag put) \<Rightarrow> set_bool put name val args a
         | Some (ValueFlag put) \<Rightarrow> set_value put name val args a))"

definition parse_one :: "'a FlagSet \<Rightarrow> string list \<Rightarrow> 'a \<Rightarrow> 'a one" where
  "parse_one fs args a =
     (case args of
        [] \<Rightarrow> NoFlag []
      | s # r \<Rightarrow>
          if length s < 2 \<or> s ! 0 \<noteq> CHR ''-'' then NoFlag args
          else if s ! 1 = CHR ''-''
          then (if length s = 2 then NoFlag r else named_flag fs s (drop 2 s) r a)
          else named_flag fs s (drop 1 s) r a)"

lemma named_flag_shorter: "named_flag fs s word args a = FlagSet a' r \<Longrightarrow> length r \<le> length args"
  by (auto simp: named_flag_def set_bool_def set_value_def
      split: if_splits prod.splits option.splits flag.splits list.splits sum.splits)

lemma parse_one_shorter: "parse_one fs args a = FlagSet a' r \<Longrightarrow> length r < length args"
  by (auto simp: parse_one_def dest!: named_flag_shorter split: list.splits if_splits)

function Parse :: "'a FlagSet \<Rightarrow> string list \<Rightarrow> 'a \<Rightarrow> string + ('a \<times> string list)" where
  "Parse fs args a =
     (case parse_one fs args a of
        NoFlag r \<Rightarrow> Inr (a, r)
      | FlagError e \<Rightarrow> Inl e
      | FlagSet a' r \<Rightarrow> Parse fs r a')"
  by pat_completeness auto

termination Parse
  by (relation "measure (\<lambda>(fs, args, a). length args)") (auto dest: parse_one_shorter)

declare Parse.simps [simp del]

section \<open>Facts\<close>

text \<open>An argument that does not start with a dash ends the flags, whatever follows it.\<close>

lemma parse_one_positional: "s = [] \<or> hd s \<noteq> CHR ''-'' \<Longrightarrow> parse_one fs (s # r) a = NoFlag (s # r)"
  by (cases s) (auto simp: parse_one_def)

lemma Parse_positional: "s = [] \<or> hd s \<noteq> CHR ''-'' \<Longrightarrow> Parse fs (s # r) a = Inr (a, s # r)"
  by (subst Parse.simps) (simp add: parse_one_positional)

lemma Parse_Nil [simp]: "Parse fs [] a = Inr (a, [])"
  by (subst Parse.simps) (simp add: parse_one_def)

end
