(* ===== verification/Cli.thy ===== *)
theory Cli
  imports Worker_Client Go_Flag
begin

text \<open>
  The command line client (\<open>cmd/queue\<close>): flags, dispatch, the API call, the subcommands, waiting for a
  terminal state, and the text it prints. What comes from outside is a record: the environment variables, the network
  (by server URL), the clock, the rendering of times and of JSON, and the number syntax of the flag package.
\<close>

section \<open>Helpers\<close>

definition strVal :: "string option \<Rightarrow> string \<Rightarrow> string" where
  "strVal p d = (case p of None \<Rightarrow> d | Some s \<Rightarrow> if s = [] then d else s)"

text \<open>None is the panic of a slice with a negative bound.\<close>

definition truncate_text :: "string \<Rightarrow> int \<Rightarrow> string option" where
  "truncate_text s0 n =
     (let s = map (\<lambda>c. if c = CHR 0x0A then CHR '' '' else c) s0 in
      if int (length s) \<le> n then Some s
      else if n - 3 < 0 then None
      else Some (take (nat (n - 3)) s @ ''...''))"

definition ensureNewline :: "string \<Rightarrow> string" where
  "ensureNewline s = (if s \<noteq> [] \<and> last s = CHR 0x0A then s else s @ [CHR 0x0A])"

definition positionalID :: "string list \<Rightarrow> string + int" where
  "positionalID args =
     (case args of
        [] \<Rightarrow> Inl ''missing job id''
      | a # _ \<Rightarrow>
          (case ParseInt a of
             None \<Rightarrow> Inl (''invalid job id '' @ Quote a @ '': must be a positive integer'')
           | Some i \<Rightarrow>
               if i \<le> 0 then Inl (''invalid job id '' @ Quote a @ '': must be a positive integer'') else Inr i))"

definition TrimRight :: "char \<Rightarrow> string \<Rightarrow> string" where
  "TrimRight c s = rev (dropWhile (\<lambda>x. x = c) (rev s))"

section \<open>Requests\<close>

record 'st cli =
  getenv :: "string \<Rightarrow> string"
  codec_of :: codec
  time_text :: "timestamp \<Rightarrow> string"
  json_text :: "chunk \<Rightarrow> string"
  flag_int :: "string \<Rightarrow> string + int"
  flag_duration :: "string \<Rightarrow> string + int"
  wall :: timestamp
  web :: "string \<Rightarrow> 'st net"
  poll_web :: "nat \<Rightarrow> string \<Rightarrow> 'st net"
  late :: "nat \<Rightarrow> bool"

text \<open>
  One API call. The texts of the errors of \<open>net/url\<close> and \<open>encoding/json\<close> are not reproduced: \<open>parse url\<close> and
  \<open>decode response\<close> stand for them.
\<close>

definition request ::
  "'st cli \<Rightarrow> (string \<Rightarrow> 'st net) \<Rightarrow> string \<Rightarrow> string \<Rightarrow> string \<Rightarrow> (string \<times> json) list option \<Rightarrow> 'st \<Rightarrow>
   (string + chunk) \<times> 'st" where
  "request g wb server meth path bdy st =
     (let base = TrimRight (CHR ''/'') server; k = codec_of g;
          c = \<lparr>BaseURL = base, Token = getenv g ''QUEUE_AUTH_TOKEN''\<rparr>
      in case url_segs path of
        None \<Rightarrow> (Inl ''parse url'', st)
      | Some sg \<Rightarrow>
          (case wb base ((build_request c k meth sg bdy)\<lparr>query := query_of path\<rparr>) st of
             (NoReply m, st') \<Rightarrow> (Inl (''cannot reach queue server at '' @ server @ '': '' @ m), st')
           | (Reply code ch, st') \<Rightarrow>
               if code \<ge> 300
               then let err = fst (error_fields k ch);
                        msg = (if err = [] then TrimSpace (take (8 * 1024) (raw_text k ch)) else err)
                    in (Inl (''server returned '' @ FormatInt (int code) @ '': '' @ msg), st')
               else (Inr ch, st')))"

text \<open>A request whose reply is decoded into a job.\<close>

definition request_job ::
  "'st cli \<Rightarrow> (string \<Rightarrow> 'st net) \<Rightarrow> string \<Rightarrow> string \<Rightarrow> string \<Rightarrow> (string \<times> json) list option \<Rightarrow> 'st \<Rightarrow>
   (string + Job) \<times> 'st" where
  "request_job g wb server meth path bdy st =
     (case request g wb server meth path bdy st of
        (Inl e, st') \<Rightarrow> (Inl e, st')
      | (Inr (Json (JobBody j)), st') \<Rightarrow> (Inr j, st')
      | (Inr _, st') \<Rightarrow> (Inl ''decode response'', st'))"

section \<open>Waiting for a terminal state\<close>

text \<open>Poll \<open>n\<close>: the network then, and whether the deadline has passed after it.\<close>

partial_function (option) wait_terminal ::
  "'st cli \<Rightarrow> string \<Rightarrow> duration \<Rightarrow> job_id \<Rightarrow> nat \<Rightarrow> 'st \<Rightarrow> ((string + Job) \<times> 'st) option" where
  "wait_terminal g server timeout i n st =
     (case request_job g (poll_web g n) server ''GET'' (''/jobs/'' @ FormatInt i) None st of
        (Inl e, st') \<Rightarrow> Some (Inl e, st')
      | (Inr job, st') \<Rightarrow>
          if Status job = StatusCompleted \<or> Status job = StatusFailed \<or> Status job = StatusCanceled
          then Some (Inr job, st')
          else if late g n
          then Some (Inl (''job '' @ FormatInt i @ '' still '' @ status_text (Status job) @ '' after '' @
                          Duration_String timeout), st')
          else wait_terminal g server timeout i (Suc n) st')"

definition waitForTerminal ::
  "'st cli \<Rightarrow> string \<Rightarrow> job_id \<Rightarrow> duration \<Rightarrow> 'st \<Rightarrow> ((string + Job) \<times> 'st) option" where
  "waitForTerminal g server i timeout st = wait_terminal g server timeout i 0 st"

section \<open>Printing\<close>

definition printJob :: "(timestamp \<Rightarrow> string) \<Rightarrow> Job \<Rightarrow> string" where
  "printJob tm j =
     line (''ID:        '' @ FormatInt (ID j)) @
     line (''Status:    '' @ status_text (Status j)) @
     line (''Type:      '' @ Type j) @
     line (''Payload:   '' @ Payload j) @
     line (''Attempts:  '' @ FormatInt (Attempts j) @ ''/'' @ FormatInt (MaxAttempts j)) @
     line (''Worker:    '' @ strVal (WorkerID j) ''-'') @
     line (''Created:   '' @ tm (CreatedAt j)) @
     (case DurationMS j of None \<Rightarrow> [] | Some ms \<Rightarrow> line (''Duration:  '' @ FormatInt ms @ ''ms'')) @
     (case ResultExitCode j of None \<Rightarrow> [] | Some n \<Rightarrow> line (''Exit code: '' @ FormatInt n)) @
     (case LeaseUntil j of None \<Rightarrow> [] | Some t \<Rightarrow> line (''Lease:     until '' @ tm t)) @
     (if Status j = StatusPending \<and> Attempts j > 0 then line (''Retry at:  '' @ tm (AvailableAt j)) else []) @
     (if strVal (LastError j) [] \<noteq> [] then line (''Error:     '' @ strVal (LastError j) []) else []) @
     (if strVal (ResultStdout j) [] \<noteq> []
      then line ''--- stdout ---'' @ ensureNewline (strVal (ResultStdout j) []) else []) @
     (if strVal (ResultStderr j) [] \<noteq> []
      then line ''--- stderr ---'' @ ensureNewline (strVal (ResultStderr j) []) else [])"

definition list_row :: "Job \<Rightarrow> string option" where
  "list_row j =
     (case truncate_text (Payload j) 40 of
        None \<Rightarrow> None
      | Some p \<Rightarrow>
          Some (line (pad_right 6 (FormatInt (ID j)) @ '' '' @ pad_right 10 (status_text (Status j)) @ '' '' @
                pad_right 9 (FormatInt (Attempts j) @ ''/'' @ FormatInt (MaxAttempts j)) @ '' '' @
                pad_right 22 (strVal (WorkerID j) ''-'') @ '' '' @ p)))"

definition stats_text :: "(string \<rightharpoonup> int) \<Rightarrow> nat \<Rightarrow> nat \<Rightarrow> string" where
  "stats_text m total_w alive_w =
     line ''Jobs:'' @
     concat (map (\<lambda>st. line (''  '' @ pad_right 10 (status_text st @ '':'') @ '' '' @
                    FormatInt (case m (status_text st) of None \<Rightarrow> 0 | Some n \<Rightarrow> n))) all_statuses) @
     line (''Workers: '' @ FormatInt (int alive_w) @ '' alive / '' @ FormatInt (int total_w) @ '' total'')"

definition worker_line :: "timestamp \<Rightarrow> Worker \<Rightarrow> string" where
  "worker_line t w =
     (let current = (case CurrentJobID w of None \<Rightarrow> ''-'' | Some i \<Rightarrow> FormatInt i);
          ago = (t - LastHeartbeat w) * 1000;
          whole = sgn ago * (\<bar>ago\<bar> div Second) * Second
      in line (pad_right 26 (WID w) @ '' '' @ pad_right 8 (if Alive w then ''true'' else ''false'') @ '' '' @
           pad_right 10 (FormatInt (JobsProcessed w)) @ '' '' @ pad_right 11 current @ '' '' @
           Duration_String whole @ '' ago''))"

definition show_job :: "'st cli \<Rightarrow> bool \<Rightarrow> Job \<Rightarrow> string" where
  "show_job g asJSON j = (if asJSON then json_text g (Json (JobBody j)) else printJob (time_text g) j)"

section \<open>Flags\<close>

record common =
  fServer :: string
  fJSON :: bool

record submit_flags = common +
  fType :: string
  fPayload :: string
  fMaxAttempts :: int
  fWait :: bool
  fWaitFor :: duration

record list_flags = common +
  fStatus :: string
  fLimit :: int

definition commonFlags :: "('a common_scheme) FlagSet" where
  "commonFlags =
     [(''server'', StringFlag (\<lambda>v f. f\<lparr>fServer := v\<rparr>)), (''json'', BoolFlag (\<lambda>b f. f\<lparr>fJSON := b\<rparr>))]"

definition default_server :: "'st cli \<Rightarrow> string" where
  "default_server g =
     (if getenv g ''QUEUE_SERVER'' = [] then ''http://localhost:8080'' else getenv g ''QUEUE_SERVER'')"

definition common_defaults :: "'st cli \<Rightarrow> common" where
  "common_defaults g = \<lparr>fServer = default_server g, fJSON = False\<rparr>"

definition submit_defaults :: "'st cli \<Rightarrow> submit_flags" where
  "submit_defaults g = \<lparr>fServer = default_server g, fJSON = False, fType = TypeShell, fPayload = [],
     fMaxAttempts = 3, fWait = False, fWaitFor = 2 * Minute\<rparr>"

definition submitFlags :: "'st cli \<Rightarrow> submit_flags FlagSet" where
  "submitFlags g =
     [(''type'', StringFlag (\<lambda>v f. f\<lparr>fType := v\<rparr>)),
      (''payload'', StringFlag (\<lambda>v f. f\<lparr>fPayload := v\<rparr>)),
      (''max-attempts'', ParsedFlag (flag_int g) (\<lambda>v f. f\<lparr>fMaxAttempts := v\<rparr>)),
      (''wait'', BoolFlag (\<lambda>b f. f\<lparr>fWait := b\<rparr>)),
      (''wait-timeout'', ParsedFlag (flag_duration g) (\<lambda>v f. f\<lparr>fWaitFor := v\<rparr>))] @ commonFlags"

definition list_defaults :: "'st cli \<Rightarrow> list_flags" where
  "list_defaults g = \<lparr>fServer = default_server g, fJSON = False, fStatus = [], fLimit = 20\<rparr>"

definition listFlags :: "'st cli \<Rightarrow> list_flags FlagSet" where
  "listFlags g =
     [(''status'', StringFlag (\<lambda>v f. f\<lparr>fStatus := v\<rparr>)),
      (''limit'', ParsedFlag (flag_int g) (\<lambda>v f. f\<lparr>fLimit := v\<rparr>))] @ commonFlags"

section \<open>Subcommands\<close>

text \<open>
  What a command leaves: the text it printed and its error, if any (a non-zero exit). None: it waits forever.
\<close>

type_synonym 'st cmd_end = "(string \<times> string option) \<times> 'st"

definition submit_body :: "submit_flags \<Rightarrow> (string \<times> json) list" where
  "submit_body f =
     [(''max_attempts'', JInt (fMaxAttempts f)), (''payload'', jstr (fPayload f)), (''type'', jstr (fType f))]"

definition submit_waited :: "'st cli \<Rightarrow> submit_flags \<Rightarrow> Job \<Rightarrow> 'st \<Rightarrow> 'st cmd_end option" where
  "submit_waited g f job st =
     (case waitForTerminal g (fServer f) (ID job) (fWaitFor f) st of
        None \<Rightarrow> None
      | Some (Inl e, st') \<Rightarrow> Some (([], Some e), st')
      | Some (Inr final, st') \<Rightarrow>
          Some ((show_job g (fJSON f) final,
                 if fJSON f \<or> Status final = StatusCompleted then None
                 else Some (''job '' @ FormatInt (ID final) @ '' finished with status '' @
                            status_text (Status final))), st'))"

definition cmdSubmit :: "'st cli \<Rightarrow> string list \<Rightarrow> 'st \<Rightarrow> 'st cmd_end option" where
  "cmdSubmit g args st =
     (case Parse (submitFlags g) args (submit_defaults g) of
        Inl e \<Rightarrow> Some (([], Some e), st)
      | Inr (f, _) \<Rightarrow>
          if TrimSpace (fPayload f) = [] then Some (([], Some ''--payload is required''), st)
          else case request_job g (web g) (fServer f) ''POST'' ''/jobs'' (Some (submit_body f)) st of
            (Inl e, st1) \<Rightarrow> Some (([], Some e), st1)
          | (Inr job, st1) \<Rightarrow>
              if fWait f then submit_waited g f job st1
              else Some ((if fJSON f then json_text g (Json (JobBody job))
                          else line ''Job submitted successfully.'' @ line (''ID: '' @ FormatInt (ID job)) @
                               line (''Status: '' @ status_text (Status job)), None), st1))"

definition cmdGet :: "'st cli \<Rightarrow> string list \<Rightarrow> 'st \<Rightarrow> 'st cmd_end" where
  "cmdGet g args st =
     (case Parse commonFlags args (common_defaults g) of
        Inl e \<Rightarrow> (([], Some e), st)
      | Inr (f, left) \<Rightarrow>
        (case positionalID left of
           Inl e \<Rightarrow> (([], Some e), st)
         | Inr i \<Rightarrow>
             (case request_job g (web g) (fServer f) ''GET'' (''/jobs/'' @ FormatInt i) None st of
                (Inl e, st') \<Rightarrow> (([], Some e), st')
              | (Inr job, st') \<Rightarrow> ((show_job g (fJSON f) job, None), st'))))"

definition list_path :: "int \<Rightarrow> string \<Rightarrow> string" where
  "list_path limit status =
     ''/jobs?limit='' @ FormatInt limit @ (if status \<noteq> [] then ''&status='' @ ToUpper status else [])"

definition list_header :: string where
  "list_header = line (pad_right 6 ''ID'' @ '' '' @ pad_right 10 ''STATUS'' @ '' '' @ pad_right 9 ''ATTEMPTS'' @ '' '' @
     pad_right 22 ''WORKER'' @ '' PAYLOAD'')"

definition cmdList :: "'st cli \<Rightarrow> string list \<Rightarrow> 'st \<Rightarrow> 'st cmd_end" where
  "cmdList g args st =
     (case Parse (listFlags g) args (list_defaults g) of
        Inl e \<Rightarrow> (([], Some e), st)
      | Inr (f, _) \<Rightarrow>
        (case request g (web g) (fServer f) ''GET'' (list_path (fLimit f) (fStatus f)) None st of
           (Inl e, st') \<Rightarrow> (([], Some e), st')
         | (Inr (Json (JobsBody js)), st') \<Rightarrow>
             ((if fJSON f then json_text g (Json (JobsBody js))
               else if js = [] then line ''No jobs.''
               else list_header @ concat (map (\<lambda>j. case list_row j of None \<Rightarrow> [] | Some t \<Rightarrow> t) js), None), st')
         | (Inr _, st') \<Rightarrow> (([], Some ''decode response''), st')))"

definition cmdCancel :: "'st cli \<Rightarrow> string list \<Rightarrow> 'st \<Rightarrow> 'st cmd_end" where
  "cmdCancel g args st =
     (case Parse commonFlags args (common_defaults g) of
        Inl e \<Rightarrow> (([], Some e), st)
      | Inr (f, left) \<Rightarrow>
        (case positionalID left of
           Inl e \<Rightarrow> (([], Some e), st)
         | Inr i \<Rightarrow>
             (case request_job g (web g) (fServer f) ''POST'' (job_path i ''cancel'') (Some []) st of
                (Inl e, st') \<Rightarrow> (([], Some e), st')
              | (Inr job, st') \<Rightarrow>
                  ((if fJSON f then json_text g (Json (JobBody job))
                    else line (''Job '' @ FormatInt (ID job) @ '' canceled.''), None), st'))))"

definition workers_header :: string where
  "workers_header = line (pad_right 26 ''ID'' @ '' '' @ pad_right 8 ''ALIVE'' @ '' '' @ pad_right 10 ''PROCESSED'' @ '' '' @
     pad_right 11 ''CURRENT JOB'' @ '' LAST HEARTBEAT'')"

definition cmdWorkers :: "'st cli \<Rightarrow> string list \<Rightarrow> 'st \<Rightarrow> 'st cmd_end" where
  "cmdWorkers g args st =
     (case Parse commonFlags args (common_defaults g) of
        Inl e \<Rightarrow> (([], Some e), st)
      | Inr (f, _) \<Rightarrow>
        (case request g (web g) (fServer f) ''GET'' ''/workers'' None st of
           (Inl e, st') \<Rightarrow> (([], Some e), st')
         | (Inr (Json (WorkersBody ws)), st') \<Rightarrow>
             ((if fJSON f then json_text g (Json (WorkersBody ws))
               else if ws = [] then line ''No workers registered.''
               else workers_header @ concat (map (worker_line (wall g)) ws), None), st')
         | (Inr _, st') \<Rightarrow> (([], Some ''decode response''), st')))"

definition cmdStats :: "'st cli \<Rightarrow> string list \<Rightarrow> 'st \<Rightarrow> 'st cmd_end" where
  "cmdStats g args st =
     (case Parse commonFlags args (common_defaults g) of
        Inl e \<Rightarrow> (([], Some e), st)
      | Inr (f, _) \<Rightarrow>
        (case request g (web g) (fServer f) ''GET'' ''/stats'' None st of
           (Inl e, st') \<Rightarrow> (([], Some e), st')
         | (Inr (Json (StatsBody m total_w alive_w)), st') \<Rightarrow>
             ((if fJSON f then json_text g (Json (StatsBody m total_w alive_w))
               else stats_text m total_w alive_w, None), st')
         | (Inr _, st') \<Rightarrow> (([], Some ''decode response''), st')))"

section \<open>Dispatch\<close>

definition quoted :: "string \<Rightarrow> string" where
  "quoted s = CHR 0x22 # s @ [CHR 0x22]"

definition usage :: string where
  "usage = concat (map line
     [''queue - client for the QUEUE job queue'', [],
      ''Usage:'',
      ''  queue submit --type shell --payload '' @ quoted ''echo hello'' @ '' [--max-attempts 3] [--wait]'',
      ''  queue get <id>'',
      ''  queue list [--status pending] [--limit 20]'',
      ''  queue cancel <id>'',
      ''  queue workers'',
      ''  queue stats'', [],
      ''Global flags (may appear after the subcommand):'',
      ''  --server URL   queue server (default $QUEUE_SERVER or http://localhost:8080)'',
      ''  --json         print the raw JSON response'', [],
      ''Environment:'',
      ''  QUEUE_SERVER      default server URL'',
      ''  QUEUE_AUTH_TOKEN  bearer token, when the server requires one''])"

definition cli_run :: "'st cli \<Rightarrow> string list \<Rightarrow> 'st \<Rightarrow> 'st cmd_end option" where
  "cli_run g args st =
     (case args of
        [] \<Rightarrow> Some ((usage, Some ''no command given''), st)
      | cmd # opts \<Rightarrow>
          if cmd = ''submit'' then cmdSubmit g opts st
          else if cmd = ''get'' then Some (cmdGet g opts st)
          else if cmd = ''list'' then Some (cmdList g opts st)
          else if cmd = ''cancel'' then Some (cmdCancel g opts st)
          else if cmd = ''workers'' then Some (cmdWorkers g opts st)
          else if cmd = ''stats'' then Some (cmdStats g opts st)
          else if cmd \<in> {''help'', ''-h'', ''--help''} then Some ((usage, None), st)
          else Some ((usage, Some (''unknown command '' @ Quote cmd)), st))"

end
