(* ===== verification/Bench.thy ===== *)
theory Bench
  imports Worker_Client
begin

text \<open>
  The load generator (\<open>cmd/queue-bench\<close>): the HTTP call and its error type, the readings of the queue, the two
  modes with their phases, the claim race, the double-dispatch count with its verdict, and the printed table. Rates and
  timings are inputs; what is measured is not modelled, what is decided and printed from it is.
\<close>

section \<open>HTTP\<close>

record bench =
  server :: string
  token :: string
  payload_text :: string

datatype bench_error =
  HttpError string string nat string string | BenchOther string | BenchWrap string bench_error

fun bench_error_text :: "bench_error \<Rightarrow> string" where
  "bench_error_text (HttpError m p st c msg) = m @ '' '' @ p @ '': '' @ FormatInt (int st) @ '' '' @ c @ '': '' @ msg"
| "bench_error_text (BenchOther m) = m"
| "bench_error_text (BenchWrap m e) = m @ '': '' @ bench_error_text e"

text \<open>\<open>errors.As\<close> looks through the wrappers.\<close>

fun hasCode :: "bench_error \<Rightarrow> string \<Rightarrow> bool" where
  "hasCode (HttpError m p st c msg) code = (c = code)"
| "hasCode (BenchWrap m e) code = hasCode e code"
| "hasCode (BenchOther m) code = False"

definition bench_do ::
  "bench \<Rightarrow> codec \<Rightarrow> 'st net \<Rightarrow> string \<Rightarrow> string \<Rightarrow> (string \<times> json) list option \<Rightarrow> 'st \<Rightarrow>
   (bench_error + chunk) \<times> 'st" where
  "bench_do b k net meth path bdy st =
     (case url_segs path of
        None \<Rightarrow> (Inl (BenchOther ''parse url''), st)
      | Some sg \<Rightarrow>
          (case net ((build_request \<lparr>BaseURL = server b, Token = token b\<rparr> k meth sg bdy)\<lparr>query := query_of path\<rparr>) st of
             (NoReply m, st') \<Rightarrow> (Inl (BenchOther m), st')
           | (Reply code ch, st') \<Rightarrow>
               if code \<ge> 300
               then (case ch of
                       Json (ErrorBody msg ec) \<Rightarrow> (Inl (HttpError meth path code ec msg), st')
                     | _ \<Rightarrow> (Inl (HttpError meth path code [] []), st'))
               else (Inr ch, st')))"

abbreviation bench_get where
  "bench_get b k net path \<equiv> bench_do b k net ''GET'' path None"

abbreviation bench_post where
  "bench_post b k net path kvs \<equiv> bench_do b k net ''POST'' path (Some kvs)"

definition decode_error :: bench_error where
  "decode_error = BenchOther ''decode response''"

section \<open>Readings\<close>

definition count_of :: "(string \<rightharpoonup> int) \<Rightarrow> string \<Rightarrow> int" where
  "count_of m key = (case m key of None \<Rightarrow> 0 | Some n \<Rightarrow> n)"

text \<open>\<open>/stats\<close>: the job counts and the number of live workers.\<close>

definition statsResponse :: "bench \<Rightarrow> codec \<Rightarrow> 'st net \<Rightarrow> 'st \<Rightarrow> (bench_error + (string \<rightharpoonup> int) \<times> int) \<times> 'st" where
  "statsResponse b k net st =
     (case bench_get b k net ''/stats'' st of
        (Inl e, st') \<Rightarrow> (Inl e, st')
      | (Inr (Json (StatsBody m tot alive)), st') \<Rightarrow> (Inr (m, int alive), st')
      | (Inr _, st') \<Rightarrow> (Inl decode_error, st'))"

definition terminalCount :: "bench \<Rightarrow> codec \<Rightarrow> 'st net \<Rightarrow> 'st \<Rightarrow> (bench_error + int) \<times> 'st" where
  "terminalCount b k net st =
     (case statsResponse b k net st of
        (Inl e, st') \<Rightarrow> (Inl e, st')
      | (Inr (m, alive), st') \<Rightarrow>
          (Inr (wrap64 (count_of m ''COMPLETED'' + count_of m ''FAILED'' + count_of m ''CANCELED'')), st'))"

definition requireEmptyQueue :: "bench \<Rightarrow> codec \<Rightarrow> 'st net \<Rightarrow> 'st \<Rightarrow> bench_error option \<times> 'st" where
  "requireEmptyQueue b k net st =
     (case statsResponse b k net st of
        (Inl e, st') \<Rightarrow> (Some e, st')
      | (Inr (m, alive), st') \<Rightarrow>
          (let backlog = wrap64 (count_of m ''PENDING'' + count_of m ''RUNNING'') in
           if backlog > 0
           then (Some (BenchOther (FormatInt backlog @
                   '' job(s) still pending or running; let the queue drain first, or reset it with: make down ARGS=-v && make up'')), st')
           else (None, st')))"

definition aliveWorkers :: "bench \<Rightarrow> codec \<Rightarrow> 'st net \<Rightarrow> 'st \<Rightarrow> (bench_error + int) \<times> 'st" where
  "aliveWorkers b k net st =
     (case statsResponse b k net st of
        (Inl e, st') \<Rightarrow> (Inl e, st')
      | (Inr (m, alive), st') \<Rightarrow> (Inr alive, st'))"

definition benchWorkerPrefix :: string where
  "benchWorkerPrefix = ''bench-claimer-''"

definition foreignAliveWorkers :: "bench \<Rightarrow> codec \<Rightarrow> 'st net \<Rightarrow> 'st \<Rightarrow> (bench_error + int) \<times> 'st" where
  "foreignAliveWorkers b k net st =
     (case bench_get b k net ''/workers'' st of
        (Inl e, st') \<Rightarrow> (Inl e, st')
      | (Inr (Json (WorkersBody ws)), st') \<Rightarrow>
          (Inr (int (length (filter (\<lambda>w. Alive w \<and> \<not> HasPrefix (WID w) benchWorkerPrefix) ws))), st')
      | (Inr _, st') \<Rightarrow> (Inl decode_error, st'))"

text \<open>The durations the jobs report, and the one in the middle.\<close>

definition durations :: "Job list \<Rightarrow> int list" where
  "durations js = map the (filter (\<lambda>x. x \<noteq> None) (map DurationMS js))"

definition middle :: "int list \<Rightarrow> int" where
  "middle xs = sort xs ! (length xs div 2)"

definition medianDurationMS :: "bench \<Rightarrow> codec \<Rightarrow> 'st net \<Rightarrow> int \<Rightarrow> 'st \<Rightarrow> (bench_error + int) \<times> 'st" where
  "medianDurationMS b k net n0 st =
     (let n = (if n0 > 500 then 500 else n0) in
      case bench_get b k net (''/jobs?status=completed&limit='' @ FormatInt n) st of
        (Inl e, st') \<Rightarrow> (Inl e, st')
      | (Inr (Json (JobsBody js)), st') \<Rightarrow>
          (if durations js = [] then Inl (BenchOther ''no completed job reported a duration'')
           else Inr (middle (durations js)), st')
      | (Inr _, st') \<Rightarrow> (Inl decode_error, st'))"

section \<open>Pools of callers\<close>

text \<open>
  \<open>concurrency\<close> goroutines take calls from a channel; the server sees the calls one after the other, in some order. \<open>fire\<close> is
  given them in that order: how many succeed, and the first error. With no goroutine to receive, the first send blocks for ever:
  None.
\<close>

fun fire :: "('st \<Rightarrow> (bench_error + 'r) \<times> 'st) list \<Rightarrow> int \<Rightarrow> bench_error option \<Rightarrow> 'st \<Rightarrow> int \<times> bench_error option \<times> 'st" where
  "fire [] good failed st = (good, failed, st)"
| "fire (call # calls) good failed st =
     (case call st of
        (Inr _, st') \<Rightarrow> fire calls (good + 1) failed st'
      | (Inl e, st') \<Rightarrow> fire calls good (case failed of None \<Rightarrow> Some e | Some _ \<Rightarrow> failed) st')"

definition pool ::
  "int \<Rightarrow> ('st \<Rightarrow> (bench_error + 'r) \<times> 'st) list \<Rightarrow> 'st \<Rightarrow> (int \<times> bench_error option \<times> 'st) option" where
  "pool concurrency calls st =
     (if concurrency \<le> 0 \<and> calls \<noteq> [] then None else Some (fire calls 0 None st))"

definition submit_kvs :: "bench \<Rightarrow> (string \<times> json) list" where
  "submit_kvs b = [(''payload'', jstr (payload_text b)), (''type'', jstr ''shell'')]"

text \<open>A submission whose reply is decoded for the job's id.\<close>

definition bench_submit :: "bench \<Rightarrow> codec \<Rightarrow> 'st net \<Rightarrow> 'st \<Rightarrow> (bench_error + job_id) \<times> 'st" where
  "bench_submit b k net st =
     (case bench_post b k net ''/jobs'' (submit_kvs b) st of
        (Inl e, st') \<Rightarrow> (Inl e, st')
      | (Inr (Json (JobBody j)), st') \<Rightarrow> (Inr (ID j), st')
      | (Inr _, st') \<Rightarrow> (Inl decode_error, st'))"

section \<open>The table\<close>

definition printTable :: "(string \<times> string) list \<Rightarrow> string" where
  "printTable rows =
     (let width = foldl (\<lambda>w r. if length (fst r) > w then length (fst r) else w) 0 rows in
      line [] @ line (''| '' @ pad_right width ''Metric'' @ '' | Result |'') @
      line (''|'' @ replicate (width + 2) CHR ''-'' @ ''|--------|'') @
      concat (map (\<lambda>r. line (''| '' @ pad_right width (fst r) @ '' | '' @ snd r @ '' |'')) rows))"

section \<open>Pipeline mode\<close>

definition submitPhase ::
  "bench \<Rightarrow> codec \<Rightarrow> (nat \<Rightarrow> 'st net) \<Rightarrow> int \<Rightarrow> int \<Rightarrow> 'st \<Rightarrow> ((bench_error + int) \<times> 'st) option" where
  "submitPhase b k nets total_jobs concurrency st =
     map_option (\<lambda>(good, failed, st').
         (case failed of Some e \<Rightarrow> Inl (BenchWrap ''submit'' e) | None \<Rightarrow> Inr good, st'))
       (pool concurrency (map (\<lambda>i. bench_submit b k (nets i)) [0..<nat total_jobs]) st)"

text \<open>
  Waiting for the drain. Turn \<open>n\<close>: the network for the two readings, whether the deadline has passed, whether five seconds have
  passed since the workers were last looked at.
\<close>

record 'st drain_env =
  drain_net :: "nat \<Rightarrow> 'st net"
  drain_late :: "nat \<Rightarrow> bool"
  check_due :: "nat \<Rightarrow> bool"
  alive_net :: "nat \<Rightarrow> 'st net"
  median_net :: "'st net"

definition drain_late_msg :: "int \<Rightarrow> int \<Rightarrow> duration \<Rightarrow> string" where
  "drain_late_msg fin submitted timeout =
     ''only '' @ FormatInt fin @ ''/'' @ FormatInt submitted @ '' jobs finished within '' @ Duration_String timeout"

definition drain_dead_msg :: "int \<Rightarrow> int \<Rightarrow> string" where
  "drain_dead_msg fin submitted =
     ''every worker stopped heartbeating with '' @ FormatInt fin @ ''/'' @ FormatInt submitted @
     '' jobs finished; '' @ FormatInt (submitted - fin) @ '' are left in the queue''"

partial_function (option) drain_loop ::
  "bench \<Rightarrow> codec \<Rightarrow> 'st drain_env \<Rightarrow> int \<Rightarrow> int \<Rightarrow> duration \<Rightarrow> nat \<Rightarrow> 'st \<Rightarrow> (bench_error option \<times> 'st) option" where
  "drain_loop b k e baseline submitted timeout n st =
     (case terminalCount b k (drain_net e n) st of
        (Inl er, st1) \<Rightarrow> Some (Some er, st1)
      | (Inr fin, st1) \<Rightarrow>
          if fin - baseline \<ge> submitted then Some (None, st1)
          else if drain_late e n
          then Some (Some (BenchOther (drain_late_msg (fin - baseline) submitted timeout)), st1)
          else if check_due e n
          then (case aliveWorkers b k (alive_net e n) st1 of
                  (Inl er, st2) \<Rightarrow> Some (Some er, st2)
                | (Inr alive, st2) \<Rightarrow>
                    if alive = 0 then Some (Some (BenchOther (drain_dead_msg (fin - baseline) submitted)), st2)
                    else drain_loop b k e baseline submitted timeout (Suc n) st2)
          else drain_loop b k e baseline submitted timeout (Suc n) st1)"

definition drainPhase ::
  "bench \<Rightarrow> codec \<Rightarrow> 'st drain_env \<Rightarrow> int \<Rightarrow> int \<Rightarrow> duration \<Rightarrow> 'st \<Rightarrow> ((bench_error + int) \<times> 'st) option" where
  "drainPhase b k e baseline submitted timeout st =
     (case drain_loop b k e baseline submitted timeout 0 st of
        None \<Rightarrow> None
      | Some (Some er, st1) \<Rightarrow> Some (Inl er, st1)
      | Some (None, st1) \<Rightarrow> Some (medianDurationMS b k (median_net e) submitted st1))"

partial_function (option) awaitTerminal ::
  "bench \<Rightarrow> codec \<Rightarrow> (nat \<Rightarrow> 'st net) \<Rightarrow> (nat \<Rightarrow> bool) \<Rightarrow> job_id \<Rightarrow> duration \<Rightarrow> nat \<Rightarrow> 'st \<Rightarrow>
   (bench_error option \<times> 'st) option" where
  "awaitTerminal b k nets late_at i timeout n st =
     (case bench_get b k (nets n) (''/jobs/'' @ FormatInt i) st of
        (Inl e, st') \<Rightarrow> Some (Some e, st')
      | (Inr (Json (JobBody j)), st') \<Rightarrow>
          if Status j = StatusCompleted \<or> Status j = StatusFailed \<or> Status j = StatusCanceled then Some (None, st')
          else if late_at n
          then Some (Some (BenchOther (''job '' @ FormatInt i @ '' still '' @ status_text (Status j) @ '' after '' @
                 Duration_String timeout)), st')
          else awaitTerminal b k nets late_at i timeout (Suc n) st'
      | (Inr _, st') \<Rightarrow> Some (Some decode_error, st'))"

text \<open>One latency sample: the networks of its calls, its deadline, and the milliseconds it took.\<close>

record 'st sample =
  submit_net :: "'st net"
  await_nets :: "nat \<Rightarrow> 'st net"
  await_late :: "nat \<Rightarrow> bool"
  took_ms :: int

fun latency_loop ::
  "bench \<Rightarrow> codec \<Rightarrow> 'st sample list \<Rightarrow> int list \<Rightarrow> 'st \<Rightarrow> ((bench_error + int list) \<times> 'st) option" where
  "latency_loop b k [] ms st = Some (Inr ms, st)"
| "latency_loop b k (x # xs) ms st =
     (case bench_submit b k (submit_net x) st of
        (Inl e, st1) \<Rightarrow> Some (Inl (BenchWrap ''latency submit'' e), st1)
      | (Inr i, st1) \<Rightarrow>
          (case awaitTerminal b k (await_nets x) (await_late x) i (60 * Second) 0 st1 of
             None \<Rightarrow> None
           | Some (Some e, st2) \<Rightarrow> Some (Inl e, st2)
           | Some (None, st2) \<Rightarrow> latency_loop b k xs (ms @ [took_ms x]) st2))"

text \<open>\<open>latencyPhase\<close> with at least one sample: least, middle and greatest.\<close>

definition latencyPhase ::
  "bench \<Rightarrow> codec \<Rightarrow> 'st sample list \<Rightarrow> 'st \<Rightarrow> ((bench_error + int \<times> int \<times> int) \<times> 'st) option" where
  "latencyPhase b k xs st =
     map_option (\<lambda>(r, st').
         (case r of Inl e \<Rightarrow> Inl e | Inr ms \<Rightarrow> Inr (sort ms ! 0, middle ms, sort ms ! (length ms - 1)), st'))
       (latency_loop b k xs [] st)"

definition formatExecMS :: "int \<Rightarrow> string" where
  "formatExecMS ms =
     (if ms = 0 then ''<1 ms (no-op payload; process spawn dominates)'' else FormatInt ms @ '' ms'')"

record 'st pipeline_env =
  workers_net :: "'st net"
  empty_net :: "'st net"
  baseline_net :: "'st net"
  submit_nets :: "nat \<Rightarrow> 'st net"
  draining :: "'st drain_env"
  sampling :: "'st sample list"
  submit_rate :: string
  drain_rate :: string

definition latency_row :: "nat \<Rightarrow> int \<times> int \<times> int \<Rightarrow> string \<times> string" where
  "latency_row n l =
     (case l of (lo, med, hi) \<Rightarrow>
        (''Idle-pool latency, submit to terminal (n='' @ FormatInt (int n) @ '')'',
         FormatInt lo @ '' ms min / '' @ FormatInt med @ '' ms median / '' @ FormatInt hi @ '' ms max''))"

definition pipeline_rows :: "int \<Rightarrow> string \<Rightarrow> string \<Rightarrow> int \<Rightarrow> (string \<times> string) list" where
  "pipeline_rows concurrency srate drate ms =
     [(''Submit throughput ('' @ FormatInt concurrency @ '' connections)'', srate @ '' jobs/s''),
      (''End-to-end throughput'', drate @ '' jobs/s''),
      (''Job execution time (median)'', formatExecMS ms)]"

text \<open>
  \<open>run\<close>: the table it prints at the end, over the two rates as measured and formatted. The samples are those of the latency phase,
  which is left out without any. None: a phase that never ends.
\<close>

definition bench_run ::
  "bench \<Rightarrow> codec \<Rightarrow> 'st pipeline_env \<Rightarrow> int \<Rightarrow> int \<Rightarrow> duration \<Rightarrow> 'st \<Rightarrow>
   ((bench_error + string) \<times> 'st) option" where
  "bench_run b k e total_jobs concurrency timeout st0 =
     (case aliveWorkers b k (workers_net e) st0 of
        (Inl er, st1) \<Rightarrow> Some (Inl (BenchWrap (''cannot reach '' @ server b) er), st1)
      | (Inr n, st1) \<Rightarrow>
        if n = 0
        then Some (Inl (BenchOther (''no live workers registered at '' @ server b @
               ''; start some with: docker compose up -d --scale worker=5'')), st1)
        else case requireEmptyQueue b k (empty_net e) st1 of
          (Some er, st2) \<Rightarrow> Some (Inl er, st2)
        | (None, st2) \<Rightarrow>
          (case terminalCount b k (baseline_net e) st2 of
             (Inl er, st3) \<Rightarrow> Some (Inl er, st3)
           | (Inr baseline, st3) \<Rightarrow>
             (case submitPhase b k (submit_nets e) total_jobs concurrency st3 of
                None \<Rightarrow> None
              | Some (Inl er, st4) \<Rightarrow> Some (Inl er, st4)
              | Some (Inr submitted, st4) \<Rightarrow>
                (case drainPhase b k (draining e) baseline submitted timeout st4 of
                   None \<Rightarrow> None
                 | Some (Inl er, st5) \<Rightarrow> Some (Inl er, st5)
                 | Some (Inr ms, st5) \<Rightarrow>
                   let rows = pipeline_rows concurrency (submit_rate e) (drain_rate e) ms in
                   if sampling e = [] then Some (Inr (printTable rows), st5)
                   else map_option (\<lambda>(r, st6).
                          (case r of
                             Inl er \<Rightarrow> Inl er
                           | Inr l \<Rightarrow> Inr (printTable (rows @ [latency_row (length (sampling e)) l])), st6))
                          (latencyPhase b k (sampling e) st5)))))"

section \<open>Claim mode: one claimer\<close>

definition claimLease :: int where
  "claimLease = 600"

type_synonym claimRecord = "job_id \<times> worker_id"

definition claimOne :: "bench \<Rightarrow> codec \<Rightarrow> 'st net \<Rightarrow> worker_id \<Rightarrow> 'st \<Rightarrow> (bench_error + job_id option) \<times> 'st" where
  "claimOne b k net w st =
     (case bench_post b k net ''/jobs/claim'' [(''lease_seconds'', JInt claimLease), (''worker_id'', jstr w)] st of
        (Inr (Json (JobBody j)), st') \<Rightarrow> (Inr (Some (ID j)), st')
      | (Inr _, st') \<Rightarrow> (Inl decode_error, st')
      | (Inl e, st') \<Rightarrow>
          if hasCode e ''no_jobs_available'' then (Inr None, st') else (Inl e, st'))"

text \<open>The loop, over a single claim attempt: it stops after two empty answers in a row.\<close>

partial_function (option) claim_loop ::
  "('st \<Rightarrow> (bench_error + job_id option) \<times> 'st) \<Rightarrow> worker_id \<Rightarrow> claimRecord list \<Rightarrow> 'st \<Rightarrow>
   ((bench_error + claimRecord list) \<times> 'st) option" where
  "claim_loop one w out st =
     (case one st of
        (Inl e, st1) \<Rightarrow> Some (Inl e, st1)
      | (Inr (Some i), st1) \<Rightarrow> claim_loop one w (out @ [(i, w)]) st1
      | (Inr None, st1) \<Rightarrow>
          (case one st1 of
             (Inl e, st2) \<Rightarrow> Some (Inl e, st2)
           | (Inr None, st2) \<Rightarrow> Some (Inr out, st2)
           | (Inr (Some i), st2) \<Rightarrow> claim_loop one w (out @ [(i, w)]) st2))"

definition claimUntilEmpty ::
  "bench \<Rightarrow> codec \<Rightarrow> 'st net \<Rightarrow> worker_id \<Rightarrow> 'st \<Rightarrow> ((bench_error + claimRecord list) \<times> 'st) option" where
  "claimUntilEmpty b k net w st = claim_loop (claimOne b k net w) w [] st"

section \<open>Claim mode: the race\<close>

text \<open>
  A claimer between two requests: looking, confirming an empty answer, or finished. A schedule says who sends the next
  request, over which network.
\<close>

datatype claimer = Looking "claimRecord list" | Confirming "claimRecord list" | Finished "bench_error + claimRecord list"

definition claimer_step ::
  "('st \<Rightarrow> (bench_error + job_id option) \<times> 'st) \<Rightarrow> worker_id \<Rightarrow> claimer \<Rightarrow> 'st \<Rightarrow> claimer \<times> 'st" where
  "claimer_step one w cl st =
     (case cl of
        Finished r \<Rightarrow> (Finished r, st)
      | Looking out \<Rightarrow>
          (case one st of
             (Inl e, st') \<Rightarrow> (Finished (Inl e), st')
           | (Inr (Some i), st') \<Rightarrow> (Looking (out @ [(i, w)]), st')
           | (Inr None, st') \<Rightarrow> (Confirming out, st'))
      | Confirming out \<Rightarrow>
          (case one st of
             (Inl e, st') \<Rightarrow> (Finished (Inl e), st')
           | (Inr (Some i), st') \<Rightarrow> (Looking (out @ [(i, w)]), st')
           | (Inr None, st') \<Rightarrow> (Finished (Inr out), st')))"

fun race ::
  "bench \<Rightarrow> codec \<Rightarrow> worker_id list \<Rightarrow> (nat \<times> 'st net) list \<Rightarrow> claimer list \<Rightarrow> 'st \<Rightarrow> claimer list \<times> 'st" where
  "race b k ws [] cls st = (cls, st)"
| "race b k ws ((i, net) # sched) cls st =
     (if i < length cls
      then case claimer_step (claimOne b k net (ws ! i)) (ws ! i) (cls ! i) st of
             (cl, st') \<Rightarrow> race b k ws sched (cls[i := cl]) st'
      else race b k ws sched cls st)"

definition claimer_name :: "int \<Rightarrow> nat \<Rightarrow> worker_id" where
  "claimer_name level i = ''bench-claimer-'' @ FormatInt level @ ''-'' @ FormatInt (int i)"

fun register_all :: "bench \<Rightarrow> codec \<Rightarrow> (nat \<Rightarrow> 'st net) \<Rightarrow> nat \<Rightarrow> worker_id list \<Rightarrow> 'st \<Rightarrow> bench_error option \<times> 'st" where
  "register_all b k nets n [] st = (None, st)"
| "register_all b k nets n (w # ws) st =
     (case bench_post b k (nets n) ''/workers/register'' [(''hostname'', jstr ''queue-bench''), (''worker_id'', jstr w)] st of
        (Inl e, st') \<Rightarrow> (Some (BenchWrap (''register '' @ w) e), st')
      | (Inr _, st') \<Rightarrow> register_all b k nets (Suc n) ws st')"

text \<open>The claimers' results in order: the first error, or all records. None: one is still running.\<close>

fun collect :: "(worker_id \<times> claimer) list \<Rightarrow> claimRecord list \<Rightarrow> (bench_error + claimRecord list) option" where
  "collect [] all = Some (Inr all)"
| "collect ((w, Finished (Inl e)) # cls) all = Some (Inl (BenchWrap (''claimer '' @ w) e))"
| "collect ((w, Finished (Inr out)) # cls) all = collect cls (all @ out)"
| "collect (_ # cls) all = None"

record 'st level_env =
  seed_nets :: "nat \<Rightarrow> 'st net"
  reg_nets :: "nat \<Rightarrow> 'st net"
  schedule :: "(nat \<times> 'st net) list"
  rate_text :: string

text \<open>A row of the curve: the number of claimers and the rate as measured and formatted.\<close>

type_synonym levelResult = "int \<times> string"

definition raceClaimers ::
  "bench \<Rightarrow> codec \<Rightarrow> 'st level_env \<Rightarrow> int \<Rightarrow> 'st \<Rightarrow> ((bench_error + levelResult \<times> claimRecord list) \<times> 'st) option" where
  "raceClaimers b k e level st =
     (let ws = map (claimer_name level) [0..<nat level] in
      case register_all b k (reg_nets e) 0 ws st of
        (Some er, st1) \<Rightarrow> Some (Inl er, st1)
      | (None, st1) \<Rightarrow>
          (case race b k ws (schedule e) (map (\<lambda>_. Looking []) ws) st1 of
             (cls, st2) \<Rightarrow>
               map_option (\<lambda>r. (case r of Inl er \<Rightarrow> Inl er | Inr all \<Rightarrow> Inr ((level, rate_text e), all), st2))
                 (collect (zip ws cls) [])))"

definition seed_kvs :: "bench \<Rightarrow> (string \<times> json) list" where
  "seed_kvs b = [(''max_attempts'', JInt 1), (''payload'', jstr (payload_text b)), (''type'', jstr ''shell'')]"

definition seedBacklog ::
  "bench \<Rightarrow> codec \<Rightarrow> (nat \<Rightarrow> 'st net) \<Rightarrow> int \<Rightarrow> int \<Rightarrow> 'st \<Rightarrow> (bench_error option \<times> 'st) option" where
  "seedBacklog b k nets total_jobs concurrency st =
     map_option (\<lambda>(good, failed, st'). (failed, st'))
       (pool concurrency (map (\<lambda>i. bench_post b k (nets i) ''/jobs'' (seed_kvs b)) [0..<nat total_jobs]) st)"

section \<open>The verdict\<close>

text \<open>The loop of \<open>runClaim\<close> over a level's records: the map \<open>seen\<close> and the count of duplicates.\<close>

fun tally :: "claimRecord list \<Rightarrow> (job_id \<rightharpoonup> worker_id) \<Rightarrow> int \<Rightarrow> (job_id \<rightharpoonup> worker_id) \<times> int" where
  "tally [] seen dupes = (seen, dupes)"
| "tally ((i, w) # rs) seen dupes =
     tally rs (seen(i \<mapsto> w)) (if seen i \<noteq> None then dupes + 1 else dupes)"

definition claimVerdict :: "int \<Rightarrow> int \<Rightarrow> string" where
  "claimVerdict unique dupes =
     (if dupes > 0
      then ''FAILED: '' @ FormatInt dupes @ '' duplicate claim(s) across '' @ FormatInt unique @ '' jobs''
      else ''0 of '' @ FormatInt unique @ '' jobs claimed twice'')"

definition printClaimTable :: "levelResult list \<Rightarrow> int \<Rightarrow> int \<Rightarrow> string" where
  "printClaimTable rows unique dupes =
     printTable (map (\<lambda>(n, rate). (''Claim throughput, '' @ FormatInt n @ '' concurrent claimer(s)'', rate @ '' claims/s'')) rows
       @ [(''Double dispatch'', claimVerdict unique dupes)])"

section \<open>Levels\<close>

fun parse_fields :: "string list \<Rightarrow> int list \<Rightarrow> string + int list" where
  "parse_fields [] out = Inr out"
| "parse_fields (f # fs) out =
     (let field = TrimSpace f in
      if field = [] then parse_fields fs out
      else case ParseInt field of
        None \<Rightarrow> Inl (''--claim-levels: '' @ Quote field @ '' is not a positive integer'')
      | Some n \<Rightarrow>
          if n < 1 then Inl (''--claim-levels: '' @ Quote field @ '' is not a positive integer'')
          else parse_fields fs (out @ [n]))"

definition parseLevels :: "string \<Rightarrow> string + int list" where
  "parseLevels s =
     (case parse_fields (split_on (CHR '','') s) [] of
        Inl e \<Rightarrow> Inl e
      | Inr out \<Rightarrow> if out = [] then Inl ''--claim-levels is empty'' else Inr out)"

section \<open>Claim mode: cleaning up\<close>

definition cleanup_fail :: "bench \<Rightarrow> codec \<Rightarrow> 'st net \<Rightarrow> claimRecord \<Rightarrow> 'st \<Rightarrow> (bench_error + chunk) \<times> 'st" where
  "cleanup_fail b k net r st =
     bench_post b k net (job_path (fst r) ''fail'')
       [(''error'', jstr ''queue-bench cleanup''), (''worker_id'', jstr (snd r))] st"

fun cancel_all :: "bench \<Rightarrow> codec \<Rightarrow> 'st net \<Rightarrow> Job list \<Rightarrow> 'st \<Rightarrow> bench_error option \<times> 'st" where
  "cancel_all b k net [] st = (None, st)"
| "cancel_all b k net (j # js) st =
     (case bench_do b k net ''POST'' (job_path (ID j) ''cancel'') None st of
        (Inl e, st') \<Rightarrow> (Some (BenchWrap (''cancel leftover job '' @ FormatInt (ID j)) e), st')
      | (Inr _, st') \<Rightarrow> cancel_all b k net js st')"

partial_function (option) cancelPending ::
  "bench \<Rightarrow> codec \<Rightarrow> (nat \<Rightarrow> 'st net) \<Rightarrow> nat \<Rightarrow> 'st \<Rightarrow> (bench_error option \<times> 'st) option" where
  "cancelPending b k nets n st =
     (case bench_get b k (nets n) ''/jobs?status=pending&limit=500'' st of
        (Inl e, st1) \<Rightarrow> Some (Some e, st1)
      | (Inr (Json (JobsBody js)), st1) \<Rightarrow>
          if js = [] then Some (None, st1)
          else (case cancel_all b k (nets n) js st1 of
                  (Some e, st2) \<Rightarrow> Some (Some e, st2)
                | (None, st2) \<Rightarrow> cancelPending b k nets (Suc n) st2)
      | (Inr _, st1) \<Rightarrow> Some (Some decode_error, st1))"

text \<open>\<open>order\<close> is the order in which the failure reports reach the server.\<close>

record 'st cleanup_env =
  order :: "claimRecord list \<Rightarrow> claimRecord list"
  fail_nets :: "nat \<Rightarrow> 'st net"
  cancel_nets :: "nat \<Rightarrow> 'st net"

definition cleanup ::
  "bench \<Rightarrow> codec \<Rightarrow> 'st cleanup_env \<Rightarrow> claimRecord list \<Rightarrow> int \<Rightarrow> 'st \<Rightarrow> (bench_error option \<times> 'st) option" where
  "cleanup b k e claimed concurrency st =
     (case pool concurrency (map (\<lambda>(i, r). cleanup_fail b k (fail_nets e i) r) (enumerate 0 (order e claimed))) st of
        None \<Rightarrow> None
      | Some (good, Some er, st') \<Rightarrow> Some (Some (BenchWrap ''cleanup'' er), st')
      | Some (good, None, st') \<Rightarrow> cancelPending b k (cancel_nets e) 0 st')"

section \<open>Claim mode: the run\<close>

text \<open>The levels in turn: the rows of the curve, all records, the map \<open>seen\<close> and the duplicates.\<close>

fun level_loop ::
  "bench \<Rightarrow> codec \<Rightarrow> int \<Rightarrow> int \<Rightarrow> (int \<times> 'st level_env) list \<Rightarrow> levelResult list \<Rightarrow> claimRecord list \<Rightarrow> (job_id \<rightharpoonup> worker_id) \<Rightarrow> int \<Rightarrow>
   'st \<Rightarrow> ((bench_error + levelResult list \<times> claimRecord list \<times> (job_id \<rightharpoonup> worker_id) \<times> int) \<times> 'st) option" where
  "level_loop b k seed concurrency [] rows claimed seen dupes st = Some (Inr (rows, claimed, seen, dupes), st)"
| "level_loop b k seed concurrency ((level, e) # ls) rows claimed seen dupes st =
     (case seedBacklog b k (seed_nets e) seed concurrency st of
        None \<Rightarrow> None
      | Some (Some er, st1) \<Rightarrow> Some (Inl (BenchWrap ''seed'' er), st1)
      | Some (None, st1) \<Rightarrow>
          (case raceClaimers b k e level st1 of
             None \<Rightarrow> None
           | Some (Inl er, st2) \<Rightarrow> Some (Inl er, st2)
           | Some (Inr (res, records), st2) \<Rightarrow>
               (case tally records seen dupes of (seen', dupes') \<Rightarrow>
                  level_loop b k seed concurrency ls (rows @ [res]) (claimed @ records) seen' dupes' st2)))"

record 'st claim_env =
  foreign_net :: "'st net"
  backlog_net :: "'st net"
  level_envs :: "(int \<times> 'st level_env) list"
  cleaning :: "'st cleanup_env"

definition runClaim ::
  "bench \<Rightarrow> codec \<Rightarrow> 'st claim_env \<Rightarrow> int \<Rightarrow> int \<Rightarrow> 'st \<Rightarrow> ((bench_error + string) \<times> 'st) option" where
  "runClaim b k e seed concurrency st =
     (case foreignAliveWorkers b k (foreign_net e) st of
        (Inl er, st1) \<Rightarrow> Some (Inl (BenchWrap (''cannot reach '' @ server b) er), st1)
      | (Inr alive, st1) \<Rightarrow>
        if alive > 0
        then Some (Inl (BenchOther (FormatInt alive @ '' worker(s) still heartbeating at '' @ server b @
               ''; they would compete for the backlog. Stop them with: docker compose up -d --scale worker=0'')), st1)
        else case requireEmptyQueue b k (backlog_net e) st1 of
          (Some er, st2) \<Rightarrow> Some (Inl er, st2)
        | (None, st2) \<Rightarrow>
          (case level_loop b k seed concurrency (level_envs e) [] [] Map.empty 0 st2 of
             None \<Rightarrow> None
           | Some (Inl er, st3) \<Rightarrow> Some (Inl er, st3)
           | Some (Inr (rows, claimed, seen, dupes), st3) \<Rightarrow>
             (case cleanup b k (cleaning e) claimed concurrency st3 of
                None \<Rightarrow> None
              | Some (Some er, st4) \<Rightarrow> Some (Inl er, st4)
              | Some (None, st4) \<Rightarrow> Some (Inr (printClaimTable rows (int (card (dom seen))) dupes), st4))))"

section \<open>The command\<close>

text \<open>What the flags select, and the size of the connection pool.\<close>

datatype plan = PlanError string | PlanPipeline | PlanClaim "int list"

definition bench_plan :: "string \<Rightarrow> string \<Rightarrow> plan" where
  "bench_plan mode levels =
     (if mode = ''claim''
      then (case parseLevels levels of Inl e \<Rightarrow> PlanError e | Inr counts \<Rightarrow> PlanClaim counts)
      else if mode = ''pipeline'' then PlanPipeline
      else PlanError (''unknown --mode '' @ Quote mode @ '': want pipeline or claim''))"

definition peak :: "string \<Rightarrow> string \<Rightarrow> int \<Rightarrow> int" where
  "peak mode levels concurrency =
     (if mode = ''claim''
      then (case parseLevels levels of
              Inl e \<Rightarrow> concurrency
            | Inr counts \<Rightarrow> foldl (\<lambda>p c. if c > p then c else p) concurrency counts)
      else concurrency)"

definition envOr :: "(string \<Rightarrow> string) \<Rightarrow> string \<Rightarrow> string \<Rightarrow> string" where
  "envOr getenv key def = (if getenv key \<noteq> [] then getenv key else def)"

end
