(* ===== verification/Store_Reap.thy ===== *)
theory Store_Reap
  imports Store_Props
begin

text \<open>
  What one sweep of \<open>ReapExpiredLeases\<close> does to the tables, and that sweeps make progress:
  the number of expired leases falls by the batch size each time.
\<close>

section \<open>The row a sweep leaves behind\<close>

definition reaped_row :: "session \<Rightarrow> BackoffConfig \<Rightarrow> Job \<Rightarrow> Job" where
  "reaped_row s cfg e =
     reap_set s (reap_next e) (Delay cfg (Attempts e)) (reap_msg (holder e)) e"

definition eff_batch :: "int \<Rightarrow> int" where
  "eff_batch n = (if n \<le> 0 then 100 else n)"

definition expired_count :: "session \<Rightarrow> db \<Rightarrow> nat" where
  "expired_count s d = length (filter (expired s) (jobs d))"

definition reap_bind_ok :: "session \<Rightarrow> db \<Rightarrow> bool" where
  "reap_bind_ok s d \<longleftrightarrow> (\<forall>e \<in> set (jobs d). text_ok s (reap_msg (holder e)))"

lemma ID_reaped_row [simp]: "ID (reaped_row s cfg e) = ID e"
  by (simp add: reaped_row_def reap_set_def)

lemma reaped_row_not_expired [simp]: "\<not> expired s' (reaped_row s cfg e)"
  by (simp add: reaped_row_def reap_set_def expired_def reap_next_def)

section \<open>One turn and the loop\<close>

lemma reap_one_jobs:
  assumes "distinct (map ID (jobs d))" "e \<in> set (jobs d)" "Status e = StatusRunning"
  shows "jobs (reap_worker e (reap_job s cfg e d)) =
    map (\<lambda>r. if r = e then reaped_row s cfg e else r) (jobs d)"
proof -
  have "ID r = ID e \<Longrightarrow> r = e" if "r \<in> set (jobs d)" for r
    using assms that by (auto intro: distinct_key_eq)
  with assms show ?thesis
    by (auto simp: reap_worker_def reap_job_def update_where_def reaped_row_def intro!: map_cong)
qed

lemma reap_loop_jobs:
  assumes "no_faults s" "distinct (map ID (jobs d))" "set es \<subseteq> set (jobs d)" "distinct (map ID es)"
    "\<forall>e \<in> set es. Status e = StatusRunning \<and> text_ok s (reap_msg (holder e))"
  shows "\<exists>d'. reap_loop s cfg es out d = (out @ map reaped_of es, None, d') \<and>
    jobs d' = map (\<lambda>r. if r \<in> set es then reaped_row s cfg r else r) (jobs d)"
  using assms
proof (induction es arbitrary: out d)
  case Nil
  then show ?case by simp
next
  case (Cons e es)
  let ?d = "reap_worker e (reap_job s cfg e d)"
  have jobs: "jobs ?d = map (\<lambda>r. if r = e then reaped_row s cfg e else r) (jobs d)"
    using Cons.prems by (intro reap_one_jobs) auto
  have ne: "ID x \<noteq> ID e" if "x \<in> set es" for x
    using Cons.prems(4) that by (auto simp: image_iff)
  have "map ID (jobs ?d) = map ID (jobs d)" unfolding jobs by simp
  moreover have "set es \<subseteq> set (jobs ?d)"
    using Cons.prems(3) ne by (auto intro!: reap_one_other_rows)
  ultimately obtain d' where
    d': "reap_loop s cfg es (out @ [reaped_of e]) ?d = ((out @ [reaped_of e]) @ map reaped_of es, None, d')"
    "jobs d' = map (\<lambda>r. if r \<in> set es then reaped_row s cfg r else r) (jobs ?d)"
    using Cons.IH [of ?d "out @ [reaped_of e]"] Cons.prems by auto
  have "reaped_row s cfg e \<notin> set es" "e \<notin> set es"
    using ne [of "reaped_row s cfg e"] ne [of e] by auto
  then have "jobs d' = map (\<lambda>r. if r \<in> set (e # es) then reaped_row s cfg r else r) (jobs d)"
    unfolding d'(2) jobs by auto
  with d'(1) Cons.prems(1,5) show ?case by (auto simp: bind_ok_def)
qed

section \<open>The sweep\<close>

lemma sweep_run:
  assumes "db_inv d" "no_faults s" "reap_bind_ok s d"
  obtains d' where
    "ReapExpiredLeases s cfg n d = ((map reaped_of (reap_select s (eff_batch n) d), None), d')"
    "jobs d' = map (\<lambda>r. if r \<in> set (reap_select s (eff_batch n) d)
                        then reaped_row s cfg r else r) (jobs d)"
proof -
  let ?sel = "reap_select s (eff_batch n) d"
  have ji: "jobs_inv d" using assms(1) by (simp add: db_inv_def)
  note sel = reap_select_props [OF ji, of s "eff_batch n"]
  have "\<forall>e \<in> set ?sel. Status e = StatusRunning \<and> text_ok s (reap_msg (holder e))"
    using sel(1,3) assms(3) by (auto simp: expired_def reap_bind_ok_def)
  then obtain d' where
    d': "reap_loop s cfg ?sel [] d = (map reaped_of ?sel, None, d')"
    "jobs d' = map (\<lambda>r. if r \<in> set ?sel then reaped_row s cfg r else r) (jobs d)"
    using reap_loop_jobs [OF assms(2) _ sel(1,2), of cfg "[]"] ji by (auto simp: jobs_inv_def)
  then have "reap_tx s cfg (eff_batch n) d = (map reaped_of ?sel, None, d')"
    using assms(2) by (simp add: reap_tx_def)
  then have "ReapExpiredLeases s cfg n d = ((map reaped_of ?sel, None), d')"
    using assms(2) by (simp add: ReapExpiredLeases_def withTx_no_faults eff_batch_def [symmetric] Let_def)
  with d'(2) that show ?thesis by blast
qed

lemma reaped_row_eq:
  "reaped_row s cfg r =
     r\<lparr>Status := (if Attempts r \<ge> MaxAttempts r then StatusFailed else StatusPending),
       WorkerID := (if Attempts r \<ge> MaxAttempts r then WorkerID r else None),
       LeaseUntil := None,
       AvailableAt := now s + interval s (Delay cfg (Attempts r)),
       LastError := Some (reap_msg (holder r)), UpdatedAt := now s\<rparr>"
  by (simp add: reaped_row_def reap_set_def reap_next_def)

lemma reap_select_bounds:
  "r \<in> set (reap_select s b d) \<Longrightarrow> ID r \<notin> locked s"
  "int (length (reap_select s (eff_batch n) d)) \<le> eff_batch n"
  unfolding reap_select_def by (auto dest!: in_set_takeD simp: eff_batch_def)

text \<open>
  C13. A sweep whose database calls work reports and moves exactly the expired leases it selected
  (at most a batch, none that another transaction holds): each goes
  back to PENDING without owner, or to FAILED with its owner kept when its attempts are
  used up, claimable again after the backoff delay, with the silent worker named in the
  error. Every other row is untouched.
\<close>

theorem sweep_effect:
  assumes "db_inv d" "no_faults s" "reap_bind_ok s d"
  shows "fst (ReapExpiredLeases s cfg n d) =
       (map reaped_of (reap_select s (eff_batch n) d), None) \<and>
     jobs (snd (ReapExpiredLeases s cfg n d)) =
       map (\<lambda>r. if r \<in> set (reap_select s (eff_batch n) d) then
              r\<lparr>Status := (if Attempts r \<ge> MaxAttempts r then StatusFailed else StatusPending),
                WorkerID := (if Attempts r \<ge> MaxAttempts r then WorkerID r else None),
                LeaseUntil := None,
                AvailableAt := now s + interval s (Delay cfg (Attempts r)),
                LastError := Some (reap_msg (holder r)), UpdatedAt := now s\<rparr>
            else r) (jobs d) \<and>
     (\<forall>r \<in> set (reap_select s (eff_batch n) d).
        r \<in> set (jobs d) \<and> expired s r \<and> ID r \<notin> locked s) \<and>
     int (length (reap_select s (eff_batch n) d)) \<le> eff_batch n"
proof -
  have ji: "jobs_inv d" using assms(1) by (simp add: db_inv_def)
  obtain d' where d':
    "ReapExpiredLeases s cfg n d = ((map reaped_of (reap_select s (eff_batch n) d), None), d')"
    "jobs d' = map (\<lambda>r. if r \<in> set (reap_select s (eff_batch n) d)
                        then reaped_row s cfg r else r) (jobs d)"
    using sweep_run [OF assms] by blast
  show ?thesis
    using d'(2) reap_select_props [OF ji, of s "eff_batch n"] reap_select_bounds(1) [of _ s "eff_batch n" d]
      reap_select_bounds(2) [of s n d]
    unfolding d'(1) reaped_row_eq by (auto simp: subset_iff)
qed

text \<open>The same demo tables after the lease of job 1 ran out.\<close>

theorem sweep_effect_witness:
  "map RID (fst (fst (ReapExpiredLeases (quiet 500) DefaultBackoff 10 demo_db))) = [1] \<and>
   map Status (jobs (snd (ReapExpiredLeases (quiet 500) DefaultBackoff 10 demo_db))) =
     [StatusPending, StatusPending, StatusPending]"
proof -
  have b: "reap_bind_ok (quiet 500) demo_db" by (simp add: reap_bind_ok_def)
  show ?thesis
    using sweep_effect [OF demo_inv _ b, of DefaultBackoff 10]
    by (simp add: reap_select_def eff_batch_def demo_defs expired_def reaped_of_def)
qed

lemma jobs_inv_distinct: "jobs_inv d \<Longrightarrow> distinct (jobs d)"
  by (auto simp: jobs_inv_def distinct_map)

text \<open>
  Progress of recovery: with no row locked by others, a sweep lowers the number of expired
  leases by the batch size, to zero when they fit the batch.
\<close>

lemma sweep_progress:
  assumes "db_inv d" "no_faults s" "reap_bind_ok s d" "locked s = {}"
  shows "expired_count s (snd (ReapExpiredLeases s cfg n d)) = expired_count s d - nat (eff_batch n)"
proof -
  have ji: "jobs_inv d" using assms(1) by (simp add: db_inv_def)
  let ?sel = "reap_select s (eff_batch n) d"
  note sel = reap_select_props [OF ji, of s "eff_batch n"] and dj = jobs_inv_distinct [OF ji]
  obtain d' where r:
    "ReapExpiredLeases s cfg n d = ((map reaped_of ?sel, None), d')"
    "jobs d' = map (\<lambda>r. if r \<in> set ?sel then reaped_row s cfg r else r) (jobs d)"
    using sweep_run [OF assms(1-3)] by blast
  have "expired_count s d' = card ({r \<in> set (jobs d). expired s r} - set ?sel)"
    unfolding expired_count_def r(2)
    by (subst filter_map_if, simp, subst distinct_card [symmetric])
      (use dj in \<open>auto intro!: arg_cong [where f = card]\<close>)
  also have "\<dots> = card {r \<in> set (jobs d). expired s r} - card (set ?sel)"
    using sel(1,3) by (intro card_Diff_subset) auto
  also have "card (set ?sel) = length ?sel" using sel(2) by (intro distinct_card) (simp add: distinct_map)
  also have "length ?sel = min (expired_count s d) (nat (eff_batch n))"
    using assms(4) by (simp add: reap_select_def expired_count_def)
  also have "card {r \<in> set (jobs d). expired s r} = expired_count s d"
    using distinct_card [of "filter (expired s) (jobs d)"] dj
    by (simp add: expired_count_def)
  finally show ?thesis using r(1) by simp
qed

end
