(* ===== verification/Reaper_Loop.thy ===== *)
theory Reaper_Loop
  imports Api_Server Store_Reap
begin

text \<open>
  The reaper's loop (\<open>internal/api/reaper.go\<close>): it survives failed sweeps, and its ticks recover every orphaned job.
\<close>

text \<open>A tick at which the database works, nobody holds a row lock, and the clock shows \<open>t\<close>.\<close>

definition good_tick :: "timestamp \<Rightarrow> session \<Rightarrow> bool" where
  "good_tick t s \<longleftrightarrow> session_ok s \<and> no_faults s \<and> locked s = {} \<and> now s = t \<and> text_ok s = (\<lambda>_. True)"

text \<open>A tick at which the sweep fails before it changed anything.\<close>

definition bad_tick :: "session \<Rightarrow> bool" where
  "bad_tick s \<longleftrightarrow> fault s BeginTx \<noteq> None"

lemma expired_now: "now s = now s' \<Longrightarrow> expired s = expired s'"
  by (auto simp: expired_def fun_eq_iff split: option.split)

lemma expired_count_now: "now s = now s' \<Longrightarrow> expired_count s d = expired_count s' d"
  using expired_now [of s s'] by (simp add: expired_count_def)

lemma snd_sweep: "snd (sweep rp bc s gone d) = snd (ReapExpiredLeases s bc (batch rp) d)"
  by (auto simp: sweep_def split: prod.split option.split)

lemma sweep_good:
  assumes "good_tick t s" "db_inv d"
  shows "expired_count (quiet t) (snd (sweep rp bc s gone d)) =
      expired_count (quiet t) d - nat (eff_batch (batch rp))"
    "db_inv (snd (sweep rp bc s gone d))"
proof -
  have s: "session_ok s" "no_faults s" "locked s = {}" "now s = now (quiet t)" "reap_bind_ok s d"
    using assms(1) by (simp_all add: good_tick_def reap_bind_ok_def)
  show "expired_count (quiet t) (snd (sweep rp bc s gone d)) =
      expired_count (quiet t) d - nat (eff_batch (batch rp))"
    unfolding snd_sweep expired_count_now [OF s(4) [symmetric]]
    using sweep_progress [OF assms(2) s(2,5,3)] .
  show "db_inv (snd (sweep rp bc s gone d))"
    unfolding snd_sweep using s(1) assms(2) by (rule mReap.inv)
qed

lemma sweep_bad:
  assumes "bad_tick s"
  shows "snd (sweep rp bc s gone d) = d"
  using assms unfolding snd_sweep
  by (auto simp: bad_tick_def ReapExpiredLeases_def withTx_def split: option.split)

lemma reaper_loop_progress:
  assumes "db_inv d" "\<forall>s \<in> set ss. good_tick t s \<or> bad_tick s"
  shows "\<exists>lg d'. reaper_loop rp bc (map (\<lambda>s. ReapTick s False) ss) d = (lg, False, d') \<and>
    expired_count (quiet t) d' \<le>
      expired_count (quiet t) d - length (filter (good_tick t) ss) * nat (eff_batch (batch rp))"
  using assms
proof (induction ss arbitrary: d)
  case Nil
  then show ?case by simp
next
  case (Cons s ss)
  obtain lg d1 where st: "sweep rp bc s False d = (lg, d1)" by fastforce
  have step: "db_inv d1 \<and> expired_count (quiet t) d1 \<le>
      expired_count (quiet t) d - (if good_tick t s then nat (eff_batch (batch rp)) else 0)"
    using sweep_good [of t s d rp bc False] sweep_bad [of s rp bc False d] Cons.prems st by auto
  obtain lg2 d2 where ih: "reaper_loop rp bc (map (\<lambda>s. ReapTick s False) ss) d1 = (lg2, False, d2)"
    "expired_count (quiet t) d2 \<le>
      expired_count (quiet t) d1 - length (filter (good_tick t) ss) * nat (eff_batch (batch rp))"
    using Cons.IH [of d1] step Cons.prems(2) by auto
  with st step show ?case by (auto simp: diff_diff_left)
qed



end
