(* ===== verification/System.thy ===== *)
theory System
  imports Worker_Props Cli Bench Reaper_Loop
begin

text \<open>
  The whole system around one set of tables: the server answers requests, the reaper sweeps, and the workers, the command
  line client and the load generator act on the tables through requests alone. What a client may do is proved once, for any
  preorder on states that its network respects, in the locale \<open>client_preorder\<close>.
\<close>

section \<open>The steps of the system\<close>

inductive sys_step :: "Server \<Rightarrow> Reaper \<Rightarrow> db \<Rightarrow> db \<Rightarrow> bool" for sv rp where
  request_served: "session_ok s \<Longrightarrow> sys_step sv rp d (tables (serve sv s r d))"
| lease_sweep: "session_ok s \<Longrightarrow> sys_step sv rp d (snd (sweep rp (backoff sv) s gone d))"

inductive_cases sys_stepE: "sys_step sv rp d d'"

lemma sys_step_guar: "sys_step sv rp d d' \<Longrightarrow> db_inv d \<Longrightarrow> guar d d'"
proof (erule sys_stepE)
  fix s r assume "session_ok s" "db_inv d" "d' = tables (serve sv s r d)"
  then show "guar d d'" using mHTTP.keeps [of s d sv r] by (simp add: http_call_def Let_def)
next
  fix s gone assume "session_ok s" "db_inv d" "d' = snd (sweep rp (backoff sv) s gone d)"
  then show "guar d d'" using mReap.keeps [of s d "backoff sv" "batch rp"] by (simp add: snd_sweep)
qed

lemma sys_steps_guar: "(sys_step sv rp)\<^sup>*\<^sup>* d d' \<Longrightarrow> db_inv d \<Longrightarrow> guar d d'"
proof (induction rule: rtranclp_induct)
  case base
  then show ?case by (rule guar_refl)
next
  case (step y z)
  then show ?case using sys_step_guar guar_inv guar_trans by metis
qed

section \<open>Clients\<close>

text \<open>A network, or any call, respects a relation if every call moves the state along it.\<close>

definition keeps :: "('st \<Rightarrow> 'st \<Rightarrow> bool) \<Rightarrow> ('st \<Rightarrow> 'x \<times> 'st) \<Rightarrow> bool" where
  "keeps R f \<longleftrightarrow> (\<forall>st. R st (snd (f st)))"

definition net_keeps :: "('st \<Rightarrow> 'st \<Rightarrow> bool) \<Rightarrow> 'st net \<Rightarrow> bool" where
  "net_keeps R net \<longleftrightarrow> (\<forall>r. keeps R (net r))"

definition reg_keeps :: "('st \<Rightarrow> 'st \<Rightarrow> bool) \<Rightarrow> 'st reg_env \<Rightarrow> bool" where
  "reg_keeps R e \<longleftrightarrow> (\<forall>n. net_keeps R (reg_net e n))"

fun tick_keeps :: "('st \<Rightarrow> 'st \<Rightarrow> bool) \<Rightarrow> 'st tick \<Rightarrow> bool" where
  "tick_keeps R CtxDone = True"
| "tick_keeps R (Tick net gone) = net_keeps R net"

definition around_keeps :: "('st \<Rightarrow> 'st \<Rightarrow> bool) \<Rightarrow> 'st surroundings \<Rightarrow> bool" where
  "around_keeps R env \<longleftrightarrow> list_all (tick_keeps R) (renewals env) \<and> (\<forall>n. net_keeps R (net_at env n))"

definition turn_keeps :: "('st \<Rightarrow> 'st \<Rightarrow> bool) \<Rightarrow> 'st turn_input \<Rightarrow> bool" where
  "turn_keeps R i \<longleftrightarrow> net_keeps R (claim_net i) \<and> around_keeps R (around i) \<and> reg_keeps R (rereg i)"

lemma keepsD: "keeps R f \<Longrightarrow> f st = (x, st') \<Longrightarrow> R st st'"
  by (metis keeps_def snd_conv)

definition cli_keeps :: "('st \<Rightarrow> 'st \<Rightarrow> bool) \<Rightarrow> 'st cli \<Rightarrow> bool" where
  "cli_keeps R g \<longleftrightarrow> (\<forall>url. net_keeps R (web g url)) \<and> (\<forall>n url. net_keeps R (poll_web g n url))"

locale client_preorder =
  fixes R :: "'st \<Rightarrow> 'st \<Rightarrow> bool"
  assumes refl: "R x x"
    and trans: "R x y \<Longrightarrow> R y z \<Longrightarrow> R x z"
begin

lemma client_do_keeps: "net_keeps R net \<Longrightarrow> keeps R (client_do c k net meth path bdy)"
  using refl by (auto simp: keeps_def net_keeps_def client_do_def split: option.split prod.split wire.split if_split)
    (metis snd_conv)+

lemma client_calls_keep:
  assumes "net_keeps R net"
  shows "keeps R (client_Register c k net w host)" "keeps R (client_Heartbeat c k net w)"
    "keeps R (client_RenewLease c k net i w lease)" "keeps R (client_Complete c k net i w res)"
    "keeps R (client_Fail c k net i w res cause)" "keeps R (client_Claim c k net w lease)"
proof -
  show "keeps R (client_Claim c k net w lease)"
    unfolding keeps_def client_Claim_def using keepsD [OF client_do_keeps [OF assms]]
    by (auto split: prod.split sum.split chunk.split payload.split)
qed (auto simp: client_Register_def client_Heartbeat_def client_RenewLease_def client_Complete_def client_Fail_def
    intro: client_do_keeps [OF assms])

lemma register_loop_keeps:
  "register_loop c k e n wait waits st = Some y \<Longrightarrow> reg_keeps R e \<longrightarrow> R st (snd (snd y))"
proof (erule register_loop.raw_induct [where P = "\<lambda>c k e n wait waits st y. reg_keeps R e \<longrightarrow> R st (snd (snd y))", rotated])
  fix loop c k e n wait waits st y
  assume ih: "\<And>c k e n wait waits st y. loop c k e n wait waits st = Some y \<Longrightarrow> reg_keeps R e \<longrightarrow> R st (snd (snd y))"
    and body: "(case client_Register (client_of c) k (reg_net e n) (WorkerName c) (WHostname c) st of
        (Inr _, st') \<Rightarrow> Some (True, waits, st')
      | (Inl _, st') \<Rightarrow>
          if reg_gone e n then Some (False, waits, st')
          else if \<not> reg_woken e n then Some (False, waits @ [wait], st')
          else loop c k e (Suc n) (if wait < 10 * Second then wait * 2 else wait) (waits @ [wait]) st') = Some y"
  show "reg_keeps R e \<longrightarrow> R st (snd (snd y))"
  proof
    assume e: "reg_keeps R e"
    obtain x st1 where x: "client_Register (client_of c) k (reg_net e n) (WorkerName c) (WHostname c) st = (x, st1)"
      by fastforce
    have "R st st1"
      using e by (intro keepsD [OF client_calls_keep(1) x]) (simp add: reg_keeps_def)
    moreover have "R st1 (snd (snd y))"
      using body x ih e refl by (cases x) (auto split: if_splits)
    ultimately show "R st (snd (snd y))" by (rule trans)
  qed
qed

lemma registerWithRetry_keeps:
  "reg_keeps R e \<Longrightarrow> registerWithRetry c k e st = Some (b, ws, st') \<Longrightarrow> R st st'"
  using register_loop_keeps [of c k e 1 "500 * Millisecond" "[]" st "(b, ws, st')"]
  by (simp add: registerWithRetry_def)

lemma renewLoop_keeps: "list_all (tick_keeps R) es \<Longrightarrow> renewLoop c k i es st = (r, st') \<Longrightarrow> R st st'"
proof (induction es arbitrary: st)
  case Nil
  then show ?case using refl by simp
next
  case (Cons ev es)
  show ?case
  proof (cases ev)
    case CtxDone
    with Cons.prems refl show ?thesis by simp
  next
    case (Tick net gone)
    obtain x st1 where x: "client_RenewLease (client_of c) k net i (WorkerName c) (Lease c) st = (x, st1)" by fastforce
    have "R st st1" using Cons.prems(1) Tick by (intro keepsD [OF client_calls_keep(3) x]) simp
    moreover have "R st1 st'"
      using Cons Tick x refl by (auto split: sum.splits if_splits client_error.splits)
    ultimately show ?thesis by (rule trans)
  qed
qed

lemma heartbeatLoop_keeps: "list_all (tick_keeps R) es \<Longrightarrow> heartbeatLoop c k es st = (r, n, st') \<Longrightarrow> R st st'"
proof (induction es arbitrary: st r n)
  case Nil
  then show ?case using refl by simp
next
  case (Cons ev es)
  show ?case
  proof (cases ev)
    case CtxDone
    with Cons.prems refl show ?thesis by simp
  next
    case (Tick net gone)
    obtain x st1 where x: "client_Heartbeat (client_of c) k net (WorkerName c) st = (x, st1)" by fastforce
    have "R st st1" using Cons.prems(1) Tick by (intro keepsD [OF client_calls_keep(2) x]) simp
    moreover have "R st1 st'"
      using Cons Tick x refl by (auto split: sum.splits if_splits prod.splits)
    ultimately show ?thesis by (rule trans)
  qed
qed

lemma report_loop_keeps:
  "(\<And>n. keeps R (call n)) \<Longrightarrow> report_loop call gone n left wait st = (r, ws, st') \<Longrightarrow> R st st'"
proof (induction left arbitrary: n wait st r ws)
  case 0
  then show ?case using refl by simp
next
  case (Suc left)
  obtain x st1 where x: "call n st = (x, st1)" by fastforce
  have "R st st1" using Suc.prems(1) x by (rule keepsD)
  moreover have "R st1 st'"
    using Suc.prems(2) x Suc.IH [OF Suc.prems(1)] refl
    by (auto split: sum.splits option.splits if_splits prod.splits)
  ultimately show ?case by (rule trans)
qed

lemma process_keeps:
  assumes "around_keeps R env" "process c k env job st = (r, ws, st')"
  shows "R st st'"
proof -
  obtain q st1 where q: "renewLoop c k (ID job) (renewals env) st = (q, st1)" by fastforce
  have "R st st1" using renewLoop_keeps [OF _ q] assms(1) by (simp add: around_keeps_def)
  moreover have net: "net_keeps R (net_at env n)" for n using assms(1) by (simp add: around_keeps_def)
  have "R st1 st'"
    using assms(2) q report_loop_keeps [OF client_calls_keep(4) [OF net]] report_loop_keeps [OF client_calls_keep(5) [OF net]]
    by (auto simp: process_def report_def Let_def split: prod.splits option.splits if_splits)
  ultimately show ?thesis by (rule trans)
qed

lemma Run_loop_keeps:
  "list_all (turn_keeps R) is \<Longrightarrow> Run_loop c k cv is st = Some (r, acts, st') \<Longrightarrow> R st st'"
proof (induction "is" arbitrary: st r acts)
  case Nil
  then show ?case using refl by simp
next
  case (Cons i "is")
  show ?case
  proof (cases "top_gone i")
    case True
    with Cons.prems refl show ?thesis by simp
  next
    case False
    have t: "net_keeps R (claim_net i)" "around_keeps R (around i)" "reg_keeps R (rereg i)"
      using Cons.prems(1) by (simp_all add: turn_keeps_def)
    obtain res st1 where res: "client_Claim (client_of c) k (claim_net i) (WorkerName c) (Lease c) st = (res, st1)"
      by fastforce
    have "R st st1" using keepsD [OF client_calls_keep(6) [OF t(1)] res] .
    moreover have "R st1 st'"
    proof (cases "turn c (jitter cv (draw i)) (after_gone i) res")
      case (DoProcess job)
      obtain q ws st2 where p: "process c k (around i) job st1 = (q, ws, st2)" by (metis prod_cases3)
      with Cons DoProcess False res have "R st2 st'" by (auto split: option.splits prod.splits)
      with process_keeps [OF t(2) p] show ?thesis by (rule trans)
    next
      case (DoSleep d)
      with Cons False res show ?thesis by (auto split: option.splits prod.splits)
    next
      case DoReregister
      then obtain b ws st2 where g: "registerWithRetry c k (rereg i) st1 = Some (b, ws, st2)"
        using Cons.prems(2) False res by (auto split: option.splits)
      with Cons DoReregister False res refl have "R st2 st'"
        by (auto split: option.splits prod.splits bool.splits)
      with registerWithRetry_keeps [OF t(3) g] show ?thesis by (rule trans)
    next
      case DoStop
      with Cons False res refl show ?thesis by simp
    qed
    ultimately show ?thesis by (rule trans)
  qed
qed

lemma Run_keeps:
  assumes "reg_keeps R e" "list_all (turn_keeps R) is" "Run c k cv e is st = Some (r, acts, st')"
  shows "R st st'"
proof -
  obtain b ws st1 where g: "registerWithRetry c k e st = Some (b, ws, st1)"
    using assms(3) by (auto simp: Run_def split: option.splits)
  have "R st1 st'"
    using assms(3) g refl Run_loop_keeps [OF assms(2)] by (auto simp: Run_def split: bool.splits)
  with registerWithRetry_keeps [OF assms(1) g] show ?thesis by (rule trans)
qed

lemma request_keeps:
  assumes "\<And>url. net_keeps R (wb url)"
  shows "keeps R (request g wb srv meth path bdy)"
proof -
  have "R st (snd (wb url r st))" for url r st using assms by (auto simp: net_keeps_def keeps_def)
  with refl show ?thesis
    by (auto simp: keeps_def request_def Let_def split: option.split prod.split wire.split) (metis snd_conv)+
qed

lemma request_job_keeps:
  assumes "\<And>url. net_keeps R (wb url)"
  shows "keeps R (request_job g wb srv meth path bdy)"
  unfolding keeps_def request_job_def using keepsD [OF request_keeps [OF assms]]
  by (auto split: prod.split sum.split chunk.split payload.split)

lemma wait_terminal_keeps:
  "wait_terminal g srv timeout i n st = Some y \<Longrightarrow> cli_keeps R g \<longrightarrow> R st (snd y)"
proof (erule wait_terminal.raw_induct [where P = "\<lambda>g srv timeout i n st y. cli_keeps R g \<longrightarrow> R st (snd y)", rotated])
  fix loop g srv timeout i n st y
  assume ih: "\<And>g srv timeout i n st y. loop g srv timeout i n st = Some y \<Longrightarrow> cli_keeps R g \<longrightarrow> R st (snd y)"
    and body: "(case request_job g (poll_web g n) srv ''GET'' (''/jobs/'' @ FormatInt i) None st of
        (Inl e, st') \<Rightarrow> Some (Inl e, st')
      | (Inr job, st') \<Rightarrow>
          if Status job = StatusCompleted \<or> Status job = StatusFailed \<or> Status job = StatusCanceled
          then Some (Inr job, st')
          else if late g n
          then Some (Inl (''job '' @ FormatInt i @ '' still '' @ status_text (Status job) @ '' after '' @
                          Duration_String timeout), st')
          else loop g srv timeout i (Suc n) st') = Some y"
  show "cli_keeps R g \<longrightarrow> R st (snd y)"
  proof
    assume g: "cli_keeps R g"
    obtain x st1 where x: "request_job g (poll_web g n) srv ''GET'' (''/jobs/'' @ FormatInt i) None st = (x, st1)"
      by fastforce
    have "R st st1" using g by (intro keepsD [OF request_job_keeps x]) (simp add: cli_keeps_def)
    moreover have "R st1 (snd y)" using body [unfolded x] ih g refl by (cases x) (auto split: if_splits)
    ultimately show "R st (snd y)" by (rule trans)
  qed
qed

lemma cmdSubmit_keeps:
  assumes "cli_keeps R g" "cmdSubmit g opts st = Some (shown_end, st')"
  shows "R st st'"
proof (cases "Parse (submitFlags g) opts (submit_defaults g)")
  case (Inl e)
  with assms(2) refl show ?thesis by (simp add: cmdSubmit_def)
next
  case (Inr fl)
  obtain f rest_args where f: "fl = (f, rest_args)" by (cases fl)
  obtain x st1 where x: "request_job g (web g) (fServer f) ''POST'' ''/jobs'' (Some (submit_body f)) st = (x, st1)"
    by fastforce
  have first: "R st st1" using assms(1) by (intro keepsD [OF request_job_keeps x]) (simp add: cli_keeps_def)
  have "R st1 st'" if "TrimSpace (fPayload f) \<noteq> []"
    using assms(2) Inr f x that refl wait_terminal_keeps assms(1)
    by (fastforce simp: cmdSubmit_def submit_waited_def waitForTerminal_def split: sum.splits if_splits option.splits prod.splits)
  then have "R st st'" if "TrimSpace (fPayload f) \<noteq> []" using first that by (blast intro: trans)
  moreover have "R st st'" if "TrimSpace (fPayload f) = []"
    using assms(2) Inr f that refl by (simp add: cmdSubmit_def)
  ultimately show ?thesis by blast
qed

lemma cli_run_keeps:
  assumes "cli_keeps R g" "cli_run g argv st = Some (shown_end, st')"
  shows "R st st'"
proof -
  have "\<And>url. net_keeps R (web g url)" using assms(1) by (simp add: cli_keeps_def)
  note rq = keepsD [OF request_keeps [OF this]] and rj = keepsD [OF request_job_keeps [OF this]]
  have "R a (snd (cmdGet g opts a))" "R a (snd (cmdList g opts a))" "R a (snd (cmdCancel g opts a))"
    "R a (snd (cmdWorkers g opts a))" "R a (snd (cmdStats g opts a))" for opts a
    using refl rq rj
    by (auto simp: cmdGet_def cmdList_def cmdCancel_def cmdWorkers_def cmdStats_def
        split: sum.split prod.split chunk.split payload.split)
  with assms(2) cmdSubmit_keeps [OF assms(1)] refl show ?thesis
    by (auto simp: cli_run_def split: list.splits if_splits) (metis snd_conv)+
qed

end

section \<open>Every client is a sequence of requests\<close>

interpretation sys_run: client_preorder "(sys_step sv rp)\<^sup>*\<^sup>*" for sv rp
  by unfold_locales auto

text \<open>A network that leads to the server, in any sessions that keep the contract, with anything of the system happening in between.\<close>

definition wired :: "Server \<Rightarrow> Reaper \<Rightarrow> db net \<Rightarrow> bool" where
  "wired sv rp net \<longleftrightarrow> net_keeps ((sys_step sv rp)\<^sup>*\<^sup>*) net"

lemma wired_server: "session_ok s \<Longrightarrow> wired sv rp (server_net sv s)"
  using sys_step.request_served [of s sv rp]
  by (auto simp: wired_def net_keeps_def keeps_def server_net_def Let_def)

lemma wired_dead: "wired sv rp (dead m)"
  by (simp add: wired_def net_keeps_def keeps_def dead_def)

lemma wired_after:
  "wired sv rp net \<Longrightarrow> (\<And>d. (sys_step sv rp)\<^sup>*\<^sup>* d (f d)) \<Longrightarrow> wired sv rp (\<lambda>r d. net r (f d))"
  unfolding wired_def net_keeps_def keeps_def by (blast intro: rtranclp_trans)

definition worker_wired :: "Server \<Rightarrow> Reaper \<Rightarrow> db reg_env \<Rightarrow> db turn_input list \<Rightarrow> bool" where
  "worker_wired sv rp e is \<longleftrightarrow>
     reg_keeps ((sys_step sv rp)\<^sup>*\<^sup>*) e \<and> list_all (turn_keeps ((sys_step sv rp)\<^sup>*\<^sup>*)) is"

text \<open>What a run of the system guarantees about the tables.\<close>

lemma sys_steps_safe:
  assumes "(sys_step sv rp)\<^sup>*\<^sup>* d d'" "db_inv d"
  shows "db_inv d'" "j \<in> set (jobs d) \<Longrightarrow> terminal (Status j) \<Longrightarrow> j \<in> set (jobs d')"
proof -
  have g: "guar d d'" using assms by (rule sys_steps_guar)
  then show "db_inv d'" by (rule guar_inv)
  show "j \<in> set (jobs d')" if "j \<in> set (jobs d)" "terminal (Status j)"
    using g that job_steps_terminal [OF _ that(2)] by (force simp: guar_def db_evolves_def)
qed

end
