(* ===== verification/Claim_Queue.thy ===== *)
theory Claim_Queue
  imports Store_Props
begin

text \<open>
  The jobs table as a queue: the claimable jobs in claim order are a list, \<open>Claim\<close> takes
  its head. The interface is the locale \<open>work_queue\<close>; what a client that keeps taking
  gets is proved in the locale and holds of the store by interpretation.
\<close>

section \<open>The interface\<close>

text \<open>Taking \<open>n\<close> times: the items obtained and the state left.\<close>

fun take_n :: "('st \<Rightarrow> 'a option \<times> 'st) \<Rightarrow> nat \<Rightarrow> 'st \<Rightarrow> 'a option list \<times> 'st" where
  "take_n f 0 st = ([], st)"
| "take_n f (Suc n) st =
     (let (x, st1) = f st; (xs, st2) = take_n f n st1 in (x # xs, st2))"

locale work_queue =
  fixes take_one :: "'st \<Rightarrow> 'a option \<times> 'st"
    and queue :: "'st \<Rightarrow> 'b list"
    and item :: "'b \<Rightarrow> 'a"
    and ready :: "'st \<Rightarrow> bool"
  assumes got: "ready st \<Longrightarrow>
      fst (take_one st) = (case queue st of [] \<Rightarrow> None | x # _ \<Rightarrow> Some (item x))"
    and left: "ready st \<Longrightarrow> queue (snd (take_one st)) = tl (queue st)"
    and stays: "ready st \<Longrightarrow> ready (snd (take_one st))"
begin

lemma take_n_queue:
  "ready st \<Longrightarrow>
   fst (take_n take_one n st) =
     map (\<lambda>x. Some (item x)) (take n (queue st)) @ replicate (n - length (queue st)) None \<and>
   queue (snd (take_n take_one n st)) = drop n (queue st)"
proof (induction n arbitrary: st)
  case 0
  then show ?case by simp
next
  case (Suc n)
  note ih = Suc.IH [OF stays [OF Suc.prems]]
  show ?case
    using ih got [OF Suc.prems] left [OF Suc.prems]
    by (cases "queue st") (auto simp: Let_def split: prod.splits)
qed

end

section \<open>The store as a queue\<close>

definition claim_queue :: "session \<Rightarrow> db \<Rightarrow> Job list" where
  "claim_queue s d = sort_key claim_order (filter (claimable s) (jobs d))"

text \<open>A claim as its caller sees it.\<close>

definition claim_one :: "session \<Rightarrow> worker_id \<Rightarrow> duration \<Rightarrow> db \<Rightarrow> Job option \<times> db" where
  "claim_one s w lease d =
     (case Claim s w lease d of (Inl _, d') \<Rightarrow> (None, d') | (Inr j, d') \<Rightarrow> (Some j, d'))"

text \<open>A registered worker alone with a database that answers.\<close>

definition claim_ready :: "session \<Rightarrow> worker_id \<Rightarrow> db \<Rightarrow> bool" where
  "claim_ready s w d \<longleftrightarrow>
     no_faults s \<and> locked s = {} \<and> text_ok s w \<and> db_inv d \<and> w \<in> WID ` set (workers d)"

lemma claim_pick_queue:
  "locked s = {} \<Longrightarrow>
   claim_pick s d = (case claim_queue s d of [] \<Rightarrow> None | j # _ \<Rightarrow> Some j)"
  by (simp add: claim_pick_def claim_queue_def split: list.split)

lemma Claim_ready:
  assumes "claim_ready s w d"
  shows "Claim s w lease d =
    (case claim_queue s d of [] \<Rightarrow> (Inl ErrNoJobs, d)
     | j # _ \<Rightarrow> (Inr (claim_set s w lease j), claimed_db s w lease j d))"
proof -
  have c: "no_faults s" "locked s = {}" "text_ok s w" "db_inv d" "w \<in> WID ` set (workers d)"
    using assms by (simp_all add: claim_ready_def)
  have pick: "claim_pick s d = (case claim_queue s d of [] \<Rightarrow> None | j # _ \<Rightarrow> Some j)"
    using c(2) by (rule claim_pick_queue)
  have "filter (\<lambda>r. WID r = w) (workers d) \<noteq> []" using c(5) by (auto simp: filter_empty_conv)
  then show ?thesis
    using c(1-4) claim_attempts_fit [OF c(4), of s]
    by (cases "claim_queue s d")
      (auto simp: Claim_def withTx_no_faults claim_tx_def bind_ok_def pick Let_def claimed_db_def)
qed

lemma claim_one_eq:
  assumes "claim_ready s w d"
  shows "claim_one s w lease d =
    (case claim_queue s d of [] \<Rightarrow> (None, d)
     | j # _ \<Rightarrow> (Some (claim_set s w lease j), claimed_db s w lease j d))"
  by (simp add: claim_one_def Claim_ready [OF assms] split: list.split)

lemma claim_set_not_claimable [simp]: "\<not> claimable s (claim_set s w lease j)"
  by (simp add: claimable_def claim_set_def)

lemma claim_queue_distinct: "jobs_inv d \<Longrightarrow> distinct (claim_queue s d)"
  by (simp add: claim_queue_def jobs_inv_def distinct_map)

lemma claim_queue_left:
  assumes "jobs_inv d" "claim_queue s d = j # js"
  shows "claim_queue s (claimed_db s w lease j d) = js"
proof -
  have j: "j \<in> set (jobs d)"
    using sort_key_hd_mem [OF assms(2) [unfolded claim_queue_def]] by simp
  have "filter (claimable s) (jobs (claimed_db s w lease j d)) =
      filter (\<lambda>r. r \<noteq> j) (filter (claimable s) (jobs d))"
    using filter_map_if [of "claimable s" "\<lambda>_. claim_set s w lease j" "{j}" "jobs d"]
    by (simp add: claimed_db_def update_id_eq [OF assms(1) j])
  then have "claim_queue s (claimed_db s w lease j d) = filter (\<lambda>r. r \<noteq> j) (claim_queue s d)"
    unfolding claim_queue_def by (simp add: filter_sort [symmetric])
  also have "\<dots> = js"
    using claim_queue_distinct [OF assms(1), of s] assms(2) by (auto intro: filter_True)
  finally show ?thesis .
qed

interpretation store_queue: work_queue "claim_one s w lease" "claim_queue s" "claim_set s w lease"
  "claim_ready s w" for s w lease
proof unfold_locales
  fix d assume ready: "claim_ready s w d"
  then have ji: "jobs_inv d" and inv: "db_inv d" by (auto simp: claim_ready_def db_inv_def)
  show "fst (claim_one s w lease d) =
      (case claim_queue s d of [] \<Rightarrow> None | x # _ \<Rightarrow> Some (claim_set s w lease x))"
    unfolding claim_one_eq [OF ready] by (simp split: list.split)
  show "claim_queue s (snd (claim_one s w lease d)) = tl (claim_queue s d)"
    unfolding claim_one_eq [OF ready] using claim_queue_left [OF ji] by (simp split: list.split)
  have "db_inv (snd (claim_one s w lease d))"
    using guar_inv [OF guar_Claim [OF inv, of s w lease]]
    by (auto simp: claim_one_def split: prod.splits sum.splits)
  moreover have "map WID (workers (snd (claim_one s w lease d))) = map WID (workers d)"
    unfolding claim_one_eq [OF ready]
    by (auto simp: claimed_db_def claim_worker_set_def intro: map_update_where split: list.split)
  then have "WID ` set (workers (snd (claim_one s w lease d))) = WID ` set (workers d)"
    by (metis set_map)
  ultimately show "claim_ready s w (snd (claim_one s w lease d))"
    using ready by (simp add: claim_ready_def)
qed

text \<open>
  C8. The jobs table refines a FIFO queue: a registered worker that claims \<open>n\<close> times in a row
  gets exactly the first \<open>n\<close> claimable jobs in (available_at, id) order, each once and each
  with one more attempt, then only "no jobs"; what it did not take stays queued in the same order.
\<close>

theorem claims_drain_in_order:
  assumes "claim_ready s w d"
  shows "fst (take_n (claim_one s w lease) n d) =
      map (\<lambda>j. Some (claim_set s w lease j)) (take n (claim_queue s d)) @
      replicate (n - length (claim_queue s d)) None \<and>
    claim_queue s (snd (take_n (claim_one s w lease) n d)) = drop n (claim_queue s d) \<and>
    distinct (claim_queue s d) \<and> sorted (map claim_order (claim_queue s d)) \<and>
    set (claim_queue s d) = {j \<in> set (jobs d). Status j = StatusPending \<and> AvailableAt j \<le> now s}"
  using store_queue.take_n_queue [OF assms, of lease n] claim_queue_distinct [of d s] assms
  by (auto simp: claim_ready_def db_inv_def claim_queue_def claimable_def)

theorem claims_drain_in_order_witness:
  "map (map_option ID) (fst (take_n (claim_one (quiet 50) ''w2'' 1000) 3 demo_db)) =
     [Some 2, Some 3, None]"
proof -
  have "claim_ready (quiet 50) ''w2'' demo_db" 
  proof -
    have "''w2'' \<in> WID ` set (workers demo_db)" by (simp add: demo_db_def demo_worker_def)
    then show ?thesis by (simp add: claim_ready_def)
  qed
  moreover have "claim_queue (quiet 50) demo_db =
      [demo_job 2 StatusPending 0 None None, demo_job 3 StatusPending 0 None None]"
    by (simp add: claim_queue_def demo_defs claimable_def claim_order_def)
  ultimately show ?thesis
    using claims_drain_in_order [of "quiet 50" "''w2''" demo_db 1000 3]
    by (simp add: claim_set_def demo_job_def numeral_3_eq_3)
qed

end
