(* ===== verification/History.thy ===== *)
theory History
  imports Store_Props
begin

text \<open>
  The store under any sequence of calls by any number of clients: what the history of
  claims that reached a client looks like, and what every reachable state of the tables is.
  Each call carries its own \<open>session\<close>, so faults, lost acknowledgements, row locks and the
  interference of further sessions may differ from call to call.
\<close>

section \<open>Calls and histories\<close>

datatype op =
  OCreate string string int
| OClaim worker_id duration
| ORenew job_id worker_id duration
| OComplete job_id worker_id Result
| OFail job_id worker_id Result
| OCancel job_id
| OReap int
| ORegister worker_id string
| OHeartbeat worker_id

text \<open>One call: the jobs it handed to a client (at most one) and the tables after it.\<close>

fun exec :: "BackoffConfig \<Rightarrow> op \<Rightarrow> session \<Rightarrow> db \<Rightarrow> Job list \<times> db" where
  "exec cfg (OCreate ty payload n) s d = ([], snd (Create s ty payload n d))"
| "exec cfg (OClaim w lease) s d =
     (case Claim s w lease d of (Inl _, d') \<Rightarrow> ([], d') | (Inr j, d') \<Rightarrow> ([j], d'))"
| "exec cfg (ORenew i w lease) s d = ([], snd (RenewLease s i w lease d))"
| "exec cfg (OComplete i w res) s d = ([], snd (Complete s i w res d))"
| "exec cfg (OFail i w res) s d = ([], snd (Fail s cfg i w res d))"
| "exec cfg (OCancel i) s d = ([], snd (Cancel s i d))"
| "exec cfg (OReap n) s d = ([], snd (ReapExpiredLeases s cfg n d))"
| "exec cfg (ORegister w host) s d = ([], snd (RegisterWorker s w host d))"
| "exec cfg (OHeartbeat w) s d = ([], snd (Heartbeat s w d))"

fun run :: "BackoffConfig \<Rightarrow> (op \<times> session) list \<Rightarrow> db \<Rightarrow> Job list \<times> db" where
  "run cfg [] d = ([], d)"
| "run cfg ((c, s) # cs) d =
     (let (out, d1) = exec cfg c s d; (outs, d2) = run cfg cs d1 in (out @ outs, d2))"

definition sessions_ok :: "(op \<times> session) list \<Rightarrow> bool" where
  "sessions_ok cs \<longleftrightarrow> (\<forall>(c, s) \<in> set cs. session_ok s)"

lemma sessions_ok_simps [simp]:
  "sessions_ok []" "sessions_ok ((c, s) # cs) \<longleftrightarrow> session_ok s \<and> sessions_ok cs"
  by (simp_all add: sessions_ok_def)

section \<open>One call\<close>

text \<open>Whatever the call is, it keeps the contract of the store.\<close>

lemma guar_exec: "session_ok s \<Longrightarrow> db_inv d \<Longrightarrow> guar d (snd (exec cfg c s d))"
  using mCreate.keeps mClaim.keeps mRenew.keeps mComplete.keeps mFail.keeps mCancel.keeps
    mReap.keeps mRegister.keeps mHeartbeat.keeps
  by (cases c) (auto split: prod.split sum.split dest: arg_cong [where f = snd] simp del: prod.collapse,
      (metis snd_conv)+)

interpretation mExec: store_method "exec cfg c" for cfg c
  by unfold_locales (rule guar_exec)

text \<open>A job handed out is a row of the tables with one more attempt than the row had before.\<close>

lemma exec_handed_out:
  assumes "db_inv d" "j \<in> set (fst (exec cfg c s d))"
  shows "fst (exec cfg c s d) = [j]" "j \<in> set (jobs (snd (exec cfg c s d)))"
    "Status j = StatusRunning"
    "r \<in> set (jobs d) \<Longrightarrow> ID r = ID j \<Longrightarrow> Attempts r < Attempts j"
proof -
  from assms(2) obtain w lease d' where c: "c = OClaim w lease" "Claim s w lease d = (Inr j, d')"
    by (cases "(cfg, c, s, d)" rule: exec.cases) (auto split: prod.splits sum.splits)
  then show "fst (exec cfg c s d) = [j]" by simp
  have ji: "jobs_inv d" using assms(1) by (simp add: db_inv_def)
  have "claim_tx s w lease d = (Inr j, d')" using c(2) unfolding Claim_def by (rule withTx_Inr)
  then obtain k where k: "claim_pick s d = Some k" "j = claim_set s w lease k"
    "d' = claimed_db s w lease k d" by (rule claim_tx_Inr)
  note pick = claim_pick_Some(1) [OF k(1)]
  show "j \<in> set (jobs (snd (exec cfg c s d)))"
    using c k(2,3) pick by (auto simp: claimed_db_def set_update_where)
  show "Status j = StatusRunning" using k(2) by (simp add: claim_set_def)
  show "Attempts r < Attempts j" if "r \<in> set (jobs d)" "ID r = ID j"
    using jobs_inv_unique [OF ji that(1) pick] that(2) k(2) by (simp add: claim_set_def)
qed

section \<open>Histories\<close>

lemma run_guar: "sessions_ok cs \<Longrightarrow> db_inv d \<Longrightarrow> guar d (snd (run cfg cs d))"
proof (induction cs arbitrary: d)
  case Nil
  then show ?case by (simp add: guar_refl)
next
  case (Cons x cs)
  obtain c s where x: "x = (c, s)" by (cases x)
  have one: "guar d (snd (exec cfg c s d))" using Cons.prems x by (intro mExec.keeps) auto
  then have "guar (snd (exec cfg c s d)) (snd (run cfg cs (snd (exec cfg c s d))))"
    using Cons.prems x by (intro Cons.IH) (auto dest: guar_inv)
  with one show ?case unfolding x by (auto simp: Let_def split: prod.split dest: guar_trans)
qed

lemma evolved_attempts:
  assumes "guar d d'" "r \<in> set (jobs d)"
  obtains r' where "r' \<in> set (jobs d')" "ID r' = ID r" "Attempts r \<le> Attempts r'"
    "MaxAttempts r' = MaxAttempts r"
  using assms job_steps_same(1,4) job_steps_attempts unfolding guar_def db_evolves_def by metis

text \<open>
  Along a history every job handed out has more attempts than its row had at the start, is
  a well-formed running row, and its budget is that of the row at the end.
\<close>

lemma run_handed_out:
  assumes "sessions_ok cs" "db_inv d" "j \<in> set (fst (run cfg cs d))"
  shows "(\<forall>r \<in> set (jobs d). ID r = ID j \<longrightarrow> Attempts r < Attempts j) \<and>
    Status j = StatusRunning \<and> job_ok j \<and>
    (\<exists>r \<in> set (jobs (snd (run cfg cs d))). ID r = ID j \<and> MaxAttempts r = MaxAttempts j)"
  using assms
proof (induction cs arbitrary: d)
  case Nil
  then show ?case by simp
next
  case (Cons x cs)
  obtain c s where x: "x = (c, s)" by (cases x)
  let ?d1 = "snd (exec cfg c s d)"
  have one: "guar d ?d1" using Cons.prems x by (intro mExec.keeps) auto
  have rest: "guar ?d1 (snd (run cfg cs ?d1))"
    using Cons.prems(1) x guar_inv [OF one] by (intro run_guar) auto
  have last: "snd (run cfg (x # cs) d) = snd (run cfg cs ?d1)"
    unfolding x by (simp add: Let_def split: prod.split)
  consider (now) "j \<in> set (fst (exec cfg c s d))" | (later) "j \<in> set (fst (run cfg cs ?d1))"
    using Cons.prems(3) x by (auto simp: Let_def split: prod.splits)
  then show ?case
  proof cases
    case now
    note h = exec_handed_out [OF Cons.prems(2) now]
    moreover have "job_ok j"
      using guar_inv [OF one] h(2) by (auto simp: db_inv_def intro: jobs_invD(3))
    ultimately show ?thesis using evolved_attempts [OF rest h(2)] unfolding last by metis
  next
    case later
    have ih: "(\<forall>r \<in> set (jobs ?d1). ID r = ID j \<longrightarrow> Attempts r < Attempts j) \<and>
    Status j = StatusRunning \<and> job_ok j \<and>
      (\<exists>r \<in> set (jobs (snd (run cfg cs ?d1))). ID r = ID j \<and> MaxAttempts r = MaxAttempts j)"
      using Cons.prems(1) x guar_inv [OF one] later by (intro Cons.IH) auto
    moreover have "Attempts r < Attempts j" if "r \<in> set (jobs d)" "ID r = ID j" for r
      using evolved_attempts [OF one that(1)] ih that(2) by (metis order_le_less_trans)
    ultimately show ?thesis unfolding last by blast
  qed
qed

lemma run_distinct:
  assumes "sessions_ok cs" "db_inv d"
  shows "distinct (map (\<lambda>j. (ID j, Attempts j)) (fst (run cfg cs d)))"
  using assms
proof (induction cs arbitrary: d)
  case Nil
  then show ?case by simp
next
  case (Cons x cs)
  obtain c s where x: "x = (c, s)" by (cases x)
  let ?d1 = "snd (exec cfg c s d)"
  have inv: "db_inv ?d1" using Cons.prems x by (intro mExec.inv) auto
  have out: "fst (run cfg (x # cs) d) = fst (exec cfg c s d) @ fst (run cfg cs ?d1)"
    unfolding x by (simp add: Let_def split: prod.split)
  have ih: "distinct (map (\<lambda>j. (ID j, Attempts j)) (fst (run cfg cs ?d1)))"
    using Cons.prems(1) x inv by (intro Cons.IH) auto
  show ?case
  proof (cases "fst (exec cfg c s d)")
    case Nil
    with ih show ?thesis unfolding out by simp
  next
    case (Cons j js)
    then have "j \<in> set (fst (exec cfg c s d))" by simp
    note h = exec_handed_out [OF \<open>db_inv d\<close> this]
    have "(ID j, Attempts j) \<noteq> (ID k, Attempts k)" if "k \<in> set (fst (run cfg cs ?d1))" for k
      using run_handed_out [OF _ inv that] h(2) Cons.prems(1) x by auto
    with ih show ?thesis unfolding out h(1) by auto
  qed
qed

text \<open>
  Distinct attempts of a job, each within the budget of its row, are no more than the budget.
\<close>

lemma dispatch_budget:
  assumes "distinct (map (\<lambda>k. (ID k, Attempts k)) out)" "distinct (map ID rows)"
    and row: "\<And>k. k \<in> set out \<Longrightarrow> Status k = StatusRunning \<and> job_ok k \<and>
      (\<exists>r \<in> set rows. ID r = ID k \<and> MaxAttempts r = MaxAttempts k)"
    and j: "j \<in> set out"
  shows "int (length (filter (\<lambda>k. ID k = ID j) out)) \<le> MaxAttempts j"
proof -
  let ?ks = "filter (\<lambda>k. ID k = ID j) out"
  have range: "Attempts k \<in> {1..MaxAttempts j}" if "k \<in> set ?ks" for k
  proof -
    have k: "k \<in> set out" "ID k = ID j" using that by auto
    have "MaxAttempts k = MaxAttempts j"
      using row [OF k(1)] row [OF j] k(2) distinct_key_eq [OF assms(2)] by metis
    then show ?thesis using row [OF k(1)] by (auto simp: job_ok_def)
  qed
  have "distinct (map Attempts ?ks)"
    using assms(1) by (auto simp: distinct_map inj_on_def)
  then have "length ?ks = card (Attempts ` set ?ks)"
    using distinct_card [of "map Attempts ?ks"] by simp
  also have "\<dots> \<le> card {1..MaxAttempts j}" using range by (intro card_mono) auto
  also have "int (card {1..MaxAttempts j}) = MaxAttempts j"
    using row [OF j] by (auto simp: job_ok_def)
  finally show ?thesis by simp
qed

lemma handed_out_within_budget:
  assumes "db_inv d" "sessions_ok cs" "j \<in> set (fst (run cfg cs d))"
  shows "int (length (filter (\<lambda>k. ID k = ID j) (fst (run cfg cs d)))) \<le> MaxAttempts j"
proof (rule dispatch_budget [OF run_distinct [OF assms(2,1)] _ _ assms(3)])
  show "distinct (map ID (jobs (snd (run cfg cs d))))"
    using guar_inv [OF run_guar [OF assms(2,1)]] by (simp add: db_inv_def jobs_inv_def)
qed (use run_handed_out [OF assms(2,1)] in blast)

text \<open>
  C1. No double dispatch: over any history of store calls (concurrent workers, faults, lost
  acknowledgements, lease recovery and retries included) no two successful claims hand
  out the same attempt of the same job, and a job is handed out at most
  \<open>max_attempts\<close> times.
\<close>

theorem no_double_dispatch:
  assumes "db_inv d" "sessions_ok cs"
  shows "distinct (map (\<lambda>j. (ID j, Attempts j)) (fst (run cfg cs d))) \<and>
    (\<forall>j \<in> set (fst (run cfg cs d)).
       int (length (filter (\<lambda>k. ID k = ID j) (fst (run cfg cs d)))) \<le> MaxAttempts j)"
  using run_distinct [OF assms(2,1)] handed_out_within_budget [OF assms] by blast

lemma run_append:
  "run cfg (cs @ cs') d =
     (fst (run cfg cs d) @ fst (run cfg cs' (snd (run cfg cs d))), snd (run cfg cs' (snd (run cfg cs d))))"
proof (induction cs arbitrary: d)
  case (Cons x cs)
  then show ?case by (cases x) (simp add: Let_def split: prod.split)
qed simp

lemma sessions_ok_append [simp]: "sessions_ok (cs @ cs') \<longleftrightarrow> sessions_ok cs \<and> sessions_ok cs'"
  by (auto simp: sessions_ok_def)

text \<open>Worker w2 claims, the lease of job 1 runs out, a sweep runs, and w1 claims.\<close>

definition demo_history :: "(op \<times> session) list" where
  "demo_history =
     [(OClaim ''w2'' 1000, quiet 50), (OReap 10, quiet 500), (OClaim ''w1'' 1000, quiet 9000000)]"

lemmas demo_history_eval = demo_history_def Claim_def withTx_no_faults claim_tx_def claim_pick_def
  claimable_def claim_order_def claim_set_def claim_worker_set_def int4_ok_def ReapExpiredLeases_def
  reap_tx_def reap_select_def expired_def lease_key_def reap_job_def reap_worker_def reap_set_def
  reap_next_def holder_def demo_defs

lemma demo_history_out:
  "map (\<lambda>j. (ID j, Attempts j)) (fst (run DefaultBackoff demo_history demo_db)) = [(2, 1), (3, 1)]"
  by (simp add: demo_history_eval Delay_no_overflow)

theorem no_double_dispatch_witness:
  "map (\<lambda>j. (ID j, Attempts j)) (fst (run DefaultBackoff demo_history demo_db)) = [(2, 1), (3, 1)] \<and>
   distinct (map (\<lambda>j. (ID j, Attempts j)) (fst (run DefaultBackoff demo_history demo_db)))"
proof -
  have ok: "sessions_ok demo_history" by (simp add: demo_history_def)
  from no_double_dispatch [OF demo_inv ok, of DefaultBackoff] demo_history_out show ?thesis by blast
qed

section \<open>Reachable tables\<close>

text \<open>
  C5. Refinement of the job state machine: whatever calls are made, starting from the freshly
  migrated schema, every job row is well formed (attempts within budget; owner and lease
  set exactly as its status says), ids are unique, a worker's current job is RUNNING under that worker,
  and every row has come from a new row by steps of the abstract state machine alone.
\<close>

theorem reachable_refines_lifecycle:
  assumes "sessions_ok cs"
  shows "db_inv (snd (run cfg cs empty_db)) \<and>
    (\<forall>j \<in> set (jobs (snd (run cfg cs empty_db))).
       job_ok j \<and> (\<exists>j0. is_new j0 \<and> job_steps j0 j))"
proof -
  have "guar empty_db (snd (run cfg cs empty_db))"
    using assms db_inv_empty by (rule run_guar)
  then show ?thesis
    by (fastforce simp: guar_def db_inv_def jobs_inv_def db_evolves_def empty_db_def)
qed

definition boot_history :: "(op \<times> session) list" where
  "boot_history =
     [(ORegister ''w1'' ''h'', quiet 0), (OCreate ''shell'' ''true'' 3, quiet 1),
      (OClaim ''w1'' 1000, quiet 2), (OComplete 1 ''w1'' demo_result, quiet 3)]"

lemma boot_history_run:
  "map Status (jobs (snd (run DefaultBackoff boot_history empty_db))) = [StatusCompleted]"
  by (simp add: boot_history_def RegisterWorker_def new_worker_def Create_def new_job_def int4_ok_def
      Claim_def withTx_no_faults claim_tx_def claim_pick_def claimable_def claim_order_def
      claim_set_def claim_worker_set_def Complete_def finish_def settle_def report_tx_def
      complete_set_def owned_def exit_ok_def demo_result_def empty_db_def)

theorem reachable_refines_lifecycle_witness:
  "map Status (jobs (snd (run DefaultBackoff boot_history empty_db))) = [StatusCompleted] \<and>
   db_inv (snd (run DefaultBackoff boot_history empty_db)) \<and>
   (\<exists>j0. is_new j0 \<and> job_steps j0 (hd (jobs (snd (run DefaultBackoff boot_history empty_db)))))"
proof -
  have "sessions_ok boot_history" by (simp add: boot_history_def)
  moreover have "hd (jobs (snd (run DefaultBackoff boot_history empty_db)))
      \<in> set (jobs (snd (run DefaultBackoff boot_history empty_db)))"
    using boot_history_run by (intro hd_in_set) (auto simp del: run.simps)
  ultimately show ?thesis
    using reachable_refines_lifecycle [of boot_history DefaultBackoff] boot_history_run by blast
qed

text \<open>
  C6. Finality: a COMPLETED, FAILED or CANCELED job is never changed again by any history of
  calls: its row stays in the table, column for column, and it is never handed out.
\<close>

theorem terminal_rows_final:
  assumes "sessions_ok cs" "db_inv d" "j \<in> set (jobs d)" "terminal (Status j)"
  shows "j \<in> set (jobs (snd (run cfg cs d))) \<and> ID j \<notin> ID ` set (fst (run cfg cs d))"
proof
  have g: "guar d (snd (run cfg cs d))" using assms(1,2) by (rule run_guar)
  then show "j \<in> set (jobs (snd (run cfg cs d)))"
    using assms(3) job_steps_terminal [OF _ assms(4)] by (force simp: guar_def db_evolves_def)
  show "ID j \<notin> ID ` set (fst (run cfg cs d))"
    using assms
  proof (induction cs arbitrary: d)
    case Nil
    then show ?case by simp
  next
    case (Cons x cs)
    obtain c s where x: "x = (c, s)" by (cases x)
    let ?d1 = "snd (exec cfg c s d)"
    have s: "session_ok s" "sessions_ok cs" using Cons.prems(1) x by auto
    note kept = mExec.terminal_row_kept [OF s(1) Cons.prems(2,3,4), of cfg c]
    have inv: "db_inv ?d1" using s(1) Cons.prems(2) by (rule mExec.inv)
    have "ID j \<noteq> ID k" if "k \<in> set (fst (exec cfg c s d))" for k
    proof
      assume eq: "ID j = ID k"
      note h = exec_handed_out [OF Cons.prems(2) that]
      have "j = k" using jobs_inv_unique [OF _ kept h(2) eq] inv by (simp add: db_inv_def)
      with h(3) assms(4) show False by simp
    qed
    with Cons.IH [OF s(2) inv kept Cons.prems(4)] show ?case
      unfolding x by (fastforce simp: Let_def split: prod.splits)
  qed
qed

definition done_job :: Job where
  "done_job = demo_job 7 StatusCompleted 1 (Some ''w1'') None"

definition done_db :: db where
  "done_db = \<lparr>jobs = [done_job], workers = [demo_worker ''w1'' None], jobs_id_seq = 8\<rparr>"

theorem terminal_rows_final_witness:
  "done_job \<in> set (jobs (snd (run DefaultBackoff
     [(OClaim ''w1'' 1000, quiet 50), (OFail 7 ''w1'' demo_result, quiet 60)] done_db)))"
proof -
  have "db_inv done_db"
    by (simp add: db_inv_def jobs_inv_def workers_inv_def done_db_def done_job_def demo_defs job_ok_def
        int4_ok_def)
  from terminal_rows_final [OF _ this, of
      "[(OClaim ''w1'' 1000, quiet 50), (OFail 7 ''w1'' demo_result, quiet 60)]" done_job DefaultBackoff]
  show ?thesis by (simp add: done_db_def done_job_def demo_job_def)
qed

end
