(* ===== verification/Bench_Props.thy ===== *)
theory Bench_Props
  imports Bench Worker_E2E Claim_Queue History
begin

text \<open>
  What the load generator may conclude: a claimer alone drains the queue; the claimers of a race, however their
  requests interleave, never get the same job twice; and the printed verdict says exactly that.
\<close>

section \<open>The loop and its steps\<close>

lemma claimer_steps:
  "claimer_step one w (Looking out) st =
     (case one st of
        (Inl e, st') \<Rightarrow> (Finished (Inl e), st')
      | (Inr (Some i), st') \<Rightarrow> (Looking (out @ [(i, w)]), st')
      | (Inr None, st') \<Rightarrow> (Confirming out, st'))"
  "claimer_step one w (Confirming out) st =
     (case one st of
        (Inl e, st') \<Rightarrow> (Finished (Inl e), st')
      | (Inr (Some i), st') \<Rightarrow> (Looking (out @ [(i, w)]), st')
      | (Inr None, st') \<Rightarrow> (Finished (Inr out), st'))"
  by (simp_all add: claimer_step_def)

lemma claimer_step_finished [simp]: "claimer_step one w (Finished r) st = (Finished r, st)"
  by (simp add: claimer_step_def)

abbreviation steps where
  "steps one w n \<equiv> (\<lambda>(cl, st). claimer_step one w cl st) ^^ n"

lemma steps_Suc: "steps one w (Suc n) (cl, st) = steps one w n (claimer_step one w cl st)"
  by (simp add: funpow_Suc_right del: funpow.simps)

lemma steps_finished [simp]: "steps one w n (Finished r, st) = (Finished r, st)"
  by (induction n) simp_all

lemma claim_loop_steps:
  "claim_loop one w out st = Some y \<Longrightarrow> \<exists>n. steps one w n (Looking out, st) = (Finished (fst y), snd y)"
proof (erule claim_loop.raw_induct [where P = "\<lambda>one w out st y.
      \<exists>n. steps one w n (Looking out, st) = (Finished (fst y), snd y)", rotated])
  fix loop one w out st y
  assume ih: "\<And>one w out st y. loop one w out st = Some y \<Longrightarrow>
      \<exists>n. steps one w n (Looking out, st) = (Finished (fst y), snd y)"
    and body: "(case one st of
        (Inl e, st1) \<Rightarrow> Some (Inl e, st1)
      | (Inr (Some i), st1) \<Rightarrow> loop one w (out @ [(i, w)]) st1
      | (Inr None, st1) \<Rightarrow>
          (case one st1 of
             (Inl e, st2) \<Rightarrow> Some (Inl e, st2)
           | (Inr None, st2) \<Rightarrow> Some (Inr out, st2)
           | (Inr (Some i), st2) \<Rightarrow> loop one w (out @ [(i, w)]) st2)) = Some y"
  have go: "\<exists>n. steps one w n (Looking out, st) = (Finished (fst y), snd y)"
    if "steps one w m (Looking out, st) = (Looking out', st')" "loop one w out' st' = Some y" for m out' st'
  proof -
    from ih [OF that(2)] obtain n where "steps one w n (Looking out', st') = (Finished (fst y), snd y)" by blast
    with that(1) have "steps one w (n + m) (Looking out, st) = (Finished (fst y), snd y)"
      by (simp add: funpow_add)
    then show ?thesis by blast
  qed
  obtain x st1 where x: "one st = (x, st1)" by fastforce
  obtain x2 st2 where x2: "one st1 = (x2, st2)" by fastforce
  note s1 = steps_Suc [where n = 0 and one = one and w = w and cl = "Looking out" and st = st]
    and s2 = steps_Suc [where n = "Suc 0" and one = one and w = w and cl = "Looking out" and st = st]
  show "\<exists>n. steps one w n (Looking out, st) = (Finished (fst y), snd y)"
    using body x x2 go [of 1 "out @ [(the (projr x), w)]" st1] go [of 2 "out @ [(the (projr x2), w)]" st2]
      s1 s2 exI [of "\<lambda>n. steps one w n (Looking out, st) = (Finished (fst y), snd y)" 1]
      exI [of "\<lambda>n. steps one w n (Looking out, st) = (Finished (fst y), snd y)" 2]
    by (auto simp: claimer_steps numeral_2_eq_2 steps_Suc split: sum.splits option.splits)
qed

lemma steps_claim_loop:
  "steps one w n (Looking out, st) = (Finished r, st') \<Longrightarrow> claim_loop one w out st = Some (r, st')"
proof (induction n arbitrary: out st rule: less_induct)
  case (less n)
  show ?case
  proof (cases n)
    case 0
    with less.prems show ?thesis by simp
  next
    case (Suc m)
    obtain x st1 where x: "one st = (x, st1)" by fastforce
    obtain x2 st2 where x2: "one st1 = (x2, st2)" by fastforce
    have run: "steps one w m (claimer_step one w (Looking out) st) = (Finished r, st')"
      using less.prems unfolding Suc steps_Suc .
    consider (err) e where "x = Inl e" | (got) i where "x = Inr (Some i)" | (empty) "x = Inr None"
      by (cases x) auto
    then show ?thesis
    proof cases
      case err
      with run x show ?thesis by (subst claim_loop.simps) (simp add: claimer_steps)
    next
      case got
      with run x have "steps one w m (Looking (out @ [(i, w)]), st1) = (Finished r, st')"
        by (simp add: claimer_steps)
      with less.IH [of m] Suc got x show ?thesis by (subst claim_loop.simps) simp
    next
      case empty
      with run x have c: "steps one w m (Confirming out, st1) = (Finished r, st')" by (simp add: claimer_steps)
      then obtain m' where m': "m = Suc m'" by (cases m) auto
      with c have run2: "steps one w m' (claimer_step one w (Confirming out) st1) = (Finished r, st')"
        unfolding m' steps_Suc by simp
      show ?thesis
      proof (cases "\<exists>i. x2 = Inr (Some i)")
        case True
        then obtain i where i: "x2 = Inr (Some i)" by blast
        with run2 x2 have "steps one w m' (Looking (out @ [(i, w)]), st2) = (Finished r, st')"
          by (simp add: claimer_steps)
        with less.IH [of m'] Suc m' i empty x x2 show ?thesis by (subst claim_loop.simps) simp
      next
        case False
        with run2 x2 empty x show ?thesis
          by (subst claim_loop.simps) (auto simp: claimer_steps split: sum.splits option.splits)
      qed
    qed
  qed
qed


section \<open>A claim is the store's\<close>

text \<open>The server grants the benchmark's lease, and the claimers' names fit.\<close>

definition bench_ok :: "bench \<Rightarrow> codec \<Rightarrow> Server \<Rightarrow> worker_id list \<Rightarrow> bool" where
  "bench_ok b k sv ws \<longleftrightarrow>
     token b = AuthToken (cfg sv) \<and> MinLease (cfg sv) \<le> 600 * Second \<and> 600 * Second \<le> MaxLease (cfg sv) \<and>
     MaxLease (cfg sv) < 2 ^ 53 \<and>
     (\<forall>w \<in> set ws. plain_worker w \<and> int (object_len k (claim_body w 600)) \<le> MaxRequestBytes (cfg sv))"

definition claim_answer :: "(error + Job) \<times> db \<Rightarrow> (bench_error + job_id option) \<times> db" where
  "claim_answer res =
     (case res of
        (Inr j, d) \<Rightarrow> (Inr (Some (ID j)), d)
      | (Inl e, d) \<Rightarrow>
          (if e = ErrNoJobs then Inr None
           else case store_error_reply e of (st, code, msg) \<Rightarrow> Inl (HttpError ''POST'' ''/jobs/claim'' st code msg), d))"

lemma no_jobs_code: "store_error_reply e = (st, ''no_jobs_available'', msg) \<Longrightarrow> e = ErrNoJobs"
  by (cases e) (auto simp: code_defs)

lemma claimOne_eq:
  assumes "bench_ok b k sv ws" "w \<in> set ws"
  shows "claimOne b k (server_net sv s) w d = claim_answer (Claim s w (600 * Second) d)"
proof -
  have ok: "token b = AuthToken (cfg sv)" "plain_worker w"
    "int (object_len k (claim_body w 600)) \<le> MaxRequestBytes (cfg sv)"
    "clampLease sv (of_int 600) = 600 * Second"
    using assms clampLease_exact [of 600 sv] by (auto simp: bench_ok_def)
  let ?r = "(build_request \<lparr>BaseURL = server b, Token = token b\<rparr> k ''POST'' [''jobs'', ''claim'']
      (Some (claim_body w 600)))\<lparr>query := query_of ''/jobs/claim''\<rparr>"
  let ?q = "?r\<lparr>body_limit := nat (MaxRequestBytes (cfg sv)), PathValue := wild_value [Lit ''jobs'', Lit ''claim''] (segs ?r)\<rparr>"
  have route: "find (route_matches ?r) routes =
      Some \<lparr>verb = ''POST'', pats = [Lit ''jobs'', Lit ''claim''], target = handleClaim\<rparr>"
    by (simp add: routes_def route_matches_def verb_matches_def)
  have "carries ?q (claim_body w 600)" using ok(3) by (simp add: carries_def build_request_def)
  from handleClaim_tells [OF inner_simps(1) ok(2) _ this, of sv s d] ok(4)
  obtain st v where a: "answered (handleClaim sv s ?q (inner d)) st v"
    "tables (handleClaim sv s ?q (inner d)) = snd (Claim s w (600 * Second) d)"
    "case fst (Claim s w (600 * Second) d) of
       Inl e \<Rightarrow> (\<exists>code msg. store_error_reply e = (st, code, msg) \<and> v = ErrorBody msg code)
     | Inr j \<Rightarrow> st = 200 \<and> v = JobBody j"
    by (auto simp: tells_def)
  have "trusts sv ?r" using ok(1) by (simp add: trusts_def build_request_def)
  from server_net_route [OF this route _ a(1)] a(2)
  have net: "server_net sv s ?r d = (Reply st (Json v), snd (Claim s w (600 * Second) d))" by simp
  have kvs: "[(''lease_seconds'', JInt claimLease), (''worker_id'', jstr w)] = claim_body w 600"
    using jstr_worker [OF ok(2)] by (simp add: claim_body_def claimLease_def)
  show ?thesis
    using a(3) net unfolding claimOne_def kvs
    by (cases "Claim s w (600 * Second) d")
      (auto simp: bench_do_def url_segs_claim claim_answer_def code_defs dest: store_error_text no_jobs_code split: sum.splits error.splits)
qed

section \<open>The drain\<close>

lemma claim_loop_drains:
  assumes wq: "work_queue take_one queue item ready"
    and one: "\<And>st. ready st \<Longrightarrow> one st = (Inr (map_option f (fst (take_one st))), snd (take_one st))"
  shows "ready st \<Longrightarrow>
    \<exists>st'. claim_loop one w out st = Some (Inr (out @ map (\<lambda>x. (f (item x), w)) (queue st)), st') \<and>
          ready st' \<and> queue st' = []"
proof (induction "queue st" arbitrary: st out)
  case Nil
  note r0 = Nil.prems
  let ?st1 = "snd (take_one st)" and ?st2 = "snd (take_one (snd (take_one st)))"
  have r1: "ready ?st1" "queue ?st1 = []" "fst (take_one st) = None"
    using work_queue.stays [OF wq Nil.prems] work_queue.left [OF wq Nil.prems]
      work_queue.got [OF wq Nil.prems] Nil.hyps [symmetric] by simp_all
  have r2: "ready ?st2" "queue ?st2 = []" "fst (take_one ?st1) = None"
    using work_queue.stays [OF wq r1(1)] work_queue.left [OF wq r1(1)] work_queue.got [OF wq r1(1)] r1(2)
    by simp_all
  have "claim_loop one w out st = Some (Inr out, ?st2)"
    using r1(3) r2(3) by (subst claim_loop.simps) (simp add: one r0 r1)
  with r2 Nil.hyps [symmetric] show ?case by simp
next
  case (Cons x xs)
  note r0 = Cons.prems
  let ?st1 = "snd (take_one st)"
  have r1: "ready ?st1" "queue ?st1 = xs" "fst (take_one st) = Some (item x)"
    using work_queue.stays [OF wq Cons.prems] work_queue.left [OF wq Cons.prems]
      work_queue.got [OF wq Cons.prems] Cons.hyps(2) [symmetric] by simp_all
  have "claim_loop one w out st = claim_loop one w (out @ [(f (item x), w)]) ?st1"
    using r1(3) by (subst claim_loop.simps) (simp add: one r0 r1)
  with Cons.hyps(1) [OF r1(2) [symmetric] r1(1), of "out @ [(f (item x), w)]"] Cons.hyps(2) [symmetric] r1(2)
  show ?case by auto
qed


definition demo_bench :: bench where
  "demo_bench = \<lparr>server = [], token = [], payload_text = ''true''\<rparr>"

lemma demo_bench_ok: "bench_ok demo_bench demo_codec demo_server [''w2'']"
proof -
  have "object_len demo_codec (claim_body ''w2'' 600) = 38" by code_simp
  with plain_w2 show ?thesis by (simp add: bench_ok_def demo_bench_def Second_def)
qed


section \<open>The count of duplicates\<close>

lemma dom_tally: "dom (fst (tally rs seen n)) = dom seen \<union> fst ` set rs"
proof (induction rs arbitrary: seen n)
  case (Cons r rs)
  then show ?case by (cases r) (auto simp: dom_fun_upd simp del: fun_upd_apply)
qed simp

lemma snd_tally:
  "finite (dom seen) \<Longrightarrow>
   snd (tally rs seen n) = n + int (length rs) - (int (card (dom seen \<union> fst ` set rs)) - int (card (dom seen)))"
proof (induction rs arbitrary: seen n)
  case (Cons r rs)
  obtain i w where r: "r = (i, w)" by (cases r)
  have "dom (seen(i \<mapsto> w)) = insert i (dom seen)" by simp
  with Cons.IH [of "seen(i \<mapsto> w)"] Cons.prems show ?case
    by (cases "seen i") (auto simp: r card_insert_if domIff simp del: fun_upd_apply)
qed simp

text \<open>
  The benchmark's double-dispatch check is exact: over any records it counts a duplicate for each claim of a job
  beyond the first, so the verdict says "0 of N" if and only if no job was claimed twice, and N is the number of distinct
  jobs.
\<close>

lemma claim_verdict_exact:
  "snd (tally rs Map.empty 0) = int (length rs) - int (card (fst ` set rs)) \<and>
   card (dom (fst (tally rs Map.empty 0))) = card (fst ` set rs) \<and>
   (snd (tally rs Map.empty 0) = 0 \<longleftrightarrow> distinct (map fst rs)) \<and>
   (claimVerdict (int (card (dom (fst (tally rs Map.empty 0))))) (snd (tally rs Map.empty 0)) =
      ''0 of '' @ FormatInt (int (card (fst ` set rs))) @ '' jobs claimed twice'' \<longleftrightarrow> distinct (map fst rs))"
proof -
  have t: "dom (fst (tally rs Map.empty 0)) = fst ` set rs"
    "snd (tally rs Map.empty 0) = int (length rs) - int (card (fst ` set rs))"
    using dom_tally [of rs Map.empty 0] snd_tally [of Map.empty rs 0] by auto
  have "card (fst ` set rs) \<le> length rs" using card_length [of "map fst rs"] by simp
  moreover have d: "card (fst ` set rs) = length rs \<longleftrightarrow> distinct (map fst rs)"
    using card_distinct [of "map fst rs"] distinct_card [of "map fst rs"] by auto
  ultimately show ?thesis unfolding t by (auto simp: claimVerdict_def)
qed

section \<open>The race\<close>

text \<open>The records a claimer holds; an error throws them away.\<close>

fun records_of :: "claimer \<Rightarrow> claimRecord list" where
  "records_of (Looking out) = out"
| "records_of (Confirming out) = out"
| "records_of (Finished r) = (case r of Inl _ \<Rightarrow> [] | Inr out \<Rightarrow> out)"

definition ids :: "claimer \<Rightarrow> job_id multiset" where
  "ids cl = mset (map fst (records_of cl))"

text \<open>A request reaches the server, in a session that keeps the store's contract, or is lost.\<close>

definition reaches :: "Server \<Rightarrow> db net \<Rightarrow> bool" where
  "reaches sv net \<longleftrightarrow> (\<exists>s. session_ok s \<and> net = server_net sv s) \<or> (\<exists>m. net = dead m)"

lemma claimOne_dead: "claimOne b k (dead m) w d = (Inl (BenchOther m), d)"
  by (simp add: claimOne_def bench_do_def url_segs_claim dead_def)

text \<open>One request of one claimer is a history of at most one claim.\<close>

lemma claimer_step_history:
  assumes "bench_ok b k sv ws" "w \<in> set ws" "reaches sv net"
    "claimer_step (claimOne b k net w) w cl d = (cl', d')"
  shows "\<exists>cs. sessions_ok cs \<and> d' = snd (run bc cs d) \<and> ids cl' \<subseteq># ids cl + mset (map ID (fst (run bc cs d)))"
proof (cases "\<exists>m. net = dead m")
  case True
  with assms(4) have "d' = d" "ids cl' \<subseteq># ids cl"
    by (cases cl; auto simp: claimer_steps claimOne_dead ids_def)+
  then show ?thesis by (intro exI [of _ "[]"]) simp
next
  case False
  then obtain s where s: "session_ok s" "net = server_net sv s" using assms(3) by (auto simp: reaches_def)
  note one = claimOne_eq [OF assms(1,2), of s d]
  show ?thesis
  proof (cases cl)
    case (Finished r)
    with assms(4) show ?thesis by (intro exI [of _ "[]"]) simp
  qed (use assms(4) one s in \<open>intro exI [of _ "[(OClaim w (600 * Second), s)]"];
      auto simp: claimer_steps claim_answer_def ids_def split: prod.splits sum.splits option.splits if_splits\<close>)+
qed

lemma sum_list_update_mset:
  fixes g :: "'a \<Rightarrow> 'b multiset"
  shows "i < length xs \<Longrightarrow> sum_list (map g (xs[i := y])) + g (xs ! i) = sum_list (map g xs) + g y"
  by (induction xs arbitrary: i) (auto simp: ac_simps split: nat.split)

lemma race_history:
  assumes "bench_ok b k sv ws" "\<forall>(i, net) \<in> set sched. reaches sv net"
    "length cls = length ws" "race b k ws sched cls d = (cls', d')"
  shows "\<exists>cs. sessions_ok cs \<and> d' = snd (run bc cs d) \<and>
    sum_list (map ids cls') \<subseteq># sum_list (map ids cls) + mset (map ID (fst (run bc cs d)))"
  using assms(2-4)
proof (induction sched arbitrary: cls d)
  case Nil
  then show ?case by (intro exI [of _ "[]"]) simp
next
  case (Cons x sched)
  obtain i net where x: "x = (i, net)" by (cases x)
  show ?case
  proof (cases "i < length cls")
    case False
    with Cons x show ?thesis by simp
  next
    case True
    let ?w = "ws ! i"
    obtain cl d1 where st: "claimer_step (claimOne b k net ?w) ?w (cls ! i) d = (cl, d1)" by fastforce
    have w: "?w \<in> set ws" using True Cons.prems(2) by simp
    have net: "reaches sv net" using Cons.prems(1) x by simp
    obtain cs where cs: "sessions_ok cs" "d1 = snd (run bc cs d)"
      "ids cl \<subseteq># ids (cls ! i) + mset (map ID (fst (run bc cs d)))"
      using claimer_step_history [OF assms(1) w net st] by blast
    have "race b k ws sched (cls[i := cl]) d1 = (cls', d')" using Cons.prems(3) True x st by simp
    then obtain cs2 where cs2: "sessions_ok cs2" "d' = snd (run bc cs2 d1)"
      "sum_list (map ids cls') \<subseteq># sum_list (map ids (cls[i := cl])) + mset (map ID (fst (run bc cs2 d1)))"
      using Cons.IH [of "cls[i := cl]" d1] Cons.prems(1,2) by auto
    have "sum_list (map ids (cls[i := cl])) + ids (cls ! i) \<subseteq>#
        (sum_list (map ids cls) + mset (map ID (fst (run bc cs d)))) + ids (cls ! i)"
      unfolding sum_list_update_mset [OF True] using cs(3) by (simp add: ac_simps)
    then have "sum_list (map ids (cls[i := cl])) \<subseteq># sum_list (map ids cls) + mset (map ID (fst (run bc cs d)))"
      by simp
    with cs2(3) have "sum_list (map ids cls') \<subseteq>#
        sum_list (map ids cls) + mset (map ID (fst (run bc cs d))) + mset (map ID (fst (run bc cs2 d1)))"
      by (meson subset_mset.add_right_mono subset_mset.order_trans)
    with cs(1,2) cs2(1,2) show ?thesis
      by (intro exI [of _ "cs @ cs2"]) (simp add: run_append ac_simps)
  qed
qed

definition all_records :: "claimer list \<Rightarrow> claimRecord list" where
  "all_records cls = concat (map records_of cls)"

lemma mset_all_records: "mset (map fst (all_records cls)) = sum_list (map ids cls)"
  by (induction cls) (simp_all add: all_records_def ids_def)

lemma count_mset_map: "count (mset (map f xs)) x = length (filter (\<lambda>k. f k = x) xs)"
  by (induction xs) auto

lemma sum_ids_start: "sum_list (map ids (map (\<lambda>_. Looking []) ws)) = {#}"
  by (induction ws) (simp_all add: ids_def)

text \<open>
  C30. The race is safe under every interleaving: whatever the order in which the claimers' requests reach the server, and
  whatever requests, replies or locks get in the way, if the jobs they got have a budget of one attempt, as the
  benchmark seeds them, no job is recorded twice, by the same claimer or by two; the benchmark counts no duplicate.
\<close>

theorem race_never_doubles:
  assumes "bench_ok b k sv ws" "\<forall>(i, net) \<in> set sched. reaches sv net" "db_inv d"
    "race b k ws sched (map (\<lambda>_. Looking []) ws) d = (cls, d')"
    "\<forall>j \<in> set (jobs d'). ID j \<in> fst ` set (all_records cls) \<longrightarrow> MaxAttempts j = 1"
  shows "distinct (map fst (all_records cls)) \<and> snd (tally (all_records cls) Map.empty 0) = 0"
proof -
  obtain cs where cs: "sessions_ok cs" "d' = snd (run DefaultBackoff cs d)"
    "sum_list (map ids cls) \<subseteq># mset (map ID (fst (run DefaultBackoff cs d)))"
    using race_history [OF assms(1,2) _ assms(4), of DefaultBackoff] by (auto simp: sum_ids_start simp del: map_map)
  let ?out = "fst (run DefaultBackoff cs d)"
  have "count (mset (map fst (all_records cls))) x \<le> 1" for x
  proof (cases "x \<in> fst ` set (all_records cls)")
    case True
    then have "x \<in># mset (map fst (all_records cls))" by simp
    then have "x \<in># mset (map ID ?out)" using cs(3) unfolding mset_all_records by (rule mset_subset_eqD [rotated])
    then obtain j where j: "j \<in> set ?out" "ID j = x" by auto
    then have "MaxAttempts j = 1" using run_handed_out [OF cs(1) assms(3) j(1)] assms(5) cs(2) True by metis
    then have "length (filter (\<lambda>k. ID k = x) ?out) \<le> 1"
      using handed_out_within_budget [OF assms(3) cs(1) j(1)] j(2) by simp
    moreover have "count (mset (map ID ?out)) x = length (filter (\<lambda>k. ID k = x) ?out)"
      by (rule count_mset_map)
    moreover have "count (sum_list (map ids cls)) x \<le> count (mset (map ID ?out)) x"
      using cs(3) by (simp add: subseteq_mset_def)
    ultimately show ?thesis unfolding mset_all_records by linarith
  next
    case False
    then have "count (mset (map fst (all_records cls))) x = 0" by (simp add: count_eq_zero_iff)
    then show ?thesis by simp
  qed
  then have d: "distinct (map fst (all_records cls))"
    by (simp add: distinct_count_atmost_1 count_eq_zero_iff le_Suc_eq)
  then have "card (fst ` set (all_records cls)) = length (all_records cls)"
    using distinct_card [OF d] by simp
  with d snd_tally [of Map.empty "all_records cls" 0] show ?thesis by simp
qed

text \<open>Two claimers take turns on two pending jobs of one attempt each.\<close>

definition race_db :: db where
  "race_db = demo_db\<lparr>jobs := map (\<lambda>j. j\<lparr>MaxAttempts := 1\<rparr>) (jobs demo_db)\<rparr>"

lemma race_db_inv: "db_inv race_db"
  by (simp add: db_inv_def jobs_inv_def workers_inv_def race_db_def demo_defs job_ok_def int4_ok_def owned_def)

lemma race_ok: "bench_ok demo_bench demo_codec demo_server [''w1'', ''w2'']"
proof -
  have "object_len demo_codec (claim_body ''w1'' 600) = 38" by code_simp
  moreover have "plain_worker ''w1''" unfolding plain_worker_def by code_simp
  ultimately show ?thesis using demo_bench_ok by (simp add: bench_ok_def)
qed

definition race_sched :: "(nat \<times> db net) list" where
  "race_sched = [(0, server_net demo_server (quiet 50)), (1, server_net demo_server (quiet 50))]"

lemma race_db_run:
  "\<exists>d'. race demo_bench demo_codec [''w1'', ''w2''] race_sched [Looking [], Looking []] race_db =
     ([Looking [(2, ''w1'')], Looking [(3, ''w2'')]], d') \<and> (\<forall>j \<in> set (jobs d'). MaxAttempts j = 1)"
  by (simp add: race_sched_def claimer_steps claimOne_eq [OF race_ok] Claim_def withTx_no_faults claim_tx_def
      claim_pick_def claimable_def claim_order_def claim_set_def claim_worker_set_def claim_answer_def race_db_def
      demo_defs int4_ok_def)

theorem race_never_doubles_witness:
  "\<exists>cls d'. race demo_bench demo_codec [''w1'', ''w2''] race_sched [Looking [], Looking []] race_db = (cls, d') \<and>
     all_records cls = [(2, ''w1''), (3, ''w2'')] \<and> snd (tally (all_records cls) Map.empty 0) = 0"
proof -
  obtain d' where r: "race demo_bench demo_codec [''w1'', ''w2''] race_sched [Looking [], Looking []] race_db =
      ([Looking [(2, ''w1'')], Looking [(3, ''w2'')]], d')" "\<forall>j \<in> set (jobs d'). MaxAttempts j = 1"
    using race_db_run by blast
  have "\<forall>(i, net) \<in> set race_sched. reaches demo_server net"
    by (auto simp: race_sched_def reaches_def intro: session_ok_quiet)
  from race_never_doubles [OF race_ok this race_db_inv, of "[Looking [(2, ''w1'')], Looking [(3, ''w2'')]]" d'] r
  show ?thesis by (auto simp: all_records_def)
qed

section \<open>Levels\<close>

lemma parse_fields_ok:
  "parse_fields fs out = Inr ns \<Longrightarrow>
   \<exists>ms. ns = out @ ms \<and> map Some ms = map ParseInt (filter (\<lambda>f. f \<noteq> []) (map TrimSpace fs)) \<and> (\<forall>m \<in> set ms. 1 \<le> m)"
  by (induction fs arbitrary: out) (force simp: Let_def split: if_splits option.splits)+

text \<open>
  A level list that is accepted is not empty, holds only positive counts, and is the list of the non-blank fields, in order.
\<close>

lemma parseLevels_ok:
  assumes "parseLevels s = Inr ns"
  shows "ns \<noteq> [] \<and> (\<forall>n \<in> set ns. 1 \<le> n) \<and>
    map Some ns = map ParseInt (filter (\<lambda>f. f \<noteq> []) (map TrimSpace (split_on (CHR '','') s)))"
proof -
  have "parse_fields (split_on (CHR '','') s) [] = Inr ns" "ns \<noteq> []"
    using assms by (auto simp: parseLevels_def split: sum.splits if_splits)
  with parse_fields_ok [OF this(1)] show ?thesis by auto
qed

section \<open>The median\<close>

lemma sorted_middle:
  fixes s :: "int list"
  assumes "sorted s" "s \<noteq> []"
  defines "m \<equiv> s ! (length s div 2)"
  shows "m \<in> set s" "length s \<le> 2 * length (filter (\<lambda>x. x \<le> m) s)" "length s \<le> 2 * length (filter (\<lambda>x. m \<le> x) s)"
proof -
  let ?h = "length s div 2"
  have h: "?h < length s" using assms(2) by (cases s) auto
  then show "m \<in> set s" by (simp add: m_def)
  have "\<forall>x \<in> set (take (Suc ?h) s). x \<le> m" "\<forall>x \<in> set (drop ?h s). m \<le> x"
    unfolding m_def using assms(1) h by (auto simp: in_set_conv_nth intro!: sorted_nth_mono)
  then have "filter (\<lambda>x. x \<le> m) (take (Suc ?h) s) = take (Suc ?h) s" "filter (\<lambda>x. m \<le> x) (drop ?h s) = drop ?h s"
    by auto
  then have "Suc ?h \<le> length (filter (\<lambda>x. x \<le> m) s)" "length s - ?h \<le> length (filter (\<lambda>x. m \<le> x) s)"
    using h length_filter_take_drop [of "\<lambda>x. x \<le> m" s "Suc ?h"] length_filter_take_drop [of "\<lambda>x. m \<le> x" s ?h]
    by (simp_all add: diff_le_mono)
  then show "length s \<le> 2 * length (filter (\<lambda>x. x \<le> m) s)" "length s \<le> 2 * length (filter (\<lambda>x. m \<le> x) s)"
    by auto
qed
text \<open>
  The reported duration is a median of the durations: it is one of them, at least half of them are no larger and at
  least half no smaller.
\<close>

lemma middle_splits:
  assumes "xs \<noteq> []"
  shows "middle xs \<in> set xs \<and> length xs \<le> 2 * length (filter (\<lambda>x. x \<le> middle xs) xs) \<and>
    length xs \<le> 2 * length (filter (\<lambda>x. middle xs \<le> x) xs)"
proof -
  have len: "length (filter P (sort xs)) = length (filter P xs)" for P unfolding filter_sort by simp
  from assms have "sort xs \<noteq> []" by simp
  from sorted_middle [OF sorted_sort this] show ?thesis unfolding len middle_def by simp
qed

lemma middle_splits_witness: "middle [9, 1, 5, 7] = 7 \<and> middle [9, 1, 5, 7] \<in> set [9, 1, 5, 7]"
proof -
  have "middle [9, 1, 5, 7] = 7" by code_simp
  with middle_splits [of "[9, 1, 5, 7]"] show ?thesis by blast
qed

end
