(* ===== verification/Bench_System.thy ===== *)
theory Bench_System
  imports System Bench_Props
begin

text \<open>
  The load generator as a client of the system: whatever its phases do, they move the tables by requests alone.
\<close>

definition pipeline_keeps :: "('st \<Rightarrow> 'st \<Rightarrow> bool) \<Rightarrow> 'st pipeline_env \<Rightarrow> bool" where
  "pipeline_keeps R e \<longleftrightarrow>
     net_keeps R (workers_net e) \<and> net_keeps R (empty_net e) \<and> net_keeps R (baseline_net e) \<and>
     (\<forall>n. net_keeps R (submit_nets e n)) \<and>
     (\<forall>n. net_keeps R (drain_net (draining e) n)) \<and> (\<forall>n. net_keeps R (alive_net (draining e) n)) \<and>
     net_keeps R (median_net (draining e)) \<and>
     list_all (\<lambda>x. net_keeps R (submit_net x) \<and> (\<forall>n. net_keeps R (await_nets x n))) (sampling e)"

definition level_keeps :: "('st \<Rightarrow> 'st \<Rightarrow> bool) \<Rightarrow> 'st level_env \<Rightarrow> bool" where
  "level_keeps R e \<longleftrightarrow>
     (\<forall>n. net_keeps R (seed_nets e n)) \<and> (\<forall>n. net_keeps R (reg_nets e n)) \<and>
     list_all (\<lambda>(i, net). net_keeps R net) (schedule e)"

definition claim_keeps :: "('st \<Rightarrow> 'st \<Rightarrow> bool) \<Rightarrow> 'st claim_env \<Rightarrow> bool" where
  "claim_keeps R e \<longleftrightarrow>
     net_keeps R (foreign_net e) \<and> net_keeps R (backlog_net e) \<and>
     list_all (\<lambda>(n, l). level_keeps R l) (level_envs e) \<and>
     (\<forall>n. net_keeps R (fail_nets (cleaning e) n)) \<and> (\<forall>n. net_keeps R (cancel_nets (cleaning e) n))"

context client_preorder begin

lemma bench_do_keeps: "net_keeps R net \<Longrightarrow> keeps R (bench_do b k net meth path bdy)"
  using refl
  by (auto simp: keeps_def net_keeps_def bench_do_def
      split: option.split prod.split wire.split if_split chunk.split payload.split)
    (metis snd_conv)+

lemma readings_keep:
  assumes "net_keeps R net"
  shows "keeps R (statsResponse b k net)" "keeps R (terminalCount b k net)" "keeps R (requireEmptyQueue b k net)"
    "keeps R (aliveWorkers b k net)" "keeps R (foreignAliveWorkers b k net)" "keeps R (medianDurationMS b k net n)"
    "keeps R (bench_submit b k net)" "keeps R (claimOne b k net w)"
proof -
  note d = keepsD [OF bench_do_keeps [OF assms]]
  show s: "keeps R (statsResponse b k net)" for b k
    unfolding keeps_def statsResponse_def using d by (auto split: prod.split sum.split chunk.split payload.split)
  show "keeps R (terminalCount b k net)" "keeps R (requireEmptyQueue b k net)" "keeps R (aliveWorkers b k net)"
    unfolding keeps_def terminalCount_def requireEmptyQueue_def aliveWorkers_def using keepsD [OF s]
    by (auto simp: Let_def split: prod.split sum.split)
  show "keeps R (foreignAliveWorkers b k net)" "keeps R (medianDurationMS b k net n)" "keeps R (bench_submit b k net)"
    "keeps R (claimOne b k net w)"
    unfolding keeps_def foreignAliveWorkers_def medianDurationMS_def bench_submit_def claimOne_def using d
    by (auto simp: Let_def split: prod.split sum.split chunk.split payload.split)
qed

lemma fire_keeps: "(\<And>c. c \<in> set calls \<Longrightarrow> keeps R c) \<Longrightarrow> fire calls good failed st = (g, f, st') \<Longrightarrow> R st st'"
proof (induction calls arbitrary: good failed st)
  case Nil
  then show ?case using refl by simp
next
  case (Cons c calls)
  obtain x st1 where x: "c st = (x, st1)" by fastforce
  have "R st st1" using Cons.prems(1) x by (auto intro: keepsD)
  moreover have "R st1 st'" using Cons x by (cases x) auto
  ultimately show ?case by (rule trans)
qed

lemma pool_keeps: "(\<And>c. c \<in> set calls \<Longrightarrow> keeps R c) \<Longrightarrow> pool n calls st = Some (g, f, st') \<Longrightarrow> R st st'"
  using fire_keeps [of calls] by (auto simp: pool_def split: if_splits)

lemma claimer_step_keeps: "keeps R one \<Longrightarrow> claimer_step one w cl st = (cl', st') \<Longrightarrow> R st st'"
  using refl by (cases cl) (auto simp: claimer_steps dest!: keepsD split: prod.splits sum.splits option.splits)

lemma race_keeps:
  "list_all (\<lambda>(i, net). net_keeps R net) sched \<Longrightarrow> race b k ws sched cls st = (cls', st') \<Longrightarrow> R st st'"
proof (induction sched arbitrary: cls st)
  case Nil
  then show ?case using refl by simp
next
  case (Cons x sched)
  obtain i net where x: "x = (i, net)" by (cases x)
  show ?case
  proof (cases "i < length cls")
    case True
    obtain cl st1 where s: "claimer_step (claimOne b k net (ws ! i)) (ws ! i) (cls ! i) st = (cl, st1)" by fastforce
    have "R st st1" using Cons.prems(1) x by (intro claimer_step_keeps [OF readings_keep(8) s]) simp
    moreover have "R st1 st'" using Cons x s True by auto
    ultimately show ?thesis by (rule trans)
  next
    case False
    with Cons x show ?thesis by simp
  qed
qed

lemma register_all_keeps:
  "(\<And>n. net_keeps R (nets n)) \<Longrightarrow> register_all b k nets n ws st = (e, st') \<Longrightarrow> R st st'"
proof (induction ws arbitrary: n st)
  case Nil
  then show ?case using refl by simp
next
  case (Cons w ws)
  obtain x st1 where x: "bench_post b k (nets n) ''/workers/register''
      [(''hostname'', jstr ''queue-bench''), (''worker_id'', jstr w)] st = (x, st1)" by fastforce
  have "R st st1" using keepsD [OF bench_do_keeps [OF Cons.prems(1)] x] .
  moreover have "R st1 st'" using Cons x refl by (cases x) auto
  ultimately show ?case by (rule trans)
qed

lemma raceClaimers_keeps:
  assumes "level_keeps R e" "raceClaimers b k e level st = Some (r, st')"
  shows "R st st'"
proof -
  let ?ws = "map (claimer_name level) [0..<nat level]"
  obtain er st1 where g: "register_all b k (reg_nets e) 0 ?ws st = (er, st1)" by fastforce
  have "R st st1" using assms(1) by (intro register_all_keeps [OF _ g]) (simp add: level_keeps_def)
  moreover obtain cls st2 where c: "race b k ?ws (schedule e) (map (\<lambda>_. Looking []) ?ws) st1 = (cls, st2)" by fastforce
  have "R st1 st2" using assms(1) by (intro race_keeps [OF _ c]) (simp add: level_keeps_def)
  then have "R st1 st'" using assms(2) g c refl by (auto simp: raceClaimers_def Let_def split: option.splits)
  ultimately show ?thesis by (rule trans)
qed

lemma seedBacklog_keeps:
  "level_keeps R e \<Longrightarrow> seedBacklog b k (seed_nets e) n m st = Some (r, st') \<Longrightarrow> R st st'"
  by (auto simp: seedBacklog_def level_keeps_def intro!: bench_do_keeps elim!: pool_keeps [rotated])

lemma level_loop_keeps:
  "list_all (\<lambda>(n, l). level_keeps R l) ls \<Longrightarrow>
   level_loop b k seed m ls rows claimed seen dupes st = Some (r, st') \<Longrightarrow> R st st'"
proof (induction ls arbitrary: rows claimed seen dupes st)
  case Nil
  then show ?case using refl by simp
next
  case (Cons x ls)
  obtain n l where x: "x = (n, l)" by (cases x)
  then have l: "level_keeps R l" using Cons.prems(1) by simp
  obtain f st1 where s: "seedBacklog b k (seed_nets l) seed m st = Some (f, st1)"
    using Cons.prems(2) x by (auto split: option.splits)
  show ?case
  proof (cases f)
    case (Some er)
    with Cons.prems(2) x s have "st' = st1" by simp
    with seedBacklog_keeps [OF l s] show ?thesis by simp
  next
    case None
    then obtain q st2 where c: "raceClaimers b k l n st1 = Some (q, st2)"
      using Cons.prems(2) x s by (auto split: option.splits)
    have "R st2 st'"
      using Cons x s c None refl by (cases q) (auto split: prod.splits)
    then show ?thesis using seedBacklog_keeps [OF l s] raceClaimers_keeps [OF l c] by (blast intro: trans)
  qed
qed

lemma cancel_all_keeps: "net_keeps R net \<Longrightarrow> cancel_all b k net js st = (e, st') \<Longrightarrow> R st st'"
proof (induction js arbitrary: st)
  case Nil
  then show ?case using refl by simp
next
  case (Cons j js)
  obtain x st1 where x: "bench_do b k net ''POST'' (job_path (ID j) ''cancel'') None st = (x, st1)" by fastforce
  have "R st st1" using keepsD [OF bench_do_keeps [OF Cons.prems(1)] x] .
  moreover have "R st1 st'" using Cons x refl by (cases x) auto
  ultimately show ?case by (rule trans)
qed

lemma cancelPending_keeps:
  "cancelPending b k nets n st = Some y \<Longrightarrow> (\<forall>m. net_keeps R (nets m)) \<longrightarrow> R st (snd y)"
proof (erule cancelPending.raw_induct [where P = "\<lambda>b k nets n st y. (\<forall>m. net_keeps R (nets m)) \<longrightarrow> R st (snd y)", rotated])
  fix loop b k nets n st y
  assume ih: "\<And>b k nets n st y. loop b k nets n st = Some y \<Longrightarrow> (\<forall>m. net_keeps R (nets m)) \<longrightarrow> R st (snd y)"
    and body: "(case bench_get b k (nets n) ''/jobs?status=pending&limit=500'' st of
        (Inl e, st1) \<Rightarrow> Some (Some e, st1)
      | (Inr (Json (JobsBody js)), st1) \<Rightarrow>
          if js = [] then Some (None, st1)
          else (case cancel_all b k (nets n) js st1 of
                  (Some e, st2) \<Rightarrow> Some (Some e, st2)
                | (None, st2) \<Rightarrow> loop b k nets (Suc n) st2)
      | (Inr _, st1) \<Rightarrow> Some (Some decode_error, st1)) = Some y"
  show "(\<forall>m. net_keeps R (nets m)) \<longrightarrow> R st (snd y)"
  proof
    assume nets: "\<forall>m. net_keeps R (nets m)"
    obtain x st1 where x: "bench_get b k (nets n) ''/jobs?status=pending&limit=500'' st = (x, st1)" by fastforce
    have "R st st1" using nets by (intro keepsD [OF bench_do_keeps x]) simp
    moreover have "R st1 (snd y)"
    proof (cases "\<exists>js. x = Inr (Json (JobsBody js)) \<and> js \<noteq> []")
      case True
      then obtain js where js: "x = Inr (Json (JobsBody js))" "js \<noteq> []" by blast
      obtain er st2 where c: "cancel_all b k (nets n) js st1 = (er, st2)" by fastforce
      have "R st1 st2" using nets by (intro cancel_all_keeps [OF _ c]) simp
      moreover have "R st2 (snd y)" using body [unfolded x] js c ih nets refl by (cases er) auto
      ultimately show ?thesis by (rule trans)
    next
      case False
      with body [unfolded x] refl show ?thesis
        by (cases x) (auto split: chunk.splits payload.splits if_splits)
    qed
    ultimately show "R st (snd y)" by (rule trans)
  qed
qed

lemma cleanup_keeps:
  assumes "\<And>n. net_keeps R (fail_nets e n)" "\<And>n. net_keeps R (cancel_nets e n)" "cleanup b k e claimed m st = Some (r, st')"
  shows "R st st'"
proof -
  let ?calls = "map (\<lambda>(i, r). cleanup_fail b k (fail_nets e i) r) (enumerate 0 (order e claimed))"
  obtain good f st1 where p: "pool m ?calls st = Some (good, f, st1)"
    using assms(3) by (auto simp: cleanup_def split: option.splits)
  have "R st st1"
    by (rule pool_keeps [OF _ p]) (auto simp: cleanup_fail_def keeps_def dest: keepsD [OF bench_do_keeps [OF assms(1)]]
        intro: bench_do_keeps [OF assms(1), unfolded keeps_def, rule_format])
  moreover have "R st1 st'"
    using assms(3) p refl cancelPending_keeps [of b k "cancel_nets e" 0 st1 "(r, st')"] assms(2)
    by (auto simp: cleanup_def split: option.splits)
  ultimately show ?thesis by (rule trans)
qed

lemma runClaim_keeps:
  assumes "claim_keeps R e" "runClaim b k e seed m st = Some (r, st')"
  shows "R st st'"
proof -
  have e: "net_keeps R (foreign_net e)" "net_keeps R (backlog_net e)"
    "list_all (\<lambda>(n, l). level_keeps R l) (level_envs e)"
    "\<And>n. net_keeps R (fail_nets (cleaning e) n)" "\<And>n. net_keeps R (cancel_nets (cleaning e) n)"
    using assms(1) by (simp_all add: claim_keeps_def)
  obtain x st1 where x: "foreignAliveWorkers b k (foreign_net e) st = (x, st1)" by fastforce
  obtain y st2 where y: "requireEmptyQueue b k (backlog_net e) st1 = (y, st2)" by fastforce
  have one: "R st st1" "R st1 st2" using keepsD [OF readings_keep(5) [OF e(1)] x] keepsD [OF readings_keep(3) [OF e(2)] y] .
  have "R st2 st'" if "level_loop b k seed m (level_envs e) [] [] Map.empty 0 st2 = Some (l, st3)"
    "x = Inr a" "\<not> a > 0" "y = None" for l st3 a
  proof -
    have "R st2 st3" using level_loop_keeps [OF e(3) that(1)] .
    moreover have "R st3 st'"
      using assms(2) x y that refl cleanup_keeps [OF e(4,5)]
      by (auto simp: runClaim_def split: sum.splits option.splits prod.splits)
    ultimately show ?thesis by (rule trans)
  qed
  then have "st' = st1 \<or> st' = st2 \<or> R st2 st'"
    using assms(2) x y by (auto simp: runClaim_def split: sum.splits option.splits if_splits)
  with one show ?thesis by (blast intro: trans)
qed

lemma drain_loop_keeps:
  "drain_loop b k e baseline submitted timeout n st = Some y \<Longrightarrow>
   (\<forall>m. net_keeps R (drain_net e m) \<and> net_keeps R (alive_net e m)) \<longrightarrow> R st (snd y)"
proof (erule drain_loop.raw_induct [where P = "\<lambda>b k e baseline submitted timeout n st y.
      (\<forall>m. net_keeps R (drain_net e m) \<and> net_keeps R (alive_net e m)) \<longrightarrow> R st (snd y)", rotated])
  fix loop b k e baseline submitted timeout n st y
  assume ih: "\<And>b k e baseline submitted timeout n st y. loop b k e baseline submitted timeout n st = Some y \<Longrightarrow>
      (\<forall>m. net_keeps R (drain_net e m) \<and> net_keeps R (alive_net e m)) \<longrightarrow> R st (snd y)"
    and body: "(case terminalCount b k (drain_net e n) st of
        (Inl er, st1) \<Rightarrow> Some (Some er, st1)
      | (Inr fin, st1) \<Rightarrow>
          if fin - baseline \<ge> submitted then Some (None, st1)
          else if drain_late e n
          then Some (Some (BenchOther (drain_late_msg (fin - baseline) submitted timeout)), st1)
          else if check_due e n
          then (case aliveWorkers b k (alive_net e n) st1 of
                  (Inl er, st2) \<Rightarrow> Some (Some er, st2)
                | (Inr alive, st2) \<Rightarrow>
                    if alive = 0 then Some (Some (BenchOther (drain_dead_msg (fin - baseline) submitted)), st2)
                    else loop b k e baseline submitted timeout (Suc n) st2)
          else loop b k e baseline submitted timeout (Suc n) st1) = Some y"
  show "(\<forall>m. net_keeps R (drain_net e m) \<and> net_keeps R (alive_net e m)) \<longrightarrow> R st (snd y)"
  proof
    assume nets: "\<forall>m. net_keeps R (drain_net e m) \<and> net_keeps R (alive_net e m)"
    obtain x st1 where x: "terminalCount b k (drain_net e n) st = (x, st1)" by fastforce
    obtain a st2 where a: "aliveWorkers b k (alive_net e n) st1 = (a, st2)" by fastforce
    have one: "R st st1" "R st1 st2"
      using nets keepsD [OF readings_keep(2) x] keepsD [OF readings_keep(4) a] by auto
    have "st1 = snd y \<or> st2 = snd y \<or> R st1 (snd y) \<or> R st2 (snd y)"
      using body [unfolded x] a ih nets by (cases x; cases a) (auto split: if_splits)
    with one show "R st (snd y)" by (blast intro: trans)
  qed
qed

lemma awaitTerminal_keeps:
  "awaitTerminal b k nets late_at i timeout n st = Some y \<Longrightarrow> (\<forall>m. net_keeps R (nets m)) \<longrightarrow> R st (snd y)"
proof (erule awaitTerminal.raw_induct [where P = "\<lambda>b k nets late_at i timeout n st y.
      (\<forall>m. net_keeps R (nets m)) \<longrightarrow> R st (snd y)", rotated])
  fix loop b k nets late_at i timeout n st y
  assume ih: "\<And>b k nets late_at i timeout n st y. loop b k nets late_at i timeout n st = Some y \<Longrightarrow>
      (\<forall>m. net_keeps R (nets m)) \<longrightarrow> R st (snd y)"
    and body: "(case bench_get b k (nets n) (''/jobs/'' @ FormatInt i) st of
        (Inl e, st') \<Rightarrow> Some (Some e, st')
      | (Inr (Json (JobBody j)), st') \<Rightarrow>
          if Status j = StatusCompleted \<or> Status j = StatusFailed \<or> Status j = StatusCanceled then Some (None, st')
          else if late_at n
          then Some (Some (BenchOther (''job '' @ FormatInt i @ '' still '' @ status_text (Status j) @ '' after '' @
                 Duration_String timeout)), st')
          else loop b k nets late_at i timeout (Suc n) st'
      | (Inr _, st') \<Rightarrow> Some (Some decode_error, st')) = Some y"
  show "(\<forall>m. net_keeps R (nets m)) \<longrightarrow> R st (snd y)"
  proof
    assume nets: "\<forall>m. net_keeps R (nets m)"
    obtain x st1 where x: "bench_get b k (nets n) (''/jobs/'' @ FormatInt i) st = (x, st1)" by fastforce
    have "R st st1" using nets by (intro keepsD [OF bench_do_keeps x]) simp
    moreover have "R st1 (snd y)"
      using body [unfolded x] ih nets refl
      by (cases x) (auto split: chunk.splits payload.splits if_splits)
    ultimately show "R st (snd y)" by (rule trans)
  qed
qed

lemma latency_loop_keeps:
  "list_all (\<lambda>x. net_keeps R (submit_net x) \<and> (\<forall>n. net_keeps R (await_nets x n))) xs \<Longrightarrow>
   latency_loop b k xs ms st = Some (r, st') \<Longrightarrow> R st st'"
proof (induction xs arbitrary: ms st)
  case Nil
  then show ?case using refl by simp
next
  case (Cons x xs)
  obtain i st1 where s: "bench_submit b k (submit_net x) st = (i, st1)" by fastforce
  have one: "R st st1" using Cons.prems(1) by (intro keepsD [OF readings_keep(7) s]) simp
  show ?case
  proof (cases i)
    case (Inl e)
    with Cons.prems(2) s one show ?thesis by simp
  next
    case (Inr j)
    then obtain q st2 where a: "awaitTerminal b k (await_nets x) (await_late x) j (60 * Second) 0 st1 = Some (q, st2)"
      using Cons.prems(2) s by (auto split: option.splits)
    have "R st1 st2" using awaitTerminal_keeps [OF a] Cons.prems(1) by simp
    moreover have "R st2 st'" using Cons s Inr a refl by (cases q) auto
    ultimately show ?thesis using one by (blast intro: trans)
  qed
qed

lemma latencyPhase_keeps:
  assumes "list_all (\<lambda>x. net_keeps R (submit_net x) \<and> (\<forall>n. net_keeps R (await_nets x n))) xs"
    "latencyPhase b k xs st = Some (r, st')"
  shows "R st st'"
proof -
  obtain q where "latency_loop b k xs [] st = Some (q, st')" using assms(2) by (auto simp: latencyPhase_def)
  with assms(1) show ?thesis by (rule latency_loop_keeps)
qed

lemma submitPhase_keeps:
  "(\<And>n. net_keeps R (nets n)) \<Longrightarrow> submitPhase b k nets n m st = Some (r, st') \<Longrightarrow> R st st'"
  by (auto simp: submitPhase_def intro!: readings_keep elim!: pool_keeps [rotated])

lemma drainPhase_keeps:
  assumes "\<And>n. net_keeps R (drain_net e n)" "\<And>n. net_keeps R (alive_net e n)" "net_keeps R (median_net e)"
    "drainPhase b k e baseline submitted timeout st = Some (r, st')"
  shows "R st st'"
proof -
  obtain q st1 where d: "drain_loop b k e baseline submitted timeout 0 st = Some (q, st1)"
    using assms(4) by (auto simp: drainPhase_def split: option.splits)
  have "R st st1" using drain_loop_keeps [OF d] assms(1,2) by simp
  moreover have "R st1 st'"
    using assms(4) d refl keepsD [OF readings_keep(6) [OF assms(3)]] by (auto simp: drainPhase_def split: option.splits)
  ultimately show ?thesis by (rule trans)
qed

lemma bench_run_keeps:
  assumes "pipeline_keeps R e" "bench_run b k e total_jobs m timeout st = Some (r, st')"
  shows "R st st'"
proof -
  have e: "net_keeps R (workers_net e)" "net_keeps R (empty_net e)" "net_keeps R (baseline_net e)"
    "\<And>n. net_keeps R (submit_nets e n)" "\<And>n. net_keeps R (drain_net (draining e) n)"
    "\<And>n. net_keeps R (alive_net (draining e) n)" "net_keeps R (median_net (draining e))"
    "list_all (\<lambda>x. net_keeps R (submit_net x) \<and> (\<forall>n. net_keeps R (await_nets x n))) (sampling e)"
    using assms(1) by (simp_all add: pipeline_keeps_def)
  obtain x st1 where x: "aliveWorkers b k (workers_net e) st = (x, st1)" by fastforce
  obtain y st2 where y: "requireEmptyQueue b k (empty_net e) st1 = (y, st2)" by fastforce
  obtain z st3 where z: "terminalCount b k (baseline_net e) st2 = (z, st3)" by fastforce
  have one: "R st st1" "R st1 st2" "R st2 st3"
    using keepsD [OF readings_keep(4) [OF e(1)] x] keepsD [OF readings_keep(3) [OF e(2)] y]
      keepsD [OF readings_keep(2) [OF e(3)] z] .
  have late: "R st3 st'"
    if "z = Inr base" "submitPhase b k (submit_nets e) total_jobs m st3 = Some (s, st4)" "x = Inr a" "a \<noteq> 0" "y = None"
    for base s st4 a
  proof -
    note h = that
    have s4: "R st3 st4" using submitPhase_keeps [OF e(4) h(2)] .
    show ?thesis
    proof (cases s)
      case (Inl er)
      with assms(2) x y z h s4 show ?thesis by (simp add: bench_run_def)
    next
      case (Inr n)
      then obtain q st5 where d: "drainPhase b k (draining e) base n timeout st4 = Some (q, st5)"
        using assms(2) x y z h by (auto simp: bench_run_def split: option.splits)
      have "R st4 st5" using drainPhase_keeps [OF e(5-7) d] .
      moreover have "R st5 st'"
        using assms(2) x y z h d Inr refl latencyPhase_keeps [OF e(8)]
        by (cases q) (auto simp: bench_run_def Let_def split: if_splits)
      ultimately show ?thesis using s4 by (blast intro: trans)
    qed
  qed
  have "st' = st1 \<or> st' = st2 \<or> st' = st3 \<or> R st3 st'"
    using assms(2) x y z late by (auto simp: bench_run_def split: sum.splits option.splits if_splits)
  with one show ?thesis by (blast intro: trans)
qed

end

end
