(* ===== verification/Store_Reads.thy ===== *)
theory Store_Reads
  imports Store_Props
begin

text \<open>
  Creation and the reads: what \<open>Create\<close> inserts and \<open>Get\<close> finds again, paging through
  \<open>List\<close>, the totals of \<open>Stats\<close>, the workers table, and the cap on stored output.
\<close>

section \<open>Create and Get\<close>

text \<open>
  Round trip: a job whose request passed validation is inserted under a fresh id, PENDING with
  no attempts used and claimable at once, and reading that id back returns exactly the
  row the creator was given. No other row changes.
\<close>

lemma Create_then_Get:
  assumes "db_inv d" "no_faults s" "no_faults s'" "bind_ok s [TypeShell, payload]"
    "ValidateNew TypeShell payload n = None"
  shows "\<exists>j d'. Create s TypeShell payload n d = (Inr j, d') \<and> Get s' GetJob (ID j) d' = Inr j \<and>
     ID j \<notin> ID ` set (jobs d) \<and> jobs d' = jobs d @ [j] \<and> workers d' = workers d \<and>
     Type j = TypeShell \<and> Payload j = payload \<and> MaxAttempts j = n \<and> Attempts j = 0 \<and>
     Status j = StatusPending \<and> claimable s j"
proof -
  let ?j = "new_job s TypeShell payload n d"
  let ?d = "d\<lparr>jobs := jobs d @ [?j], jobs_id_seq := jobs_id_seq d + 1\<rparr>"
  have n: "1 \<le> n" "n \<le> 100" using assms(5) by (auto simp: ValidateNew_None_iff)
  then have c: "Create s TypeShell payload n d = (Inr ?j, ?d)"
    using assms(2,4) by (simp add: Create_def int4_ok_def)
  have fresh: "ID ?j \<notin> ID ` set (jobs d)"
    using assms(1) by (auto simp: db_inv_def jobs_inv_def new_job_def)
  have "db_inv ?d" using guar_inv [OF guar_Create [OF assms(1), of s TypeShell payload n]] c by simp
  then have "find (\<lambda>j. ID j = ID ?j) (jobs ?d) = Some ?j"
    by (subst jobs_inv_find) (auto simp: db_inv_def)
  then have "Get s' GetJob (ID ?j) ?d = Inr ?j" using assms(3) by (simp add: Get_def)
  with c fresh show ?thesis by (auto simp: new_job_def claimable_def)
qed

section \<open>List\<close>

definition listing :: "string \<Rightarrow> db \<Rightarrow> Job list" where
  "listing status d =
     sort_key (\<lambda>j. - ID j) (filter (\<lambda>j. status = [] \<or> status_text (Status j) = status) (jobs d))"

definition page :: "session \<Rightarrow> string \<Rightarrow> int \<Rightarrow> int \<Rightarrow> db \<Rightarrow> Job list" where
  "page s status limit offset d =
     (case List_jobs s status limit offset d of Inl _ \<Rightarrow> [] | Inr js \<Rightarrow> js)"

lemma page_eq:
  assumes "no_faults s" "status = [] \<or> text_ok s status" "1 \<le> limit" "limit \<le> 500" "0 \<le> offset"
  shows "page s status limit offset d = take (nat limit) (drop (nat offset) (listing status d))"
  using assms by (auto simp: page_def List_jobs_def listing_def bind_ok_def)

lemma concat_pages:
  "concat (map (\<lambda>k. take m (drop (k * m) xs)) [0..<n]) = take (n * m) xs"
proof (induction n)
  case 0
  then show ?case by simp
next
  case (Suc n)
  then show ?case by (simp add: take_add [symmetric] add.commute)
qed

lemma sorted_neg_key:
  assumes "sorted (map (\<lambda>j. - ID j) js)" "distinct (map ID js)"
  shows "sorted_wrt (\<lambda>a b. ID b < ID a) js"
  using assms by (induction js) (force simp: image_iff order_less_le)+

text \<open>
  C37. Paging is complete: asking for page after page of a legal size (1 to 500) yields every matching
  job exactly once, newest first, and nothing else; out-of-range sizes fall back to 100, so a
  response never carries more than 500 jobs.
\<close>

theorem List_pages_complete:
  assumes "db_inv d" "no_faults s" "status = [] \<or> text_ok s status" "1 \<le> limit" "limit \<le> 500"
    "length (jobs d) \<le> n * nat limit"
  shows "(let all = concat (map (\<lambda>k. page s status limit (int k * limit) d) [0..<n]) in
      set all = {j \<in> set (jobs d). status = [] \<or> status_text (Status j) = status} \<and>
      sorted_wrt (\<lambda>a b. ID b < ID a) all) \<and>
    (\<forall>l off. length (page s status l off d) \<le> 500)"
proof -
  have "page s status limit (int k * limit) d = take (nat limit) (drop (k * nat limit) (listing status d))"
    for k
    using assms(2-5) by (subst page_eq) (auto simp: nat_mult_distrib)
  then have "concat (map (\<lambda>k. page s status limit (int k * limit) d) [0..<n]) =
      take (n * nat limit) (listing status d)"
    by (simp add: concat_pages)
  also have "length (listing status d) \<le> n * nat limit"
    unfolding listing_def length_sort using assms(6) by (rule order_trans [OF length_filter_le])
  then have "take (n * nat limit) (listing status d) = listing status d" by simp
  finally have all: "concat (map (\<lambda>k. page s status limit (int k * limit) d) [0..<n]) = listing status d" .
  have "distinct (map ID (listing status d))"
    using assms(1) by (auto simp: listing_def db_inv_def jobs_inv_def distinct_map inj_on_def)
  then have "sorted_wrt (\<lambda>a b. ID b < ID a) (listing status d)"
    by (intro sorted_neg_key) (auto simp: listing_def)
  moreover have "length (page s status l off d) \<le> 500" for l off
    by (auto simp: page_def List_jobs_def Let_def split: option.split)
  ultimately show ?thesis unfolding all Let_def by (auto simp: listing_def)
qed

theorem List_pages_complete_witness:
  "(let all = concat (map (\<lambda>k. page (quiet 1) ''PENDING'' 1 (int k * 1) demo_db) [0..<3]) in
      set all = {j \<in> set (jobs demo_db). ''PENDING'' = [] \<or> status_text (Status j) = ''PENDING''} \<and>
      sorted_wrt (\<lambda>a b. ID b < ID a) all)"
  using List_pages_complete [OF demo_inv, of "quiet 1" "''PENDING''" 1 3] by (simp add: demo_db_def Let_def)

section \<open>Stats\<close>

lemma foldl_zero_map:
  "foldl (\<lambda>m st. m(status_text st \<mapsto> 0)) m0 sts x =
     (if x \<in> status_text ` set sts then Some 0 else m0 x)"
  by (induction sts arbitrary: m0) auto

lemma foldl_count_map:
  "distinct sts \<Longrightarrow>
   foldl (\<lambda>m (st, n). m(status_text st \<mapsto> n)) m0 (map (\<lambda>st. (st, g st)) sts) (status_text st) =
     (if st \<in> set sts then Some (g st) else m0 (status_text st))"
  by (induction sts arbitrary: m0) auto

lemma foldl_count_map_other:
  "x \<notin> range status_text \<Longrightarrow>
   foldl (\<lambda>m (st, n). m(status_text st \<mapsto> n)) m0 (map (\<lambda>st. (st, g st)) sts) x = m0 x"
  by (induction sts arbitrary: m0) auto

lemma status_count_sum: "(\<Sum>st \<in> UNIV. status_count d st) = length (jobs d)"
proof -
  have "(\<Sum>st \<in> UNIV. length (filter (\<lambda>j. Status j = st) js)) = length js" for js :: "Job list"
  proof (induction js)
    case (Cons j js)
    have "(\<Sum>st \<in> UNIV. length (filter (\<lambda>k. Status k = st) (j # js))) =
        (\<Sum>st \<in> UNIV. length (filter (\<lambda>k. Status k = st) js) + (if Status j = st then 1 else 0))"
      by (rule sum.cong) auto
    with Cons.IH show ?case by (simp add: sum.distrib)
  qed simp
  then show ?thesis by (simp add: status_count_def)
qed

text \<open>
  The statistics name every status, zero counts included, and no other key; each count is the number of
  jobs in that status, and together they account for every job.
\<close>

lemma Stats_counts_every_job:
  assumes "no_faults s"
  shows "\<exists>m. Stats s d = Inr m \<and> dom m = range status_text \<and>
     (\<forall>st. m (status_text st) = Some (int (length (filter (\<lambda>j. Status j = st) (jobs d))))) \<and>
     (\<Sum>st \<in> UNIV. the (m (status_text st))) = int (length (jobs d))"
proof -
  obtain m where m: "Stats s d = Inr m"
    and m_def: "m = foldl (\<lambda>m (st, n). m(status_text st \<mapsto> n))
               (foldl (\<lambda>m st. m(status_text st \<mapsto> 0)) Map.empty all_statuses) (stats_groups d)"
    using assms by (simp add: Stats_def)
  have dist: "distinct (filter (\<lambda>st. status_count d st > 0) all_statuses)"
    by (rule distinct_filter) (simp add: all_statuses_def)
  have count: "m (status_text st) = Some (int (status_count d st))" for st
    unfolding m_def stats_groups_def
    by (simp add: foldl_count_map [OF dist] foldl_zero_map all_statuses_UNIV)
  moreover have "m x = None" if "x \<notin> range status_text" for x
    using that unfolding m_def stats_groups_def
    by (auto simp: foldl_count_map_other foldl_zero_map)
  ultimately have "dom m = range status_text" by (force simp: dom_def)
  moreover have "(\<Sum>st \<in> UNIV. the (m (status_text st))) = int (length (jobs d))"
    using status_count_sum [of d] by (simp add: count flip: of_nat_sum)
  ultimately show ?thesis using m count by (auto simp: status_count_def)
qed

lemma Stats_counts_every_job_witness:
  "\<exists>m. Stats (quiet 1) demo_db = Inr m \<and> m ''PENDING'' = Some 2 \<and> m ''FAILED'' = Some 0"
proof -
  from Stats_counts_every_job [of "quiet 1" demo_db] obtain m where
    m: "Stats (quiet 1) demo_db = Inr m"
    "m (status_text st) = Some (int (length (filter (\<lambda>j. Status j = st) (jobs demo_db))))" for st
    by auto
  from m(1) m(2) [of StatusPending] m(2) [of StatusFailed] show ?thesis by (simp add: demo_defs)
qed

section \<open>Workers\<close>

text \<open>
  Registering is an upsert: afterwards the worker is known exactly once; a restarted worker keeps
  its processed count and registration time, loses its current job, and its
  heartbeat is fresh. Other workers are untouched, and a claim by it is no longer refused
  for being unknown.
\<close>

lemma RegisterWorker_upsert:
  assumes "db_inv d" "no_faults s" "bind_ok s [w, host]"
  shows "\<exists>v d'. RegisterWorker s w host d = (Inr v, d') \<and> Alive v \<and> WID v = w \<and> Hostname v = host \<and>
     CurrentJobID v = None \<and> LastHeartbeat v = now s \<and> jobs d' = jobs d \<and>
     filter (\<lambda>r. WID r \<noteq> w) (workers d') = filter (\<lambda>r. WID r \<noteq> w) (workers d) \<and>
     filter (\<lambda>r. WID r = w) (workers d') =
       [\<lparr>WID = w, Hostname = host, RegisteredAt = RegisteredAt v, LastHeartbeat = now s,
         JobsProcessed = JobsProcessed v, CurrentJobID = None\<rparr>] \<and>
     (\<forall>r \<in> set (workers d). WID r = w \<longrightarrow>
        RegisteredAt v = RegisteredAt r \<and> JobsProcessed v = JobsProcessed r)"
proof (cases "find (\<lambda>r. WID r = w) (workers d)")
  case None
  then have "filter (\<lambda>r. WID r = w) (workers d) = []"
    using find_NoneD [OF None] by (auto simp: filter_empty_conv)
  moreover have "\<forall>r \<in> set (workers d). WID r \<noteq> w" using find_NoneD [OF None] by auto
  ultimately show ?thesis
    using None assms(2,3) by (auto simp: RegisterWorker_def with_alive_def new_worker_def)
next
  case (Some r)
  have dist: "distinct (map WID (workers d))" using assms(1) by (simp add: db_inv_def workers_inv_def)
  have r: "r \<in> set (workers d)" "WID r = w" using find_SomeD [OF Some] by auto
  have only: "r' = r" if "r' \<in> set (workers d)" "WID r' = w" for r'
    using distinct_key_eq [OF dist that(1) r(1)] that(2) r(2) by simp
  have "filter (\<lambda>r. WID r = w) (update_where (\<lambda>r. WID r = w) f rs) = map f (filter (\<lambda>r. WID r = w) rs)"
    "filter (\<lambda>r. WID r \<noteq> w) (update_where (\<lambda>r. WID r = w) f rs) = filter (\<lambda>r. WID r \<noteq> w) rs"
    if "\<And>r. WID (f r) = WID r" for f :: "worker_row \<Rightarrow> worker_row" and rs
    using that by (induction rs) auto
  note upd = this [of "reregister_set s host" "workers d"]
  have "filter (\<lambda>r. WID r = w) (workers d) = [r]"
    using filter_key_single [OF dist r(1)] r(2) by simp
  moreover have "reregister_set s host r =
      \<lparr>WID = w, Hostname = host, RegisteredAt = RegisteredAt r, LastHeartbeat = now s,
       JobsProcessed = JobsProcessed r, CurrentJobID = None\<rparr>"
    using r(2) by (cases r) (simp add: reregister_set_def)
  moreover have "\<And>x. WID (reregister_set s host x) = WID x" by (simp add: reregister_set_def)
  ultimately show ?thesis
    using upd Some assms(2,3) only by (auto simp: RegisterWorker_def with_alive_def)
qed

lemma RegisterWorker_upsert_witness:
  "\<exists>v d'. RegisterWorker (quiet 9) ''w1'' ''h2'' demo_db = (Inr v, d') \<and> CurrentJobID v = None \<and>
     length (filter (\<lambda>r. WID r = ''w1'') (workers d')) = 1"
  using RegisterWorker_upsert [OF demo_inv, of "quiet 9" "''w1''" "''h2''"] by auto

text \<open>
  The worker list is every registered worker once, oldest registration first, and a worker is shown alive exactly
  when its last heartbeat is younger than the timeout.
\<close>

lemma ListWorkers_alive:
  assumes "no_faults s"
  shows "\<exists>vs. ListWorkers s timeout d = Inr vs \<and> sorted (map RegisteredAt vs) \<and>
     mset (map WID vs) = mset (map WID (workers d)) \<and>
     (\<forall>v \<in> set vs. \<exists>r \<in> set (workers d). WID v = WID r \<and> LastHeartbeat v = LastHeartbeat r \<and>
        CurrentJobID v = CurrentJobID r \<and> (Alive v \<longleftrightarrow> now s - interval s timeout < LastHeartbeat r))"
proof -
  let ?f = "\<lambda>r. with_alive (LastHeartbeat r > now s - interval s timeout) r"
  have "map RegisteredAt (map ?f rs) = map RegisteredAt rs" "map WID (map ?f rs) = map WID rs" for rs
    by (simp_all add: with_alive_def)
  then have "sorted (map RegisteredAt (map ?f (sort_key RegisteredAt (workers d))))"
    "mset (map WID (map ?f (sort_key RegisteredAt (workers d)))) = mset (map WID (workers d))"
    by (simp_all del: map_map)
  then show ?thesis using assms by (auto simp: ListWorkers_def with_alive_def simp del: map_map)
qed

lemma ListWorkers_alive_witness:
  "\<exists>vs. ListWorkers (quiet 5) 1000000 demo_db = Inr vs \<and> sorted (map RegisteredAt vs)"
  using ListWorkers_alive [of "quiet 5" 1000000 demo_db] by auto

section \<open>The cap on stored output\<close>

text \<open>
  Stored output is bounded by the cap plus the marker, is the text itself up to the cap, always
  begins with the first 32 KiB of the text, and capping twice is the same as capping once, so a
  retried report stores the same bytes.
\<close>

lemma TruncateOutput_bounds:
  "length (TruncateOutput s) \<le> MaxResultBytes + 15 \<and>
   (length s \<le> MaxResultBytes \<longrightarrow> TruncateOutput s = s) \<and>
   take MaxResultBytes (TruncateOutput s) = take MaxResultBytes s \<and>
   TruncateOutput (TruncateOutput s) = TruncateOutput s"
  by (auto simp: TruncateOutput_def)

text \<open>
  The cut is at a byte, not at a character: a two-byte character across the 32 KiB boundary leaves
  text that is not UTF-8 although the input was, which a UTF-8 database refuses.
\<close>

lemma TruncateOutput_splits_character:
  "utf8_valid (replicate 32767 CHR ''a'' @ [CHR 0xC3, CHR 0xA9]) \<and>
   \<not> utf8_valid (TruncateOutput (replicate 32767 CHR ''a'' @ [CHR 0xC3, CHR 0xA9]))"
proof -
  have a: "byte_in 0 0x7F CHR ''a''" by code_simp
  have "utf8_valid [CHR 0xC3, CHR 0xA9]" "\<not> utf8_valid (CHR 0xC3 # CHR 0x0A # ''...[truncated]'')"
    by code_simp+
  then show ?thesis
    by (simp add: TruncateOutput_def MaxResultBytes_def utf8_valid_replicate_ascii [OF a]
        del: replicate.simps)
qed

end
