(* ===== verification/Cli_Props.thy ===== *)
theory Cli_Props
  imports Cli Worker_E2E Store_Reads
begin

text \<open>
  What the command line client promises: waiting ends and means what it says, and a command sent to the server is
  the store's operation with the store's verdict on the terminal.
\<close>

section \<open>Tables\<close>

text \<open>A payload in a table row never breaks the row and never overflows it.\<close>

lemma truncate_fits:
  assumes "3 \<le> n"
  shows "\<exists>t. truncate_text s n = Some t \<and> int (length t) \<le> n \<and> CHR 0x0A \<notin> set t \<and>
    (int (length s) \<le> n \<and> CHR 0x0A \<notin> set s \<longrightarrow> t = s)"
proof -
  have "CHR 0x0A \<notin> set (map (\<lambda>c. if c = CHR 0x0A then CHR '' '' else c) s)" by auto
  moreover have "map (\<lambda>c. if c = CHR 0x0A then CHR '' '' else c) s = s" if "CHR 0x0A \<notin> set s"
    using that by (induction s) auto
  ultimately show ?thesis
    using assms by (auto simp: truncate_text_def Let_def dest: in_set_takeD)
qed

lemma list_row_never_panics: "list_row j \<noteq> None"
  by (simp add: list_row_def truncate_text_def Let_def split: option.split)

section \<open>Waiting\<close>

lemma wait_terminal_ends:
  assumes "late g m"
  shows "n \<le> m \<Longrightarrow> \<exists>r st'. wait_terminal g server timeout i n st = Some (r, st') \<and>
    (\<forall>job. r = Inr job \<longrightarrow> terminal (Status job))"
proof (induction "m - n" arbitrary: n st)
  case 0
  then have "n = m" by simp
  with assms show ?case by (subst wait_terminal.simps) (auto split: prod.split sum.split)
next
  case (Suc x)
  then have "\<exists>r st''. wait_terminal g server timeout i (Suc n) st' = Some (r, st'') \<and>
      (\<forall>job. r = Inr job \<longrightarrow> terminal (Status job))" for st'
    by (intro Suc.hyps(1)) auto
  then show ?case by (subst wait_terminal.simps) (auto split: prod.split sum.split)
qed

text \<open>
  Waiting returns at the latest with the first poll after the deadline, and what it returns as a job is a job in a
  terminal state: COMPLETED, FAILED or CANCELED; everything else is an error.
\<close>

lemma waitForTerminal_returns:
  assumes "late g m"
  shows "\<exists>r st'. waitForTerminal g server i timeout st = Some (r, st') \<and>
    (\<forall>job. r = Inr job \<longrightarrow> terminal (Status job))"
  using wait_terminal_ends [OF assms, of 0] unfolding waitForTerminal_def by blast

definition demo_cli :: "db cli" where
  "demo_cli = \<lparr>getenv = (\<lambda>_. []), codec_of = demo_codec, time_text = (\<lambda>_. []), json_text = (\<lambda>_. ''{}''),
     flag_int = (\<lambda>s. case ParseInt s of None \<Rightarrow> Inl ''parse error'' | Some n \<Rightarrow> Inr n),
     flag_duration = (\<lambda>_. Inl ''parse error''), wall = 60,
     web = (\<lambda>_. server_net demo_server (quiet 50)), poll_web = (\<lambda>_ _. server_net demo_server (quiet 60)),
     late = (\<lambda>n. 3 \<le> n)\<rparr>"

lemma waitForTerminal_returns_witness:
  "\<exists>r st'. waitForTerminal demo_cli ''http://q'' 1 (2 * Minute) demo_db = Some (r, st')"
proof -
  have "late demo_cli 3" by (simp add: demo_cli_def)
  from waitForTerminal_returns [OF this, of "''http://q''" 1 "2 * Minute" demo_db] show ?thesis by blast
qed

text \<open>
  A script can rely on \<open>queue submit --wait\<close> only without \<open>--json\<close>: then it ends without an error only if the job
  reached COMPLETED. With \<open>--json\<close> it ends without an error for a job that FAILED or was CANCELED, too.
\<close>

lemma submit_wait_exit_status:
  assumes "waitForTerminal g (fServer f) (ID job) (fWaitFor f) st = Some (Inr final, st')"
  shows "\<exists>txt err. submit_waited g f job st = Some ((txt, err), st') \<and>
    (err = None \<longleftrightarrow> fJSON f \<or> Status final = StatusCompleted)"
  using assms by (simp add: submit_waited_def)

section \<open>Commands against the server\<close>

text \<open>The client's network is the server, with the server's token and the default URL.\<close>

definition talks_to :: "db cli \<Rightarrow> Server \<Rightarrow> session \<Rightarrow> bool" where
  "talks_to g sv s \<longleftrightarrow>
     web g (TrimRight (CHR ''/'') (default_server g)) = server_net sv s \<and>
     getenv g ''QUEUE_AUTH_TOKEN'' = AuthToken (cfg sv) \<and> short_errors (codec_of g)"

definition shown :: "'st cli \<Rightarrow> nat \<Rightarrow> payload \<Rightarrow> string + chunk" where
  "shown g st v =
     (if st \<ge> 300
      then Inl (''server returned '' @ FormatInt (int st) @ '': '' @
             (case v of ErrorBody msg code \<Rightarrow> msg | _ \<Rightarrow> TrimSpace (take (8 * 1024) (raw_text (codec_of g) (Json v)))))
      else Inr (Json v))"

definition sent_request :: "'st cli \<Rightarrow> string \<Rightarrow> string list \<Rightarrow> string \<Rightarrow> (string \<times> json) list option \<Rightarrow> Request" where
  "sent_request g meth sg path bdy =
     (build_request \<lparr>BaseURL = TrimRight (CHR ''/'') (default_server g), Token = getenv g ''QUEUE_AUTH_TOKEN''\<rparr>
        (codec_of g) meth sg bdy)\<lparr>query := query_of path\<rparr>"

lemma request_answered:
  assumes "talks_to g sv s" "url_segs path = Some sg"
    "find (route_matches (sent_request g meth sg path bdy)) routes = Some t"
    "w = target t sv s ((sent_request g meth sg path bdy)\<lparr>body_limit := nat (MaxRequestBytes (cfg sv)),
           PathValue := wild_value (pats t) sg\<rparr>) (inner d)"
    "answered w st v"
    "case v of ErrorBody msg code \<Rightarrow> msg \<noteq> [] \<and> length msg + length code \<le> 200 | _ \<Rightarrow> True"
  shows "request g (web g) (default_server g) meth path bdy d = (shown g st v, tables w)"
proof -
  let ?r = "sent_request g meth sg path bdy"
  have segs: "segs ?r = sg" by (simp add: sent_request_def)
  have "trusts sv ?r"
    using assms(1) by (auto simp: trusts_def talks_to_def sent_request_def build_request_def)
  from server_net_route [OF this assms(3) _ assms(5)] assms(4)
  have "server_net sv s ?r d = (Reply st (Json v), tables w)" by (simp add: segs)
  moreover have "fst (error_fields (codec_of g) (Json v)) = (case v of ErrorBody msg code \<Rightarrow> msg | _ \<Rightarrow> [])"
    using assms(1,6) short_errorsD [of "codec_of g"]
    by (cases v) (auto simp: error_fields_def talks_to_def)
  ultimately show ?thesis
    using assms(1,2,6)
    by (cases v) (auto simp: request_def talks_to_def sent_request_def shown_def Let_def)
qed

text \<open>What a store call's error looks like on the terminal.\<close>

definition error_text :: "error \<Rightarrow> string" where
  "error_text e = (case store_error_reply e of (st, code, msg) \<Rightarrow>
     ''server returned '' @ FormatInt (int st) @ '': '' @ msg)"

lemma request_job_tells:
  assumes "talks_to g sv s" "url_segs path = Some sg"
    "find (route_matches (sent_request g meth sg path bdy)) routes = Some t"
    "tells (target t sv s ((sent_request g meth sg path bdy)\<lparr>body_limit := nat (MaxRequestBytes (cfg sv)),
           PathValue := wild_value (pats t) sg\<rparr>) (inner d)) res"
  shows "request_job g (web g) (default_server g) meth path bdy d =
    (case fst res of Inl e \<Rightarrow> Inl (error_text e) | Inr j \<Rightarrow> Inr j, snd res)"
proof -
  let ?w = "target t sv s ((sent_request g meth sg path bdy)\<lparr>body_limit := nat (MaxRequestBytes (cfg sv)),
           PathValue := wild_value (pats t) sg\<rparr>) (inner d)"
  obtain st v where a: "answered ?w st v" "tables ?w = snd res"
    "case fst res of
       Inl e \<Rightarrow> (\<exists>code msg. store_error_reply e = (st, code, msg) \<and> v = ErrorBody msg code)
     | Inr j \<Rightarrow> st = 200 \<and> v = JobBody j"
    using assms(4) by (auto simp: tells_def)
  have "case v of ErrorBody msg code \<Rightarrow> msg \<noteq> [] \<and> length msg + length code \<le> 200 | _ \<Rightarrow> True"
    using a(3) by (auto dest: store_error_text split: sum.splits)
  from request_answered [OF assms(1-3) refl a(1) this] a(2,3) show ?thesis
    by (auto simp: request_job_def shown_def error_text_def dest: store_error_text split: sum.splits)
qed

lemma handleCancel_tells:
  assumes "PathValue q = FormatInt i" "0 < i" "int64_ok i"
  shows "tells (handleCancel sv s q (inner d)) (Cancel s i d)"
  using assms ParseInt_FormatInt [OF assms(3)]
    store_call_tells [OF inner_simps(1), of "\<lambda>_. log_event LevelInfo ''job_canceled''"]
  by (simp add: handleCancel_def pathID_def)

lemma find_cancel_route:
  "find (route_matches (sent_request g ''POST'' [''jobs'', FormatInt i, ''cancel''] path b)) routes =
     Some \<lparr>verb = ''POST'', pats = [Lit ''jobs'', Wild, Lit ''cancel''], target = handleCancel\<rparr>"
  by (auto simp: routes_def route_matches_def verb_matches_def FormatInt_def sent_request_def)

lemma FormatInt_positional: "0 < i \<Longrightarrow> FormatInt i = [] \<or> hd (FormatInt i) \<noteq> CHR ''-''"
  using dec_nat_hd_digit [of "nat i"] by (auto simp: FormatInt_def digit_val_def)

lemma common_defaults_simps [simp]:
  "fServer (common_defaults g) = default_server g" "fJSON (common_defaults g) = False"
  by (simp_all add: common_defaults_def)

text \<open>
  C34. \<open>queue cancel <id>\<close> against the server is the store's \<open>Cancel\<close>: the tables are those it leaves, the command succeeds and names
  the job if the store cancelled it, and otherwise it exits with the store's verdict as the server words it.
\<close>

theorem queue_cancel_is_store_cancel:
  assumes "talks_to g sv s" "0 < i" "int64_ok i"
  shows "cli_run g [''cancel'', FormatInt i] d =
    (case Cancel s i d of
       (Inr j, d') \<Rightarrow> Some ((line (''Job '' @ FormatInt (ID j) @ '' canceled.''), None), d')
     | (Inl e, d') \<Rightarrow> Some (([], Some (error_text e)), d'))"
proof -
  have p: "Parse commonFlags [FormatInt i] (common_defaults g) = Inr (common_defaults g, [FormatInt i])"
    by (rule Parse_positional) (rule FormatInt_positional [OF assms(2)])
  have "request_job g (web g) (default_server g) ''POST'' (job_path i ''cancel'') (Some []) d =
      (case fst (Cancel s i d) of Inl e \<Rightarrow> Inl (error_text e) | Inr j \<Rightarrow> Inr j, snd (Cancel s i d))"
    by (rule request_job_tells [OF assms(1) url_segs_job [OF assms(2)] find_cancel_route])
      (use assms in \<open>auto intro: handleCancel_tells\<close>)
  then show ?thesis
    using assms ParseInt_FormatInt [OF assms(3)]
    by (simp add: cli_run_def cmdCancel_def p positionalID_def split: prod.split sum.split)
qed

theorem queue_cancel_is_store_cancel_witness:
  "cli_run demo_cli [''cancel'', FormatInt 1] demo_db = Some (([], Some (error_text ErrNotCancelable)), demo_db)"
proof -
  have "talks_to demo_cli demo_server (quiet 50)" by (simp add: talks_to_def demo_cli_def)
  moreover have "Cancel (quiet 50) 1 demo_db = (Inl ErrNotCancelable, demo_db)"
    by (simp add: Cancel_def Get_def demo_defs)
  ultimately show ?thesis
    using queue_cancel_is_store_cancel [of demo_cli demo_server "quiet 50" 1 demo_db] by (simp add: int64_ok_def)
qed

section \<open>Flags\<close>

text \<open>
  Flags count only before the job id: \<open>queue get 42 --json\<close> is \<open>queue get 42\<close>, and the flag is dropped without a word.
\<close>

lemma flags_after_id_ignored:
  assumes "0 < i"
  shows "cmdGet g (FormatInt i # extra) st = cmdGet g [FormatInt i] st"
  using FormatInt_positional [OF assms] by (simp add: cmdGet_def Parse_positional positionalID_def)

end
