(* ===== verification/Tools.thy ===== *)
theory Tools
  imports Bench_System Cli_Props Go_Flag
begin

text \<open>
  The \<open>main\<close> functions of the command line client and of the load generator: from the arguments to the exit status.
\<close>

section \<open>The command line client\<close>

text \<open>What the process leaves: its exit status, what it printed (progress messages left out) and what it wrote to standard error.\<close>

record tool_end =
  exit_status :: nat
  said :: string
  complaint :: string

definition cli_main :: "'st cli \<Rightarrow> string list \<Rightarrow> 'st \<Rightarrow> (tool_end \<times> 'st) option" where
  "cli_main g argv st =
     map_option (\<lambda>((out, err), st').
       (case err of
          None \<Rightarrow> \<lparr>exit_status = 0, said = out, complaint = []\<rparr>
        | Some m \<Rightarrow> \<lparr>exit_status = 1, said = out, complaint = line (''error: '' @ m)\<rparr>, st'))
     (cli_run g argv st)"

section \<open>The load generator\<close>

record bench_flags =
  bServer :: string
  bMode :: string
  bJobs :: int
  bConcurrency :: int
  bSamples :: int
  bPayload :: string
  bDrainTimeout :: duration
  bLevels :: string
  bClaimJobs :: int

text \<open>The process: its environment, and the syntax of numbers and durations of the flag package.\<close>

record bench_sys =
  benv :: "string \<Rightarrow> string"
  bint :: "string \<Rightarrow> string + int"
  bduration :: "string \<Rightarrow> string + duration"

definition bench_defaults :: "bench_sys \<Rightarrow> bench_flags" where
  "bench_defaults g =
     \<lparr>bServer = envOr (benv g) ''QUEUE_SERVER'' ''http://localhost:8080'', bMode = ''pipeline'', bJobs = 300,
      bConcurrency = 16, bSamples = 20, bPayload = ''true'', bDrainTimeout = 2 * Minute, bLevels = ''1,4,16,64'',
      bClaimJobs = 3000\<rparr>"

definition benchFlags :: "bench_sys \<Rightarrow> bench_flags FlagSet" where
  "benchFlags g =
     [(''server'', StringFlag (\<lambda>v f. f\<lparr>bServer := v\<rparr>)),
      (''mode'', StringFlag (\<lambda>v f. f\<lparr>bMode := v\<rparr>)),
      (''jobs'', ParsedFlag (bint g) (\<lambda>v f. f\<lparr>bJobs := v\<rparr>)),
      (''concurrency'', ParsedFlag (bint g) (\<lambda>v f. f\<lparr>bConcurrency := v\<rparr>)),
      (''latency-samples'', ParsedFlag (bint g) (\<lambda>v f. f\<lparr>bSamples := v\<rparr>)),
      (''payload'', StringFlag (\<lambda>v f. f\<lparr>bPayload := v\<rparr>)),
      (''drain-timeout'', ParsedFlag (bduration g) (\<lambda>v f. f\<lparr>bDrainTimeout := v\<rparr>)),
      (''claim-levels'', StringFlag (\<lambda>v f. f\<lparr>bLevels := v\<rparr>)),
      (''claim-jobs'', ParsedFlag (bint g) (\<lambda>v f. f\<lparr>bClaimJobs := v\<rparr>))]"

definition bench_of :: "bench_sys \<Rightarrow> bench_flags \<Rightarrow> bench" where
  "bench_of g f = \<lparr>server = bServer f, token = benv g ''QUEUE_AUTH_TOKEN'', payload_text = bPayload f\<rparr>"

text \<open>The HTTP client: one connection per caller is kept idle, twice over.\<close>

record http_client =
  hcTimeout :: duration
  hcMaxIdleConns :: int
  hcMaxIdleConnsPerHost :: int

definition bench_http :: "bench_flags \<Rightarrow> http_client" where
  "bench_http f =
     (let n = wrap64 (peak (bMode f) (bLevels f) (bConcurrency f) * 2)
      in \<lparr>hcTimeout = 30 * Second, hcMaxIdleConns = n, hcMaxIdleConnsPerHost = n\<rparr>)"

text \<open>
  The main function. A bad flag ends the process in the flag package, after its message and the usage text, which is not
  reproduced. What a run meets: the phases of pipeline mode, the latency sample \<open>i\<close>, the phases of claim mode and its level \<open>i\<close>.
\<close>

record 'st bench_world =
  pipe_env :: "'st pipeline_env"
  sample_at :: "nat \<Rightarrow> 'st sample"
  race_env :: "'st claim_env"
  level_at :: "nat \<Rightarrow> 'st level_env"

definition bench_exit :: "bench_error + string \<Rightarrow> tool_end" where
  "bench_exit r =
     (case r of
        Inr out \<Rightarrow> \<lparr>exit_status = 0, said = out, complaint = []\<rparr>
      | Inl e \<Rightarrow> \<lparr>exit_status = 1, said = [], complaint = line (''bench: '' @ bench_error_text e)\<rparr>)"

definition bench_main ::
  "bench_sys \<Rightarrow> codec \<Rightarrow> 'st bench_world \<Rightarrow> string list \<Rightarrow> 'st \<Rightarrow> (tool_end \<times> 'st) option" where
  "bench_main g k w argv st =
     (case Parse (benchFlags g) argv (bench_defaults g) of
        Inl m \<Rightarrow>
          Some (if m = ''flag: help requested'' then \<lparr>exit_status = 0, said = [], complaint = []\<rparr>
                else \<lparr>exit_status = 2, said = [], complaint = line m\<rparr>, st)
      | Inr (f, _) \<Rightarrow>
          (case bench_plan (bMode f) (bLevels f) of
             PlanError m \<Rightarrow> Some (bench_exit (Inl (BenchOther m)), st)
           | PlanPipeline \<Rightarrow>
               map_option (apfst bench_exit)
                 (bench_run (bench_of g f) k ((pipe_env w)\<lparr>sampling := map (sample_at w) [0..<nat (bSamples f)]\<rparr>)
                    (bJobs f) (bConcurrency f) (bDrainTimeout f) st)
           | PlanClaim counts \<Rightarrow>
               map_option (apfst bench_exit)
                 (runClaim (bench_of g f) k
                    ((race_env w)\<lparr>level_envs := map (\<lambda>(i, n). (n, level_at w i)) (enumerate 0 counts)\<rparr>)
                    (bClaimJobs f) (bConcurrency f) st)))"

section \<open>The connection pool\<close>

lemma foldl_peak: "foldl (\<lambda>p c. if c > p then c else p) p cs = fold max cs (p :: int)"
  by (induction cs arbitrary: p) (auto simp: max_def)

lemma fold_max_start: "p \<le> fold max cs (p :: int)"
  by (induction cs arbitrary: p) (auto intro: order_trans [OF max.cobounded2])

lemma fold_max_ge: "n \<in> set cs \<Longrightarrow> n \<le> fold max cs (p :: int)"
  by (induction cs arbitrary: p) (auto intro: order_trans [OF max.cobounded1 fold_max_start])

text \<open>
  In claim mode every claimer of every level keeps its connection: the pool of idle connections holds the largest level, as long as
  twice that many can be counted.
\<close>

lemma pool_covers_levels:
  assumes "bench_plan (bMode f) (bLevels f) = PlanClaim counts" "n \<in> set counts" "0 \<le> n"
    "int64_ok (peak (bMode f) (bLevels f) (bConcurrency f) * 2)"
  shows "n \<le> hcMaxIdleConnsPerHost (bench_http f)"
proof -
  have "peak (bMode f) (bLevels f) (bConcurrency f) = fold max counts (bConcurrency f)"
    using assms(1) by (auto simp: bench_plan_def peak_def foldl_peak split: if_splits sum.splits)
  with fold_max_ge [of n counts "bConcurrency f"] assms(2) have "n \<le> peak (bMode f) (bLevels f) (bConcurrency f)" by simp
  with assms(3,4) show ?thesis by (simp add: bench_http_def wrap64_id Let_def)
qed

section \<open>Both only send requests\<close>

definition world_keeps :: "('st \<Rightarrow> 'st \<Rightarrow> bool) \<Rightarrow> 'st bench_world \<Rightarrow> bool" where
  "world_keeps R w \<longleftrightarrow>
     pipeline_keeps R ((pipe_env w)\<lparr>sampling := []\<rparr>) \<and>
     (\<forall>i. net_keeps R (submit_net (sample_at w i)) \<and> (\<forall>n. net_keeps R (await_nets (sample_at w i) n))) \<and>
     claim_keeps R ((race_env w)\<lparr>level_envs := []\<rparr>) \<and> (\<forall>i. level_keeps R (level_at w i))"

lemma world_keeps_pipeline:
  "world_keeps R w \<Longrightarrow> pipeline_keeps R ((pipe_env w)\<lparr>sampling := map (sample_at w) [0..<n]\<rparr>)"
  by (auto simp: world_keeps_def pipeline_keeps_def list_all_iff)

lemma world_keeps_claim:
  "world_keeps R w \<Longrightarrow> claim_keeps R ((race_env w)\<lparr>level_envs := map (\<lambda>(i, n). (n, level_at w i)) (enumerate 0 counts)\<rparr>)"
  by (auto simp: world_keeps_def claim_keeps_def list_all_iff)

context client_preorder begin

lemma cli_main_keeps: "cli_keeps R g \<Longrightarrow> cli_main g argv st = Some (r, st') \<Longrightarrow> R st st'"
  by (auto simp: cli_main_def split: prod.splits dest: cli_run_keeps)

lemma bench_main_keeps: "world_keeps R w \<Longrightarrow> bench_main g k w argv st = Some (r, st') \<Longrightarrow> R st st'"
  by (auto simp: bench_main_def refl split: sum.splits prod.splits plan.splits
      dest: bench_run_keeps [OF world_keeps_pipeline] runClaim_keeps [OF world_keeps_claim])

end

text \<open>
  Status 0 means that a table was printed. In claim mode the verdict is a line of that table: a run that saw a job twice ends
  with status 0 all the same.
\<close>

lemma bench_exit_status: "exit_status (bench_exit r) = 0 \<longleftrightarrow> (\<exists>out. r = Inr out)"
  by (cases r) (auto simp: bench_exit_def)

end
