(* ===== verification/Database.thy ===== *)
theory Database
  imports Prelude "HOL-Library.Sublist" "HOL-Library.List_Lexorder" "HOL-Library.Char_ord"
begin

text \<open>
  The migrations (\<open>internal/database/database.go\<close>, \<open>migrations/embed.go\<close>): the embedded files, the ledger and the run over the
  files. The SQL engine that runs a migration file is a parameter.
\<close>

section \<open>Migrations\<close>

text \<open>A directory entry of the embedded file system.\<close>

record entry =
  ename :: string
  is_dir :: bool
  content :: string

text \<open>\<open>FS\<close>: of the package's directory, what the pattern \<open>*.sql\<close> of the embed directive matches.\<close>

definition FS :: "entry list \<Rightarrow> entry list" where
  "FS dir = filter (\<lambda>e. suffix ''.sql'' (ename e)) dir"

definition migrationNames :: "entry list \<Rightarrow> string list" where
  "migrationNames es = sort (map ename (filter (\<lambda>e. \<not> is_dir e) es))"

definition ReadFile :: "entry list \<Rightarrow> string \<Rightarrow> string option" where
  "ReadFile es n = map_option content (find (\<lambda>e. ename e = n \<and> \<not> is_dir e) es)"

text \<open>The database: the ledger \<open>schema_migrations\<close> (absent at first) and the schema itself.\<close>

record 's catalog =
  ledger :: "string list option"
  schema :: 's

datatype migrate_call =
  CreateLedger | CheckVersion string | BeginMig string | ExecMig string | RecordMig string | CommitMig string

text \<open>
  The service during a run: which calls fail, whether a commit that reports an error took effect, and
  the SQL engine (None: the script fails).
\<close>

record 's engine =
  mfault :: "migrate_call \<Rightarrow> string option"
  mlost_ack :: bool
  run_sql :: "string \<Rightarrow> 's \<Rightarrow> 's option"

definition versions :: "'s catalog \<Rightarrow> string list" where
  "versions c = (case ledger c of None \<Rightarrow> [] | Some vs \<Rightarrow> vs)"

text \<open>One turn of the loop: an error, or the catalog to go on with.\<close>

definition migrate_one ::
  "'s engine \<Rightarrow> entry list \<Rightarrow> string \<Rightarrow> 's catalog \<Rightarrow> string option \<times> 's catalog" where
  "migrate_one e es n c =
     (case mfault e (CheckVersion n) of
        Some m \<Rightarrow> (Some (''check migration '' @ n @ '': '' @ m), c)
      | None \<Rightarrow>
        if n \<in> set (versions c) then (None, c)
        else case ReadFile es n of
          None \<Rightarrow> (Some (''read migration '' @ n), c)
        | Some sql \<Rightarrow>
          (case mfault e (BeginMig n) of
             Some m \<Rightarrow> (Some m, c)
           | None \<Rightarrow>
             (case (case mfault e (ExecMig n) of Some m \<Rightarrow> None | None \<Rightarrow> run_sql e sql (schema c)) of
                None \<Rightarrow> (Some (''apply migration '' @ n), c)
              | Some s' \<Rightarrow>
                (case mfault e (RecordMig n) of
                   Some m \<Rightarrow> (Some (''record migration '' @ n @ '': '' @ m), c)
                 | None \<Rightarrow>
                   (let c' = \<lparr>ledger = Some (versions c @ [n]), schema = s'\<rparr> in
                    case mfault e (CommitMig n) of
                      Some m \<Rightarrow> (Some (''commit migration '' @ n @ '': '' @ m), if mlost_ack e then c' else c)
                    | None \<Rightarrow> (None, c'))))))"

fun migrate_loop ::
  "'s engine \<Rightarrow> entry list \<Rightarrow> string list \<Rightarrow> 's catalog \<Rightarrow> string option \<times> 's catalog" where
  "migrate_loop e es [] c = (None, c)"
| "migrate_loop e es (n # ns) c =
     (case migrate_one e es n c of
        (Some m, c') \<Rightarrow> (Some m, c')
      | (None, c') \<Rightarrow> migrate_loop e es ns c')"

definition Migrate :: "'s engine \<Rightarrow> entry list \<Rightarrow> 's catalog \<Rightarrow> string option \<times> 's catalog" where
  "Migrate e es c =
     (case mfault e CreateLedger of
        Some m \<Rightarrow> (Some (''create schema_migrations: '' @ m), c)
      | None \<Rightarrow> migrate_loop e es (migrationNames es) (c\<lparr>ledger := Some (versions c)\<rparr>))"

section \<open>A run of the migrations\<close>

text \<open>
  The schema a ledger stands for: the scripts of its versions, run in its order on the initial schema.
\<close>

fun replay :: "('s engine) \<Rightarrow> entry list \<Rightarrow> string list \<Rightarrow> 's \<Rightarrow> 's option" where
  "replay e es [] s = Some s"
| "replay e es (n # ns) s =
     (case ReadFile es n of None \<Rightarrow> None
      | Some sql \<Rightarrow> (case run_sql e sql s of None \<Rightarrow> None | Some s' \<Rightarrow> replay e es ns s'))"

lemma replay_append:
  "replay e es (ns @ ms) s = (case replay e es ns s of None \<Rightarrow> None | Some s' \<Rightarrow> replay e es ms s')"
  by (induction ns arbitrary: s) (auto split: option.split)

text \<open>The catalog is what some prefix of the sorted migrations makes of the initial schema.\<close>

definition consistent :: "('s engine) \<Rightarrow> entry list \<Rightarrow> 's \<Rightarrow> 's catalog \<Rightarrow> nat \<Rightarrow> bool" where
  "consistent e es s0 c k \<longleftrightarrow>
     k \<le> length (migrationNames es) \<and> versions c = take k (migrationNames es) \<and>
     replay e es (versions c) s0 = Some (schema c)"

lemma migrate_one_cases:
  assumes "migrate_one e es n c = (r, c')" "n \<notin> set (versions c)"
  shows "c' = c \<and> r \<noteq> None \<or>
    (\<exists>sql. ReadFile es n = Some sql \<and> run_sql e sql (schema c) = Some (schema c') \<and>
           versions c' = versions c @ [n] \<and> (r = None \<or> mlost_ack e))"
  using assms
  by (auto simp: migrate_one_def versions_def Let_def split: option.splits if_splits) metis+

lemma migrate_loop_consistent:
  assumes "migrate_loop e es (drop k (migrationNames es)) c = (r, c')" "consistent e es s0 c k"
    "distinct (migrationNames es)"
  shows "\<exists>k' \<ge> k. consistent e es s0 c' k' \<and> (r = None \<longrightarrow> k' = length (migrationNames es))"
  using assms
proof (induction "length (migrationNames es) - k" arbitrary: k c)
  case 0
  then have "k = length (migrationNames es)" by (auto simp: consistent_def)
  with 0 show ?case by auto
next
  case (Suc m)
  let ?ns = "migrationNames es"
  have k: "k < length ?ns" using Suc.hyps(2) by simp
  then have step: "drop k ?ns = ?ns ! k # drop (Suc k) ?ns" by (rule Cons_nth_drop_Suc [symmetric])
  have new: "?ns ! k \<notin> set (versions c)"
    using Suc.prems(2,3) k by (auto simp: consistent_def in_set_conv_nth nth_eq_iff_index_eq)
  obtain r1 c1 where one: "migrate_one e es (?ns ! k) c = (r1, c1)" by fastforce
  from migrate_one_cases [OF one new] consider (same) "c1 = c" "r1 \<noteq> None"
    | (applied) sql where "ReadFile es (?ns ! k) = Some sql" "run_sql e sql (schema c) = Some (schema c1)"
        "versions c1 = versions c @ [?ns ! k]"
    by blast
  then show ?case
  proof cases
    case same
    with Suc.prems(1,2) one step show ?thesis by auto
  next
    case applied
    have c1: "consistent e es s0 c1 (Suc k)"
      using Suc.prems(2) applied k
      by (auto simp: consistent_def replay_append take_Suc_conv_app_nth split: option.splits)
    show ?thesis
    proof (cases r1)
      case None
      with Suc.prems(1) one step have "migrate_loop e es (drop (Suc k) ?ns) c1 = (r, c')" by simp
      moreover have "m = length ?ns - Suc k" using Suc.hyps(2) by simp
      ultimately show ?thesis using Suc.hyps(1) [OF _ _ c1 Suc.prems(3)] by (meson Suc_leD)
    next
      case (Some x)
      with Suc.prems(1) one step have "c' = c1" "r \<noteq> None" by auto
      with c1 show ?thesis by (intro exI [of _ "Suc k"]) auto
    qed
  qed
qed

lemma migrate_skip:
  "set ns \<subseteq> set (versions c) \<Longrightarrow>
   (\<exists>m. migrate_loop e es (ns @ ms) c = (Some m, c)) \<or>
   migrate_loop e es (ns @ ms) c = migrate_loop e es ms c"
  by (induction ns) (auto simp: migrate_one_def split: option.split)

lemma migrate_skip_quiet:
  "set ns \<subseteq> set (versions c) \<Longrightarrow> (\<And>x. mfault e x = None) \<Longrightarrow> migrate_loop e es ns c = (None, c)"
  by (induction ns) (auto simp: migrate_one_def)


definition demo_entries :: "entry list" where
  "demo_entries = [\<lparr>ename = ''002_b.sql'', is_dir = False, content = ''B''\<rparr>,
     \<lparr>ename = ''001_a.sql'', is_dir = False, content = ''A''\<rparr>, \<lparr>ename = ''old'', is_dir = True, content = []\<rparr>]"

definition demo_engine :: "string engine" where
  "demo_engine = \<lparr>mfault = (\<lambda>_. None), mlost_ack = False, run_sql = (\<lambda>sql s. Some (s @ sql))\<rparr>"

lemma demo_names: "migrationNames demo_entries = [''001_a.sql'', ''002_b.sql'']"
  by (simp add: migrationNames_def demo_entries_def less_eq_char_def)

text \<open>Of the package's directory as it is, the migration alone is embedded, not the package's own source file.\<close>

lemma embedded_names:
  "migrationNames (FS [\<lparr>ename = ''001_init.sql'', is_dir = False, content = sql\<rparr>,
     \<lparr>ename = ''embed.go'', is_dir = False, content = go\<rparr>]) = [''001_init.sql'']"
  by (simp add: FS_def migrationNames_def suffix_to_prefix)


end
