(* ===== verification/Db_Connect.thy ===== *)
theory Db_Connect
  imports Job Go_Lib
begin

text \<open>
  Connecting to the database (\<open>internal/database/database.go\<close>): the pool's configuration, \<open>Open\<close> with the ping that makes a
  bad address show at startup, and \<open>WaitForDB\<close>, which tries until a deadline. The driver is a parameter: whether it takes the
  address, how each ping ends and when. The setters of \<open>database/sql\<close> are written out.
\<close>

section \<open>The pool\<close>

record dbConfig =
  URL :: string
  MaxOpenConns :: int
  MaxIdleConns :: int
  ConnMaxLifetime :: duration

definition db_DefaultConfig :: "string \<Rightarrow> dbConfig" where
  "db_DefaultConfig url = \<lparr>URL = url, MaxOpenConns = 25, MaxIdleConns = 5, ConnMaxLifetime = 30 * Minute\<rparr>"

text \<open>A \<open>sql.DB\<close>: zero open connections means no limit, and the idle count is zero for the library's default of two.\<close>

record sqlDB =
  dataSource :: string
  maxOpen :: int
  maxIdleCount :: int
  maxLifetime :: duration

definition maxIdleConns :: "sqlDB \<Rightarrow> int" where
  "maxIdleConns p = (if maxIdleCount p = 0 then 2 else if maxIdleCount p < 0 then 0 else maxIdleCount p)"

definition SetMaxIdleConns :: "int \<Rightarrow> sqlDB \<Rightarrow> sqlDB" where
  "SetMaxIdleConns n p =
     (let p1 = p\<lparr>maxIdleCount := if n > 0 then n else -1\<rparr> in
      if maxOpen p1 > 0 \<and> maxIdleConns p1 > maxOpen p1 then p1\<lparr>maxIdleCount := maxOpen p1\<rparr> else p1)"

definition SetMaxOpenConns :: "int \<Rightarrow> sqlDB \<Rightarrow> sqlDB" where
  "SetMaxOpenConns n p =
     (let p1 = p\<lparr>maxOpen := if n < 0 then 0 else n\<rparr> in
      if maxOpen p1 > 0 \<and> maxIdleConns p1 > maxOpen p1 then SetMaxIdleConns n p1 else p1)"

definition SetConnMaxLifetime :: "duration \<Rightarrow> sqlDB \<Rightarrow> sqlDB" where
  "SetConnMaxLifetime d p = p\<lparr>maxLifetime := if d < 0 then 0 else d\<rparr>"

section \<open>Opening and waiting\<close>

text \<open>
  The driver and the clock: the error of \<open>sql.Open\<close> for an address, the error of the ping of attempt \<open>n\<close>, the time when
  attempt \<open>n\<close> was over, and whether the context ends in the pause after it.
\<close>

record dialer =
  bad_dsn :: "string \<Rightarrow> string option"
  ping_error :: "nat \<Rightarrow> string option"
  over_at :: "nat \<Rightarrow> timestamp"
  gone_at :: "nat \<Rightarrow> bool"

text \<open>The pools that are open are counted, so that a pool that is left open is seen.\<close>

definition Open :: "dialer \<Rightarrow> nat \<Rightarrow> dbConfig \<Rightarrow> nat \<Rightarrow> (string + sqlDB) \<times> nat" where
  "Open dl n dc pools =
     (case bad_dsn dl (URL dc) of
        Some e \<Rightarrow> (Inl (''open database: '' @ e), pools)
      | None \<Rightarrow>
          (let p = \<lparr>dataSource = URL dc, maxOpen = 0, maxIdleCount = 0, maxLifetime = 0\<rparr>;
               p = SetMaxOpenConns (MaxOpenConns dc) p;
               p = SetMaxIdleConns (MaxIdleConns dc) p;
               p = SetConnMaxLifetime (ConnMaxLifetime dc) p;
               opened = Suc pools
           in case ping_error dl n of
                Some e \<Rightarrow> (Inl (''ping database: '' @ e), opened - 1)
              | None \<Rightarrow> (Inr p, opened)))"

datatype wait_end = Connected sqlDB | Unreachable string | WaitCancelled

text \<open>Attempt \<open>n\<close> and the ones after it; the result comes with the number of attempts made and of pools left open.\<close>

partial_function (option) wait_loop ::
  "dialer \<Rightarrow> dbConfig \<Rightarrow> duration \<Rightarrow> timestamp \<Rightarrow> nat \<Rightarrow> nat \<Rightarrow> (wait_end \<times> nat \<times> nat) option" where
  "wait_loop dl dc timeout deadline n pools =
     (case Open dl n dc pools of
        (Inr p, pools') \<Rightarrow> Some (Connected p, n, pools')
      | (Inl e, pools') \<Rightarrow>
          if over_at dl n > deadline
          then Some (Unreachable (''database unreachable after '' @ Duration_String timeout @ '': '' @ e), n, pools')
          else if gone_at dl n then Some (WaitCancelled, n, pools')
          else wait_loop dl dc timeout deadline (Suc n) pools')"

definition WaitForDB :: "dialer \<Rightarrow> timestamp \<Rightarrow> dbConfig \<Rightarrow> duration \<Rightarrow> (wait_end \<times> nat \<times> nat) option" where
  "WaitForDB dl start dc timeout = wait_loop dl dc timeout (start + timeout) 1 0"

definition retry_pause :: duration where
  "retry_pause = 500 * 1000000"

section \<open>Facts\<close>

lemma Open_cases:
  obtains (ok) p where "bad_dsn dl (URL dc) = None" "ping_error dl n = None" "Open dl n dc k = (Inr p, Suc k)"
  | (bad) e where "bad_dsn dl (URL dc) \<noteq> None \<or> ping_error dl n \<noteq> None" "Open dl n dc k = (Inl e, k)"
  by (cases "bad_dsn dl (URL dc)"; cases "ping_error dl n") (simp_all add: Open_def Let_def)

text \<open>
  A pool never keeps more idle connections than it may have open, and a pool of the default configuration is bounded.
\<close>

lemma Open_pool_bounded:
  assumes "Open dl n dc k = (Inr p, k')"
  shows "0 \<le> maxOpen p" "maxOpen p > 0 \<Longrightarrow> maxIdleConns p \<le> maxOpen p" "0 \<le> maxLifetime p"
  using assms
  by (auto simp: Open_def Let_def SetMaxOpenConns_def SetMaxIdleConns_def SetConnMaxLifetime_def maxIdleConns_def
      split: option.splits if_splits)

lemma Open_default:
  assumes "bad_dsn dl u = None" "ping_error dl n = None"
  shows "Open dl n (db_DefaultConfig u) k =
    (Inr \<lparr>dataSource = u, maxOpen = 25, maxIdleCount = 5, maxLifetime = 30 * Minute\<rparr>, Suc k)"
  using assms
  by (simp add: Open_def db_DefaultConfig_def SetMaxOpenConns_def SetMaxIdleConns_def SetConnMaxLifetime_def
      maxIdleConns_def Minute_def Second_def)

lemma wait_loop_step:
  "Open dl n dc k = (Inr p, k') \<Longrightarrow> wait_loop dl dc timeout deadline n k = Some (Connected p, n, k')"
  "Open dl n dc k = (Inl e, k') \<Longrightarrow> over_at dl n > deadline \<Longrightarrow>
     \<exists>m. wait_loop dl dc timeout deadline n k = Some (Unreachable m, n, k')"
  "Open dl n dc k = (Inl e, k') \<Longrightarrow> \<not> over_at dl n > deadline \<Longrightarrow> gone_at dl n \<Longrightarrow>
     wait_loop dl dc timeout deadline n k = Some (WaitCancelled, n, k')"
  "Open dl n dc k = (Inl e, k') \<Longrightarrow> \<not> over_at dl n > deadline \<Longrightarrow> \<not> gone_at dl n \<Longrightarrow>
     wait_loop dl dc timeout deadline n k = wait_loop dl dc timeout deadline (Suc n) k'"
  by (subst wait_loop.simps; simp)+

text \<open>How a run that starts with attempt \<open>n\<close> may end after attempt \<open>m\<close>.\<close>

definition ends_at :: "dialer \<Rightarrow> dbConfig \<Rightarrow> nat \<Rightarrow> nat \<Rightarrow> wait_end \<Rightarrow> nat \<Rightarrow> bool" where
  "ends_at dl dc k n r m \<longleftrightarrow> n \<le> m \<and> (\<forall>i. n \<le> i \<and> i < m \<longrightarrow> (\<exists>e. Open dl i dc k = (Inl e, k))) \<and>
     (case r of Connected p \<Rightarrow> Open dl m dc k = (Inr p, Suc k) | _ \<Rightarrow> \<exists>e. Open dl m dc k = (Inl e, k))"

lemma ends_at_now:
  "ends_at dl dc k n r n \<longleftrightarrow>
     (case r of Connected p \<Rightarrow> Open dl n dc k = (Inr p, Suc k) | _ \<Rightarrow> \<exists>e. Open dl n dc k = (Inl e, k))"
  unfolding ends_at_def by (auto dest: le_less_trans)

lemma ends_at_later: "Open dl n dc k = (Inl e, k) \<Longrightarrow> ends_at dl dc k (Suc n) r m \<Longrightarrow> ends_at dl dc k n r m"
  by (auto simp: ends_at_def) (metis Suc_leI le_neq_implies_less)

text \<open>The loop from attempt \<open>n\<close> on ends by the first attempt that is past the deadline.\<close>

lemma wait_loop_ends:
  assumes "n \<le> N" "over_at dl N > deadline"
  obtains r m where "m \<le> N" "ends_at dl dc k n r m"
    "wait_loop dl dc timeout deadline n k = Some (r, m, case r of Connected p \<Rightarrow> Suc k | _ \<Rightarrow> k)"
  using assms
proof (induction "N - n" arbitrary: n thesis rule: less_induct)
  case (less n)
  show ?case
  proof (cases rule: Open_cases [of dl dc n k])
    case (ok p)
    from wait_loop_step(1) [OF ok(3)] ok(3) less.prems(1) [of n "Connected p"] less.prems(2) show ?thesis
      by (auto simp: ends_at_now)
  next
    case (bad e)
    consider (late) "over_at dl n > deadline" | (gone) "\<not> over_at dl n > deadline" "gone_at dl n"
      | (go) "\<not> over_at dl n > deadline" "\<not> gone_at dl n" by blast
    then show ?thesis
    proof cases
      case late
      from wait_loop_step(2) [OF bad(2) late] obtain m where
        "wait_loop dl dc timeout deadline n k = Some (Unreachable m, n, k)" by blast
      with bad(2) less.prems(1) [of n "Unreachable m"] less.prems(2) show ?thesis by (auto simp: ends_at_now)
    next
      case gone
      from wait_loop_step(3) [OF bad(2) gone] bad(2) less.prems(1) [of n WaitCancelled] less.prems(2)
      show ?thesis by (auto simp: ends_at_now)
    next
      case go
      then have "n < N" using less.prems(2,3) by (cases "n = N") auto
      then have "N - Suc n < N - n" "Suc n \<le> N" by auto
      from less.hyps [OF this(1) _ this(2) less.prems(3)] obtain r m where "m \<le> N" "ends_at dl dc k (Suc n) r m"
        "wait_loop dl dc timeout deadline (Suc n) k = Some (r, m, case r of Connected p \<Rightarrow> Suc k | _ \<Rightarrow> k)" by blast
      with less.prems(1) [of m r] ends_at_later [OF bad(2)] wait_loop_step(4) [OF bad(2) go] show ?thesis by simp
    qed
  qed
qed

lemma deadline_passes:
  assumes "start \<le> over_at dl 1" "\<And>n. over_at dl n + retry_pause \<le> over_at dl (Suc n)" "0 \<le> timeout"
  shows "start + timeout < over_at dl (nat (timeout div retry_pause) + 2)"
proof -
  have grow: "start + int n * retry_pause \<le> over_at dl (Suc n)" for n
  proof (induction n)
    case (Suc n)
    with assms(2) [of "Suc n"] show ?case by (simp add: algebra_simps)
  qed (use assms(1) in simp)
  have "timeout < (1 + timeout div retry_pause) * retry_pause" by (simp add: retry_pause_def)
  moreover have "int (nat (timeout div retry_pause) + 1) = timeout div retry_pause + 1"
    using assms(3) by (simp add: retry_pause_def pos_imp_zdiv_nonneg_iff)
  ultimately show ?thesis using grow [of "nat (timeout div retry_pause) + 1"] by (simp add: add.commute)
qed

lemma WaitForDB_ends:
  assumes "start \<le> over_at dl 1" "\<And>n. over_at dl n + retry_pause \<le> over_at dl (Suc n)" "0 \<le> timeout"
  obtains r m where "m \<le> nat (timeout div retry_pause) + 2" "ends_at dl dc 0 1 r m"
    "WaitForDB dl start dc timeout = Some (r, m, case r of Connected p \<Rightarrow> 1 | _ \<Rightarrow> 0)"
  using wait_loop_ends [of 1 "nat (timeout div retry_pause) + 2" "start + timeout" dl dc 0 timeout, OF _ deadline_passes [OF assms]]
  unfolding WaitForDB_def One_nat_def by (metis Suc_leI add_2_eq_Suc' zero_less_Suc)

text \<open>
  C26. Waiting for the database always ends: when each pause takes its half second, at the latest with the attempt after the
  timeout's worth of pauses. It takes the first attempt that works, never gives up on one that worked, and leaves exactly the pool it
  returns open and none otherwise.
\<close>

theorem WaitForDB_settles:
  assumes "start \<le> over_at dl 1" "\<And>n. over_at dl n + retry_pause \<le> over_at dl (Suc n)" "0 \<le> timeout"
  shows "\<exists>r m. WaitForDB dl start dc timeout = Some (r, m, case r of Connected p \<Rightarrow> 1 | _ \<Rightarrow> 0) \<and>
    m \<le> nat (timeout div retry_pause) + 2 \<and> (\<forall>i. 1 \<le> i \<and> i < m \<longrightarrow> (\<exists>e. fst (Open dl i dc 0) = Inl e)) \<and>
    (\<forall>p. r = Connected p \<longleftrightarrow> fst (Open dl m dc 0) = Inr p)"
proof -
  obtain r m where "m \<le> nat (timeout div retry_pause) + 2" "ends_at dl dc 0 1 r m"
    "WaitForDB dl start dc timeout = Some (r, m, case r of Connected p \<Rightarrow> 1 | _ \<Rightarrow> 0)"
    using assms by (rule WaitForDB_ends)
  then show ?thesis by (intro exI [of _ r] exI [of _ m]) (cases r; force simp: ends_at_def)
qed

text \<open>A database that answers from the third attempt on, each attempt a second after the one before.\<close>

definition slow_database :: dialer where
  "slow_database = \<lparr>bad_dsn = (\<lambda>_. None), ping_error = (\<lambda>n. if n < 3 then Some ''connection refused'' else None),
     over_at = (\<lambda>n. int n * Second), gone_at = (\<lambda>_. False)\<rparr>"

theorem WaitForDB_settles_witness:
  "\<exists>p m. WaitForDB slow_database 0 (db_DefaultConfig ''postgres://db'') (30 * Second) = Some (Connected p, m, 1) \<and> m \<le> 62"
proof -
  let ?W = "WaitForDB slow_database 0 (db_DefaultConfig ''postgres://db'') (30 * Second)"
  have "30 * Second div retry_pause = 60" by (simp add: Second_def retry_pause_def)
  with WaitForDB_settles [of 0 slow_database "30 * Second" "db_DefaultConfig ''postgres://db''"] obtain r m where
    rm: "?W = Some (r, m, case r of Connected p \<Rightarrow> 1 | _ \<Rightarrow> 0)" "m \<le> 62"
    by (auto simp: slow_database_def Second_def retry_pause_def algebra_simps)
  have "?W = Some (Connected \<lparr>dataSource = ''postgres://db'', maxOpen = 25, maxIdleCount = 5, maxLifetime = 30 * Minute\<rparr>, 3, 1)"
    unfolding WaitForDB_def
    by (simp add: wait_loop.simps Open_default slow_database_def Open_def db_DefaultConfig_def Second_def Let_def
        SetMaxOpenConns_def SetMaxIdleConns_def SetConnMaxLifetime_def maxIdleConns_def Minute_def numeral_3_eq_3)
  with rm show ?thesis by auto
qed

end
