(* ===== verification/Daemons.thy ===== *)
theory Daemons
  imports Commands Database Db_Connect Worker_Props
begin

text \<open>
  The daemons' \<open>main\<close> functions from the first flag to the exit status: the logging setup of \<open>log/slog\<close>, the server's startup,
  service and shutdown, the worker's run.
\<close>

section \<open>Logging\<close>

text \<open>The levels of \<open>log/slog\<close> as numbers.\<close>

primrec level_value :: "level \<Rightarrow> int" where
  "level_value LevelDebug = -4"
| "level_value LevelInfo = 0"
| "level_value LevelWarn = 4"
| "level_value LevelError = 8"

text \<open>\<open>slog.Level.UnmarshalText\<close>: a name in any case, then an optional signed offset. None: an error.\<close>

definition level_of_name :: "string \<Rightarrow> int option" where
  "level_of_name name =
     map_option level_value
       (map_of [(''DEBUG'', LevelDebug), (''INFO'', LevelInfo), (''WARN'', LevelWarn), (''ERROR'', LevelError)] (ToUpper name))"

definition UnmarshalText :: "string \<Rightarrow> int option" where
  "UnmarshalText s =
     (let sign = (\<lambda>ch. ch = CHR ''+'' \<or> ch = CHR ''-'');
          name = takeWhile (\<lambda>ch. \<not> sign ch) s; off = dropWhile (\<lambda>ch. \<not> sign ch) s
      in case (if off = [] then Some 0 else ParseInt off) of
           None \<Rightarrow> None
         | Some offset \<Rightarrow> map_option (\<lambda>l. wrap64 (l + offset)) (level_of_name name))"

record logger =
  min_level :: int
  as_json :: bool
  component :: string

definition new_logger :: "string \<Rightarrow> string \<Rightarrow> string \<Rightarrow> logger" where
  "new_logger who lvl fmt =
     \<lparr>min_level = (case UnmarshalText lvl of None \<Rightarrow> level_value LevelInfo | Some l \<Rightarrow> l), as_json = (fmt = ''json''), component = who\<rparr>"

definition server_setupLogging :: "string \<Rightarrow> string \<Rightarrow> logger" where
  "server_setupLogging lvl fmt = new_logger ''server'' lvl fmt"

text \<open>The worker's takes the worker's id, and does not use it.\<close>

definition worker_setupLogging :: "string \<Rightarrow> string \<Rightarrow> string \<Rightarrow> logger" where
  "worker_setupLogging lvl fmt workerID = new_logger ''worker'' lvl fmt"

text \<open>A line: its level, its message and its attributes; a logger prints the lines at its level and above.\<close>

type_synonym logline = "level \<times> string \<times> (string \<times> string) list"

definition printed :: "logger \<Rightarrow> logline list \<Rightarrow> logline list" where
  "printed lg ls = filter (\<lambda>(l, _). min_level lg \<le> level_value l) ls"

section \<open>Flags\<close>

text \<open>\<open>flag.Parse\<close> on the command line ends the process itself: with status 0 after a request for help, else 2.\<close>

definition flag_exit :: "string \<Rightarrow> nat" where
  "flag_exit e = (if e = ''flag: help requested'' then 0 else 2)"

section \<open>The server\<close>

text \<open>
  Startup up to the point where requests are served: a database that does not answer or a failed migration ends it. None: it waits for
  the database for ever.
\<close>

datatype boot = BootFailed string | Serving Server Reaper

definition server_boot ::
  "sys \<Rightarrow> dialer \<Rightarrow> timestamp \<Rightarrow> 's engine \<Rightarrow> entry list \<Rightarrow> server_flags \<Rightarrow> 's catalog \<Rightarrow>
   (boot \<times> logline list \<times> 's catalog) option" where
  "server_boot g dl t0 e es f c =
     (case WaitForDB dl t0 (db_DefaultConfig (sDBURL f)) (30 * Second) of
        None \<Rightarrow> None
      | Some (Unreachable m, _) \<Rightarrow> Some (BootFailed m, [], c)
      | Some (WaitCancelled, _) \<Rightarrow> Some (BootFailed ''context canceled'', [], c)
      | Some (Connected p, _) \<Rightarrow>
          (let l1 = [(LevelInfo, ''database_connected'', [])]; up = Serving (server_of g f) (reaper_of f) in
           if sSkipMigrate f then Some (up, l1, c)
           else case Migrate e es c of
                  (Some m, c') \<Rightarrow> Some (BootFailed (''migrate: '' @ m), l1, c')
                | (None, c') \<Rightarrow> Some (up, l1 @ [(LevelInfo, ''migrations_applied'', [])], c')))"

record http_server =
  srvAddr :: string
  srvHandler :: Server
  ReadHeaderTimeout :: duration
  ReadTimeout :: duration
  WriteTimeout :: duration
  IdleTimeout :: duration

definition http_server_of :: "sys \<Rightarrow> server_flags \<Rightarrow> http_server" where
  "http_server_of g f =
     \<lparr>srvAddr = sAddr f, srvHandler = server_of g f, ReadHeaderTimeout = 10 * Second, ReadTimeout = 30 * Second,
      WriteTimeout = 60 * Second, IdleTimeout = 120 * Second\<rparr>"

definition bool_text :: "bool \<Rightarrow> string" where
  "bool_text b = (if b then ''true'' else ''false'')"

definition auth_warning :: string where
  "auth_warning =
     ''authentication disabled; this server executes shell commands. '' @
     ''Do not expose it beyond localhost without setting QUEUE_AUTH_TOKEN.''"

text \<open>What the goroutine of the listener logs before it listens.\<close>

definition listen_log :: "sys \<Rightarrow> server_flags \<Rightarrow> logline list" where
  "listen_log g f =
     (let token = env_var g ''QUEUE_AUTH_TOKEN'' in
      (LevelInfo, ''server_started'',
        [(''addr'', sAddr f), (''auth_enabled'', bool_text (token \<noteq> [])), (''lease_seconds'', FormatInt (sLease f)),
         (''reap_seconds'', FormatInt (sReap f))])
      # (if token = [] then [(LevelWarn, auth_warning, [])] else []))"

text \<open>
  What the \<open>select\<close> at the end meets: an error of \<open>ListenAndServe\<close> other than the server being closed, or a signal, with the error of
  \<open>Shutdown\<close> within its fifteen seconds.
\<close>

datatype serve_end = ListenFailed string | Signalled "string option"

definition server_run ::
  "sys \<Rightarrow> dialer \<Rightarrow> timestamp \<Rightarrow> 's engine \<Rightarrow> entry list \<Rightarrow> serve_end \<Rightarrow> server_flags \<Rightarrow> 's catalog \<Rightarrow>
   (string option \<times> logline list \<times> 's catalog) option" where
  "server_run g dl t0 e es fin f c =
     (case server_boot g dl t0 e es f c of
        None \<Rightarrow> None
      | Some (BootFailed m, ls, c') \<Rightarrow> Some (Some m, ls, c')
      | Some (Serving sv rp, ls, c') \<Rightarrow>
          (case fin of
             ListenFailed m \<Rightarrow> Some (Some (''listen: '' @ m), ls, c')
           | Signalled x \<Rightarrow>
               (let l1 = ls @ [(LevelInfo, ''shutdown_signal_received'', [])] in
                case x of
                  Some m \<Rightarrow> Some (Some (''graceful shutdown: '' @ m), l1, c')
                | None \<Rightarrow> Some (None, l1 @ [(LevelInfo, ''server_stopped'', [])], c'))))"

text \<open>The exit status, what the main goroutine printed, and the database's catalog.\<close>

definition server_main ::
  "sys \<Rightarrow> dialer \<Rightarrow> timestamp \<Rightarrow> 's engine \<Rightarrow> entry list \<Rightarrow> serve_end \<Rightarrow> 's catalog \<Rightarrow>
   (nat \<times> logline list \<times> 's catalog) option" where
  "server_main g dl t0 e es fin c =
     (case Parse (serverFlags g) (args g) (server_defaults g) of
        Inl m \<Rightarrow> Some (flag_exit m, [], c)
      | Inr (f, _) \<Rightarrow>
          (let lg = server_setupLogging (sLogLevel f) (sLogFormat f) in
           case server_run g dl t0 e es fin f c of
             None \<Rightarrow> None
           | Some (None, ls, c') \<Rightarrow> Some (0, printed lg ls, c')
           | Some (Some m, ls, c') \<Rightarrow>
               Some (1, printed lg (ls @ [(LevelError, ''server exited with error'', [(''error'', m)])]), c')))"

section \<open>The worker\<close>

definition worker_main :: "sys \<Rightarrow> nat + (WConfig \<times> logger)" where
  "worker_main g =
     (case Parse (workerFlags g) (args g) (worker_defaults g) of
        Inl m \<Rightarrow> Inl (flag_exit m)
      | Inr (f, _) \<Rightarrow>
          (let c = worker_of g f in
           Inr (c, worker_setupLogging (wLogLevel f) (wLogFormat f) (WorkerName c))))"

text \<open>The status the process ends with; None while the loop goes on.\<close>

definition worker_exit :: "run_result \<Rightarrow> nat option" where
  "worker_exit r = (case r of RunReturned \<Rightarrow> Some 0 | RunRegisterFailed \<Rightarrow> Some 1 | RunGoing \<Rightarrow> None)"

definition worker_process ::
  "sys \<Rightarrow> codec \<Rightarrow> 'st reg_env \<Rightarrow> 'st turn_input list \<Rightarrow> 'st \<Rightarrow> (nat option \<times> act list \<times> 'st) option" where
  "worker_process g k e is st =
     (case worker_main g of
        Inl status \<Rightarrow> Some (Some status, [], st)
      | Inr (c, lg) \<Rightarrow>
          map_option (\<lambda>(r, acts, st'). (worker_exit r, acts, st')) (Run c k (big_float g) e is st))"

section \<open>Logging\<close>

text \<open>The documented names select their levels in any case; anything unreadable logs at info.\<close>

lemma new_logger_levels:
  "min_level (new_logger who ''debug'' fmt) = level_value LevelDebug" "min_level (new_logger who ''info'' fmt) = level_value LevelInfo"
  "min_level (new_logger who ''warn'' fmt) = level_value LevelWarn" "min_level (new_logger who ''error'' fmt) = level_value LevelError"
  "min_level (new_logger who ''verbose'' fmt) = level_value LevelInfo" "min_level (new_logger who ''Warn+2'' fmt) = 6"
  unfolding new_logger_def logger.simps by code_simp+

lemma printed_append [simp]: "printed lg (ls @ ms) = printed lg ls @ printed lg ms"
  by (simp add: printed_def)

text \<open>
  The warning that anybody may submit commands is printed exactly when no token is set, unless the level was raised above warnings.
\<close>

lemma auth_warning_printed:
  "(LevelWarn, auth_warning, []) \<in> set (printed lg (listen_log g f)) \<longleftrightarrow>
   env_var g ''QUEUE_AUTH_TOKEN'' = [] \<and> min_level lg \<le> level_value LevelWarn"
  by (auto simp: printed_def listen_log_def Let_def)

section \<open>The defaults\<close>

text \<open>
  Without settings the daemons run with the documented defaults, and these fit together: the server listens on the loopback
  interface only, serves with the configuration and the backoff of \<open>DefaultConfig\<close> and \<open>DefaultBackoff\<close> and the token of the environment, and sweeps
  every five seconds in batches of a hundred; the worker asks for a lease of 30 seconds, which the server grants as asked, renews it
  every ten seconds, and sends six heartbeats in the time after which the server calls it dead; both log at info.
\<close>

lemma defaults_fit:
  assumes "args g = []" "\<forall>key. key \<noteq> ''QUEUE_AUTH_TOKEN'' \<longrightarrow> env_var g key = []"
  shows "\<exists>f w lg. Parse (serverFlags g) (args g) (server_defaults g) = Inr (f, []) \<and> \<not> sSkipMigrate f \<and>
    http_server_of g f = \<lparr>srvAddr = ''127.0.0.1:8080'',
      srvHandler = \<lparr>cfg = DefaultConfig\<lparr>AuthToken := env_var g ''QUEUE_AUTH_TOKEN''\<rparr>, backoff = DefaultBackoff, conv = big_float g\<rparr>,
      ReadHeaderTimeout = 10 * Second, ReadTimeout = 30 * Second, WriteTimeout = 60 * Second, IdleTimeout = 120 * Second\<rparr> \<and>
    reaper_of f = \<lparr>sweep_interval = 5 * Second, batch = 100\<rparr> \<and>
    min_level (server_setupLogging (sLogLevel f) (sLogFormat f)) = level_value LevelInfo \<and>
    worker_main g = Inr (w, lg) \<and> min_level lg = level_value LevelInfo \<and> WToken w = env_var g ''QUEUE_AUTH_TOKEN'' \<and> Lease w = 30 * Second \<and>
    clampLease (server_of g f) 30 = Lease w \<and> renew_period w = 10 * Second \<and> 6 * HeartbeatInterval w = HeartbeatTimeout DefaultConfig"
proof -
  have d: "env g key x = x" "envInt g key n = n" "envFloat g key q = q" if "key \<noteq> ''QUEUE_AUTH_TOKEN''" for key x n q
    using assms(2) that by (simp_all add: env_def envInt_def envFloat_def)
  have fs: "float_seconds g 1 = Second" "float_seconds g 300 = 300 * Second"
    using float_seconds_int [of 1 g] float_seconds_int [of 300 g] by simp_all
  have sd: "server_of g (server_defaults g) =
      \<lparr>cfg = DefaultConfig\<lparr>AuthToken := env_var g ''QUEUE_AUTH_TOKEN''\<rparr>, backoff = DefaultBackoff, conv = big_float g\<rparr>"
    by (simp add: server_of_def server_defaults_def d fs int_seconds_exact DefaultConfig_def DefaultBackoff_def Minute_def Second_def)
  have rd: "reaper_of (server_defaults g) = \<lparr>sweep_interval = 5 * Second, batch = 100\<rparr>"
    by (simp add: reaper_of_def server_defaults_def d int_seconds_exact NewReaper_def Second_def)
  have "Parse (serverFlags g) (args g) (server_defaults g) = Inr (server_defaults g, [])" using assms(1) by simp
  moreover have "http_server_of g (server_defaults g) = \<lparr>srvAddr = ''127.0.0.1:8080'', srvHandler = server_of g (server_defaults g),
      ReadHeaderTimeout = 10 * Second, ReadTimeout = 30 * Second, WriteTimeout = 60 * Second, IdleTimeout = 120 * Second\<rparr>"
    "\<not> sSkipMigrate (server_defaults g)" "sLogLevel (server_defaults g) = ''info''"
    by (simp_all add: http_server_of_def server_defaults_def d)
  moreover have "clampLease (server_of g (server_defaults g)) (of_int 30) = 30 * Second"
    by (rule clampLease_exact) (simp_all add: sd DefaultConfig_def Second_def Minute_def)
  moreover have "worker_main g =
      Inr (worker_of g (worker_defaults g), new_logger ''worker'' ''info'' (wLogFormat (worker_defaults g)))"
    using assms(1) by (simp add: worker_main_def worker_setupLogging_def Let_def worker_defaults_def d)
  moreover have "Lease (worker_of g (worker_defaults g)) = 30 * Second"
    "HeartbeatInterval (worker_of g (worker_defaults g)) = 10 * Second"
    "WToken (worker_of g (worker_defaults g)) = env_var g ''QUEUE_AUTH_TOKEN''"
    by (simp_all add: worker_of_def worker_defaults_def d fs int_seconds_exact New_def Let_def Second_def)
  ultimately show ?thesis
    unfolding sd by (intro exI [of _ "server_defaults g"])
      (auto simp: rd sd renew_period_def DefaultConfig_def Second_def new_logger_levels server_setupLogging_def)
qed

definition demo_sys :: sys where
  "demo_sys = \<lparr>env_var = (\<lambda>_. []), args = [], parse_float = (\<lambda>_. None), flag_int_of = (\<lambda>_. Inl ''parse error''),
     flag_float_of = (\<lambda>_. Inl ''parse error''), big_float = (\<lambda>_. - (2 ^ 63)), host = Some ''box'', entropy = Some ''abc'', pid = 7\<rparr>"

section \<open>How the server ends\<close>

text \<open>The database answers before the server gives up.\<close>

definition answers :: "dialer \<Rightarrow> timestamp \<Rightarrow> string \<Rightarrow> bool" where
  "answers dl t0 url \<longleftrightarrow> (\<exists>p x. WaitForDB dl t0 (db_DefaultConfig url) (30 * Second) = Some (Connected p, x))"



section \<open>How the worker ends\<close>

text \<open>No signal reaches the worker while it registers or in the turns given.\<close>

definition patient :: "'st reg_env \<Rightarrow> bool" where
  "patient e \<longleftrightarrow> (\<forall>n. \<not> reg_gone e n \<and> reg_woken e n)"

definition undisturbed :: "'st turn_input \<Rightarrow> bool" where
  "undisturbed i \<longleftrightarrow> \<not> top_gone i \<and> \<not> after_gone i \<and> patient (rereg i)"

lemma register_patient:
  assumes "patient e" "registerWithRetry c k e st = Some (ok, waits, st')"
  shows ok
proof -
  have "patient e \<longrightarrow> fst y" if "register_loop c k e n w ws s = Some y" for n w ws s y
  proof (rule register_loop.raw_induct [where P = "\<lambda>c k e n w ws s y. patient e \<longrightarrow> fst y", OF _ that])
    fix reg c k e n w ws s y
    assume ih: "\<And>c k e n w ws (s :: 'a) y. reg c k e n w ws s = Some y \<Longrightarrow> patient e \<longrightarrow> fst y"
      and "(case client_Register (client_of c) k (reg_net e n) (WorkerName c) (WHostname c) s of
        (Inl _, st') \<Rightarrow> if reg_gone e n then Some (False, ws, st')
          else if \<not> reg_woken e n then Some (False, ws @ [w], st')
          else reg c k e (Suc n) (if w < 10 * Second then w * 2 else w) (ws @ [w]) st'
      | (Inr _, st') \<Rightarrow> Some (True, ws, st')) = Some y"
    then show "patient e \<longrightarrow> fst y" by (force simp: patient_def split: prod.splits sum.splits if_splits dest: ih)
  qed
  with assms show ?thesis by (auto simp: registerWithRetry_def)
qed

text \<open>Turns without a signal are all taken, and what comes after them goes on from there.\<close>

lemma Run_loop_goes_on:
  assumes "\<forall>i \<in> set is. undisturbed i"
  shows "Run_loop c k cv is st = None \<or>
    (\<exists>acts st'. length acts = length is \<and> Run_loop c k cv is st = Some (RunGoing, acts, st') \<and>
       Run_loop c k cv (is @ js) st = map_option (\<lambda>(r, acts', st''). (r, acts @ acts', st'')) (Run_loop c k cv js st'))"
  using assms
proof (induction "is" arbitrary: st)
  case Nil
  then show ?case by (simp add: option.map_ident case_prod_beta)
next
  case (Cons i "is")
  obtain res st1 where cl: "client_Claim (client_of c) k (claim_net i) (WorkerName c) (Lease c) st = (res, st1)" by fastforce
  have i: "\<not> top_gone i" "\<not> after_gone i" "patient (rereg i)" using Cons.prems by (auto simp: undisturbed_def)
  have ih: "Run_loop c k cv is s = None \<or>
    (\<exists>acts st'. length acts = length is \<and> Run_loop c k cv is s = Some (RunGoing, acts, st') \<and>
       Run_loop c k cv (is @ js) s = map_option (\<lambda>(r, acts', st''). (r, acts @ acts', st'')) (Run_loop c k cv js st'))" for s
    using Cons.IH Cons.prems by simp
  show ?case
  proof (cases "turn c (jitter cv (draw i)) (after_gone i) res")
    case (DoProcess job)
    obtain r ws st2 where "Worker_Loop.process c k (around i) job st1 = (r, ws, st2)" by (metis prod_cases3)
    with DoProcess cl i(1) ih [of st2] show ?thesis by (auto simp: option.map_comp comp_def case_prod_beta)
  next
    case (DoSleep x)
    with cl i(1) ih [of st1] show ?thesis by (auto simp: option.map_comp comp_def case_prod_beta)
  next
    case DoReregister
    show ?thesis
    proof (cases "registerWithRetry c k (rereg i) st1")
      case None
      with DoReregister cl i(1) show ?thesis by simp
    next
      case (Some y)
      obtain ok ws st2 where y: "y = (ok, ws, st2)" by (cases y)
      with register_patient [OF i(3)] Some have ok by blast
      with Some y DoReregister cl i(1) ih [of st2] show ?thesis by (auto simp: option.map_comp comp_def case_prod_beta)
    qed
  next
    case DoStop
    with i(2) show ?thesis by (auto simp: turn_def split: sum.splits client_error.splits)
  qed
qed


text \<open>A server that registers whoever asks and then goes away: the claim fails, and the next turn meets the signal.\<close>

definition open_door :: "nat reg_env" where
  "open_door = \<lparr>reg_net = (\<lambda>n r st. (Reply 200 (Text []), Suc st)), reg_gone = (\<lambda>_. False), reg_woken = (\<lambda>_. True)\<rparr>"

definition refused_turn :: "nat turn_input" where
  "refused_turn = \<lparr>top_gone = False, claim_net = dead ''connection refused'', after_gone = False, draw = 1 / 2,
     around = \<lparr>renewals = [], shell_of = (\<lambda>_ _ _. ok_process), shutting_down = False, net_at = (\<lambda>_. dead ''gone''),
       report_gone = (\<lambda>_. False)\<rparr>, rereg = open_door\<rparr>"


end
