(* ===== verification/Api_Types.thy ===== *)
theory Api_Types
  imports Cli Bench
begin

text \<open>
  The API as a type system: the table of endpoints of \<open>docs/DESIGN.md\<close> gives each its success status and the shape of its
  reply, and each error status the codes it may carry. The server keeps to the table for every request, so a
  client that decodes the shape of its endpoint never meets another.
\<close>

section \<open>Shapes\<close>

datatype shape = JobShape | JobsShape | WorkerShape | WorkersShape | StatsShape | HealthShape | ErrorShape

fun shape_of :: "payload \<Rightarrow> shape" where
  "shape_of (JobBody j) = JobShape"
| "shape_of (JobsBody js) = JobsShape"
| "shape_of (WorkerBody v) = WorkerShape"
| "shape_of (WorkersBody vs) = WorkersShape"
| "shape_of (StatsBody m a b) = StatsShape"
| "shape_of HealthBody = HealthShape"
| "shape_of (ErrorBody msg code) = ErrorShape"

lemma shape_of_eq:
  "shape_of v = JobShape \<longleftrightarrow> (\<exists>j. v = JobBody j)" "shape_of v = JobsShape \<longleftrightarrow> (\<exists>js. v = JobsBody js)"
  "shape_of v = WorkerShape \<longleftrightarrow> (\<exists>x. v = WorkerBody x)" "shape_of v = WorkersShape \<longleftrightarrow> (\<exists>xs. v = WorkersBody xs)"
  "shape_of v = StatsShape \<longleftrightarrow> (\<exists>m a b. v = StatsBody m a b)"
  by (cases v; simp)+

text \<open>The status and code of an error reply.\<close>

definition error_codes :: "(nat \<times> string) list" where
  "error_codes =
     [(400, ''bad_request''), (401, ''unauthorized''), (404, ''not_found''), (404, ''no_jobs_available''),
      (405, ''bad_request''), (409, ''conflict''), (500, ''internal_error''), (503, ''internal_error'')]"

fun error_typed :: "nat \<Rightarrow> payload \<Rightarrow> bool" where
  "error_typed st (ErrorBody msg code) \<longleftrightarrow> (st, code) \<in> set error_codes"
| "error_typed st v \<longleftrightarrow> False"

text \<open>The table: method, path, success status, shape.\<close>

definition api_table :: "(string \<times> pat list \<times> nat \<times> shape) list" where
  "api_table =
     [(''GET'', [Lit ''healthz''], 200, HealthShape), (''GET'', [Lit ''stats''], 200, StatsShape),
      (''POST'', [Lit ''jobs''], 201, JobShape), (''GET'', [Lit ''jobs''], 200, JobsShape),
      (''POST'', [Lit ''jobs'', Lit ''claim''], 200, JobShape), (''GET'', [Lit ''jobs'', Wild], 200, JobShape),
      (''POST'', [Lit ''jobs'', Wild, Lit ''cancel''], 200, JobShape),
      (''POST'', [Lit ''jobs'', Wild, Lit ''complete''], 200, JobShape),
      (''POST'', [Lit ''jobs'', Wild, Lit ''fail''], 200, JobShape),
      (''POST'', [Lit ''jobs'', Wild, Lit ''lease''], 200, JobShape),
      (''POST'', [Lit ''workers'', Lit ''register''], 201, WorkerShape),
      (''GET'', [Lit ''workers''], 200, WorkersShape),
      (''POST'', [Lit ''workers'', Wild, Lit ''heartbeat''], 200, WorkerShape)]"

definition api_type :: "string \<Rightarrow> string list \<Rightarrow> (nat \<times> shape) option" where
  "api_type meth sg =
     map_option (\<lambda>(v, ps, t). t) (find (\<lambda>(v, ps, t). verb_matches v meth \<and> path_matches ps sg) api_table)"

text \<open>A reply of type \<open>t\<close>: success with the status and the shape, or an error.\<close>

definition typed :: "nat \<times> shape \<Rightarrow> nat \<Rightarrow> payload \<Rightarrow> bool" where
  "typed t st v \<longleftrightarrow> (st, shape_of v) = t \<or> error_typed st v"

section \<open>The contract of an endpoint's type\<close>

definition answers_typed :: "nat \<times> shape \<Rightarrow> world \<Rightarrow> bool" where
  "answers_typed t w \<longleftrightarrow> (\<exists>st v. answered w st v \<and> typed t st v)"

locale typed_endpoint =
  fixes h :: endpoint and t :: "nat \<times> shape"
  assumes answers_typed: "unanswered w \<Longrightarrow> answers_typed t (h sv s r w)"
begin

lemma answer_type: "unanswered w \<Longrightarrow> answered (h sv s r w) st v \<Longrightarrow> typed t st v"
  using answers_typed [of w sv s r] by (auto simp: answers_typed_def dest: answered_unique)

end

lemma typed_writeJSON: "unanswered w \<Longrightarrow> t = (st, shape_of v) \<Longrightarrow> answers_typed t (writeJSON st v w)"
  using writeJSON_answers [of w st v] by (auto simp: answers_typed_def typed_def)

lemma typed_writeError: "unanswered w \<Longrightarrow> (st, code) \<in> set error_codes \<Longrightarrow> answers_typed t (writeError st code msg w)"
  using writeError_answers [of w st code msg] by (fastforce simp: answers_typed_def typed_def)

lemma typed_bad_request: "unanswered w \<Longrightarrow> answers_typed t (bad_request m w)"
  unfolding bad_request_def by (rule typed_writeError) (simp_all add: error_codes_def CodeBadRequest_def)

lemma typed_writeStoreError: "unanswered w \<Longrightarrow> answers_typed t (writeStoreError e w)"
  by (cases e) (auto simp: writeStoreError_def error_codes_def code_defs intro!: typed_writeError)

lemmas typed_intros = typed_writeJSON typed_bad_request typed_writeStoreError typed_writeError

interpretation tHealth: typed_endpoint handleHealth "(200, HealthShape)"
  by unfold_locales (auto simp: handleHealth_def error_codes_def CodeInternal_def split: sum.split intro!: typed_intros)

interpretation tStats: typed_endpoint handleStats "(200, StatsShape)"
  by unfold_locales (auto simp: handleStats_def Let_def split: sum.split intro!: typed_intros)

interpretation tCreate: typed_endpoint handleCreateJob "(201, JobShape)"
  by unfold_locales
    (auto simp: handleCreateJob_def Let_def split: sum.split option.split prod.split intro!: typed_intros)

interpretation tList: typed_endpoint handleListJobs "(200, JobsShape)"
  by unfold_locales (auto simp: handleListJobs_def Let_def split: sum.split intro!: typed_intros)

interpretation tGet: typed_endpoint handleGetJob "(200, JobShape)"
  by unfold_locales (auto simp: handleGetJob_def split: sum.split intro!: typed_intros)

interpretation tCancel: typed_endpoint handleCancel "(200, JobShape)"
  by unfold_locales (auto simp: handleCancel_def split: sum.split prod.split intro!: typed_intros)

interpretation tClaim: typed_endpoint handleClaim "(200, JobShape)"
  by unfold_locales (auto simp: handleClaim_def Let_def split: sum.split prod.split intro!: typed_intros)

interpretation tComplete: typed_endpoint handleComplete "(200, JobShape)"
  by unfold_locales (auto simp: handleComplete_def split: sum.split prod.split intro!: typed_intros)

interpretation tFail: typed_endpoint handleFail "(200, JobShape)"
  by unfold_locales (auto simp: handleFail_def split: sum.split prod.split intro!: typed_intros)

interpretation tRenew: typed_endpoint handleRenewLease "(200, JobShape)"
  by unfold_locales (auto simp: handleRenewLease_def split: sum.split prod.split intro!: typed_intros)

interpretation tRegister: typed_endpoint handleRegisterWorker "(201, WorkerShape)"
  by unfold_locales (auto simp: handleRegisterWorker_def Let_def split: sum.split prod.split intro!: typed_intros)

interpretation tHeartbeat: typed_endpoint handleHeartbeat "(200, WorkerShape)"
  by unfold_locales
    (auto simp: handleHeartbeat_def Let_def error_codes_def CodeNotFound_def split: sum.split prod.split intro!: typed_intros)

interpretation tListWorkers: typed_endpoint handleListWorkers "(200, WorkersShape)"
  by unfold_locales (auto simp: handleListWorkers_def split: sum.split intro!: typed_intros)

lemmas endpoints_typed = tHealth.answers_typed tStats.answers_typed tCreate.answers_typed tList.answers_typed
  tClaim.answers_typed tGet.answers_typed tCancel.answers_typed tComplete.answers_typed tFail.answers_typed
  tRenew.answers_typed tRegister.answers_typed tListWorkers.answers_typed tHeartbeat.answers_typed

section \<open>The whole server\<close>

text \<open>Two tables searched in step.\<close>

lemma find_parallel:
  assumes "list_all2 (\<lambda>x y. P x = Q y \<and> R x y) xs ys"
  shows "(\<exists>x y. find P xs = Some x \<and> find Q ys = Some y \<and> R x y) \<or> find P xs = None \<and> find Q ys = None"
  using assms by (induction rule: list_all2_induct) auto

lemma routes_typed:
  "list_all2 (\<lambda>t (v, ps, ty). verb t = v \<and> pats t = ps \<and>
     (\<forall>sv s r w. unanswered w \<longrightarrow> answers_typed ty (target t sv s r w))) routes api_table"
  by (simp add: routes_def api_table_def endpoints_typed)

lemma http_Error_typed:
  assumes "unanswered w" "substituted w = Some False" "code = 404 \<or> code = 405"
  shows "\<exists>v. answered (http_Error msg code w) code v \<and> error_typed code v"
  using http_Error_answers [OF assms] assms(3) by (fastforce simp: error_codes_def code_defs)

text \<open>What the router answers: the type of the path, or an error.\<close>

definition reply_ok :: "Request \<Rightarrow> nat \<Rightarrow> payload \<Rightarrow> bool" where
  "reply_ok r st v \<longleftrightarrow> api_type (http_method r) (segs r) = Some (st, shape_of v) \<or> error_typed st v"

lemma mux_typed:
  assumes "unanswered w" "substituted w = Some False"
  obtains w' st v where "mux sv s r w = Returned w'" "answered w' st v" "reply_ok r st v"
proof -
  let ?Q = "\<lambda>(v, ps, ty). verb_matches v (http_method r) \<and> path_matches ps (segs r)"
  let ?R = "\<lambda>t (v, ps, ty). \<forall>sv s r w. unanswered w \<longrightarrow> answers_typed ty (target t sv s r w)"
  have "list_all2 (\<lambda>t y. route_matches r t = ?Q y \<and> ?R t y) routes api_table"
    using routes_typed by (rule list_all2_mono) (auto simp: route_matches_def)
  from find_parallel [OF this]
  consider (hit) t v ps ty where "find (route_matches r) routes = Some t" "find ?Q api_table = Some (v, ps, ty)"
      "\<forall>sv s r w. unanswered w \<longrightarrow> answers_typed ty (target t sv s r w)"
    | (miss) "find (route_matches r) routes = None"
    by auto
  then show ?thesis
  proof cases
    case hit
    then have "api_type (http_method r) (segs r) = Some ty" by (simp add: api_type_def)
    then show ?thesis
      using that hit assms(1) by (fastforce simp: mux_def answers_typed_def typed_def reply_ok_def)
  next
    case miss
    obtain msg code where e: "mux sv s r w = Returned (http_Error msg code w)" "code = 404 \<or> code = 405"
      using miss by (cases "list_ex (\<lambda>t. path_matches (pats t) (segs r)) routes") (auto simp: mux_def)
    then show ?thesis
      using that [OF e(1)] http_Error_typed [OF assms e(2), of msg] by (auto simp: reply_ok_def)
  qed
qed

lemma serve_typed:
  obtains st v where "serves_with (serve sv s r d) st v" "reply_ok r st v"
proof -
  let ?w = "fresh d\<lparr>recorder := Some (200, False)\<rparr>"
    and ?r = "r\<lparr>body_limit := nat (MaxRequestBytes (cfg sv))\<rparr>"
  have w: "unanswered ?w" "unanswered (?w\<lparr>substituted := Some False\<rparr>)" by (simp_all add: unanswered_def fresh_def)
  obtain w1 st1 v1 where m: "mux sv s ?r (?w\<lparr>substituted := Some False\<rparr>) = Returned w1" "answered w1 st1 v1" "reply_ok ?r st1 v1"
    by (rule mux_typed [OF w(2)]) simp_all
  have m': "jsonErrors (mux sv s) ?r ?w = Returned (w1\<lparr>substituted := None\<rparr>)" "answered (w1\<lparr>substituted := None\<rparr>) st1 v1"
    using m by (simp_all add: jsonErrors_def answered_def)
  have e: "answered (writeError 401 CodeUnauthorized msg ?w) 401 (ErrorBody msg CodeUnauthorized)" for msg
    using w(1) by (rule writeError_answers)
  obtain w2 st v where a: "auth (AuthToken (cfg sv)) (jsonErrors (mux sv s)) ?r ?w = Returned w2" "answered w2 st v" "reply_ok ?r st v"
  proof (cases "AuthToken (cfg sv) = [] \<or> url_path ?r = ''/healthz'' \<or> TrimPrefix (authorization ?r) ''Bearer '' = AuthToken (cfg sv)")
    case True
    then show ?thesis using that m' m(3) by (auto simp: auth_def)
  next
    case False
    let ?m = "''invalid or missing bearer token''"
    have "error_typed 401 (ErrorBody ?m CodeUnauthorized)" by (simp add: error_codes_def CodeUnauthorized_def)
    with False show ?thesis using that [OF _ e [of ?m]] by (auto simp: auth_def reply_ok_def)
  qed
  then have "serves_with (serve sv s r d) st v"
    by (simp add: serve_def ServeHTTP_def chain_def recovery_def logging_def maxBody_def answered_def serves_with_def)
  with a(3) that show ?thesis by (simp add: reply_ok_def)
qed

lemma error_statuses: "error_typed st v \<Longrightarrow> 400 \<le> st"
  by (cases v) (auto simp: error_codes_def)

lemma api_statuses: "api_type meth sg = Some (st, sh) \<Longrightarrow> st < 300"
proof -
  assume "api_type meth sg = Some (st, sh)"
  then obtain v ps where "(v, ps, st, sh) \<in> set api_table" by (auto simp: api_type_def dest!: find_SomeD)
  then show ?thesis by (auto simp: api_table_def)
qed



section \<open>Clients decode what they get\<close>

text \<open>A reply of the server that a client takes for a success has the shape of its endpoint.\<close>

lemma server_net_typed:
  assumes "server_net sv s r d = (Reply st ch, d')" "st < 300" "api_type (http_method r) (segs r) = Some (n, sh)"
  obtains v where "ch = Json v" "shape_of v = sh"
proof -
  obtain st' v where v: "serves_with (serve sv s r d) st' v" "reply_ok r st' v" by (rule serve_typed)
  then have "st' = st" "ch = Json v" using assms(1) by (auto simp: server_net_def serves_with_def Let_def)
  with v(2) assms(2,3) error_statuses [of st v] that show ?thesis by (auto simp: reply_ok_def)
qed

lemma server_net_replies: "\<exists>st ch d'. server_net sv s r d = (Reply st ch, d')"
  using serve_typed [of sv s r d] by (fastforce simp: server_net_def serves_with_def Let_def)

text \<open>What comes back from a call: an error that is not one of decoding, or the endpoint's shape.\<close>

definition fits :: "shape \<Rightarrow> 'e set \<Rightarrow> 'e + chunk \<Rightarrow> bool" where
  "fits sh bad x \<longleftrightarrow> (case x of Inl e \<Rightarrow> e \<notin> bad | Inr ch \<Rightarrow> \<exists>v. ch = Json v \<and> shape_of v = sh)"

lemma classify_not_other: "classify k st ch \<notin> range CErrOther"
  by (auto simp: classify_def split: prod.splits)

lemma client_do_fits:
  assumes "url_segs path = Some sg" "api_type meth sg = Some (n, sh)"
  obtains x d' where "client_do c k (server_net sv s) meth path bdy d = (x, d')" "fits sh (range CErrOther) x"
proof -
  let ?r = "build_request c k meth sg bdy"
  obtain st ch d' where r: "server_net sv s ?r d = (Reply st ch, d')" using server_net_replies by blast
  have "api_type (http_method ?r) (segs ?r) = Some (n, sh)" using assms(2) by (simp add: build_request_def)
  with server_net_typed [OF r] have "st < 300 \<Longrightarrow> fits sh (range CErrOther) (Inr ch)" by (auto simp: fits_def)
  with r assms(1) that [of "if st \<ge> 300 then Inl (classify k st ch) else Inr ch" d'] show ?thesis
    using classify_not_other [of k st ch] by (cases "300 \<le> st") (simp_all add: client_do_def fits_def)
qed

lemma bench_do_fits:
  assumes "url_segs path = Some sg" "api_type meth sg = Some (n, sh)"
  obtains x d' where "bench_do b k (server_net sv s) meth path bdy d = (x, d')" "fits sh (range BenchOther) x"
proof -
  let ?r = "(build_request \<lparr>BaseURL = server b, Token = token b\<rparr> k meth sg bdy)\<lparr>query := query_of path\<rparr>"
  obtain st ch d' where r: "server_net sv s ?r d = (Reply st ch, d')" using server_net_replies by blast
  have "api_type (http_method ?r) (segs ?r) = Some (n, sh)" using assms(2) by (simp add: build_request_def)
  with server_net_typed [OF r] have "st < 300 \<Longrightarrow> fits sh (range BenchOther) (Inr ch)" by (auto simp: fits_def)
  moreover have "300 \<le> st \<Longrightarrow> \<exists>x. bench_do b k (server_net sv s) meth path bdy d = (x, d') \<and> fits sh (range BenchOther) x"
    using r assms(1) by (auto simp: bench_do_def fits_def image_iff split: chunk.split payload.split)
  moreover have "st < 300 \<Longrightarrow> bench_do b k (server_net sv s) meth path bdy d = (Inr ch, d')"
    using r assms(1) by (simp add: bench_do_def)
  ultimately show ?thesis using that by (cases "300 \<le> st") auto
qed

lemma request_fits:
  assumes "url_segs path = Some sg" "api_type meth sg = Some (n, sh)"
  obtains x d' where "request g (\<lambda>_. server_net sv s) srv meth path bdy d = (x, d')" "fits sh {''decode response''} x"
proof -
  let ?c = "\<lparr>BaseURL = TrimRight (CHR ''/'') srv, Token = getenv g ''QUEUE_AUTH_TOKEN''\<rparr>"
  let ?r = "(build_request ?c (codec_of g) meth sg bdy)\<lparr>query := query_of path\<rparr>"
  obtain st ch d' where r: "server_net sv s ?r d = (Reply st ch, d')" using server_net_replies by blast
  have "api_type (http_method ?r) (segs ?r) = Some (n, sh)" using assms(2) by (simp add: build_request_def)
  with server_net_typed [OF r] have "st < 300 \<Longrightarrow> fits sh {''decode response''} (Inr ch)" by (auto simp: fits_def)
  with r assms(1) that show ?thesis
    by (cases "300 \<le> st") (auto simp: request_def Let_def fits_def)
qed

lemma client_paths:
  "url_segs ''/jobs/claim'' = Some [''jobs'', ''claim'']" "url_segs ''/jobs'' = Some [''jobs'']"
  "url_segs ''/stats'' = Some [''stats'']" "url_segs ''/workers'' = Some [''workers'']"
  by code_simp+

lemma client_types:
  "api_type ''POST'' [''jobs'', ''claim''] = Some (200, JobShape)" "api_type ''POST'' [''jobs''] = Some (201, JobShape)"
  "api_type ''GET'' [''stats''] = Some (200, StatsShape)" "api_type ''GET'' [''workers''] = Some (200, WorkersShape)"
  by (simp_all add: api_type_def api_table_def verb_matches_def)


end
