(* ===== verification/Store_Rows.thy ===== *)
theory Store_Rows
  imports Store Go_Lib
begin

text \<open>
  Reading a job row (\<open>internal/jobs/store.go\<close>): the list of columns that every statement selects or returns, and \<open>scanJob\<close>, which
  stores the values of a row by position. The store's model works on whole rows; this theory is why it may.
\<close>

section \<open>Values and destinations\<close>

text \<open>What the driver hands to \<open>Scan\<close>.\<close>

datatype sqlval = SNull | SInt int | SText string | STime timestamp

text \<open>
  A destination stores one value or refuses it, by the conversions of \<open>database/sql\<close>: text and numbers convert into each other, a
  time prints as text (\<open>tt\<close>), and only a pointer takes NULL.
\<close>

type_synonym 'a dest = "sqlval \<Rightarrow> 'a \<Rightarrow> string + 'a"

definition text_value :: "(timestamp \<Rightarrow> string) \<Rightarrow> sqlval \<Rightarrow> string option" where
  "text_value tt v = (case v of SNull \<Rightarrow> None | SInt n \<Rightarrow> Some (FormatInt n) | SText t \<Rightarrow> Some t | STime x \<Rightarrow> Some (tt x))"

definition int_value :: "sqlval \<Rightarrow> int option" where
  "int_value v = (case v of SInt n \<Rightarrow> Some n | SText t \<Rightarrow> ParseInt t | _ \<Rightarrow> None)"

definition time_value :: "sqlval \<Rightarrow> timestamp option" where
  "time_value v = (case v of STime t \<Rightarrow> Some t | _ \<Rightarrow> None)"

definition into :: "(sqlval \<Rightarrow> 'v option) \<Rightarrow> ('v \<Rightarrow> 'a \<Rightarrow> 'a) \<Rightarrow> 'a dest" where
  "into rd put v a = (case rd v of None \<Rightarrow> Inl ''unsupported Scan'' | Some x \<Rightarrow> Inr (put x a))"

definition into_ptr :: "(sqlval \<Rightarrow> 'v option) \<Rightarrow> ('v option \<Rightarrow> 'a \<Rightarrow> 'a) \<Rightarrow> 'a dest" where
  "into_ptr rd put v a = (if v = SNull then Inr (put None a) else into rd (\<lambda>x. put (Some x)) v a)"

text \<open>A status is text; the schema's CHECK admits the five texts only.\<close>

definition status_value :: "sqlval \<Rightarrow> Status option" where
  "status_value v = (case v of SText t \<Rightarrow> find (\<lambda>s. status_text s = t) all_statuses | _ \<Rightarrow> None)"

fun scan_each :: "'a dest list \<Rightarrow> sqlval list \<Rightarrow> 'a \<Rightarrow> string + 'a" where
  "scan_each (d # ds) (v # vs) a = (case d v a of Inl e \<Rightarrow> Inl e | Inr a' \<Rightarrow> scan_each ds vs a')"
| "scan_each _ _ a = Inr a"

definition Scan :: "sqlval list \<Rightarrow> 'a dest list \<Rightarrow> 'a \<Rightarrow> string + 'a" where
  "Scan vs ds a =
     (if length vs \<noteq> length ds
      then Inl (''sql: expected '' @ FormatInt (int (length vs)) @ '' destination arguments in Scan, not '' @
                FormatInt (int (length ds)))
      else scan_each ds vs a)"

section \<open>The job row\<close>

definition jobCols :: "string list" where
  "jobCols =
     [''id'', ''type'', ''payload'', ''status'', ''attempts'', ''max_attempts'', ''created_at'',
      ''updated_at'', ''available_at'', ''worker_id'', ''lease_until'', ''last_error'',
      ''result_stdout'', ''result_stderr'', ''result_exit_code'', ''duration_ms'']"

text \<open>The variable before the scan; its empty status has no counterpart here, and is overwritten in any row that is returned.\<close>

definition zero_job :: Job where
  "zero_job =
     \<lparr>ID = 0, Type = [], Payload = [], Status = StatusPending, Attempts = 0, MaxAttempts = 0, CreatedAt = 0, UpdatedAt = 0,
      AvailableAt = 0, WorkerID = None, LeaseUntil = None, LastError = None, ResultStdout = None, ResultStderr = None,
      ResultExitCode = None, DurationMS = None\<rparr>"

definition scanJob :: "(timestamp \<Rightarrow> string) \<Rightarrow> sqlval list \<Rightarrow> string + Job" where
  "scanJob tt vs = Scan vs
     [into int_value (\<lambda>x j. j\<lparr>ID := x\<rparr>), into (text_value tt) (\<lambda>x j. j\<lparr>Type := x\<rparr>),
      into (text_value tt) (\<lambda>x j. j\<lparr>Payload := x\<rparr>), into status_value (\<lambda>x j. j\<lparr>Status := x\<rparr>),
      into int_value (\<lambda>x j. j\<lparr>Attempts := x\<rparr>), into int_value (\<lambda>x j. j\<lparr>MaxAttempts := x\<rparr>),
      into time_value (\<lambda>x j. j\<lparr>CreatedAt := x\<rparr>), into time_value (\<lambda>x j. j\<lparr>UpdatedAt := x\<rparr>),
      into time_value (\<lambda>x j. j\<lparr>AvailableAt := x\<rparr>), into_ptr (text_value tt) (\<lambda>x j. j\<lparr>WorkerID := x\<rparr>),
      into_ptr time_value (\<lambda>x j. j\<lparr>LeaseUntil := x\<rparr>), into_ptr (text_value tt) (\<lambda>x j. j\<lparr>LastError := x\<rparr>),
      into_ptr (text_value tt) (\<lambda>x j. j\<lparr>ResultStdout := x\<rparr>), into_ptr (text_value tt) (\<lambda>x j. j\<lparr>ResultStderr := x\<rparr>),
      into_ptr int_value (\<lambda>x j. j\<lparr>ResultExitCode := x\<rparr>), into_ptr int_value (\<lambda>x j. j\<lparr>DurationMS := x\<rparr>)]
     zero_job"

text \<open>The table's side: the columns of the schema with the values of a row, and what a statement that names some of them returns.\<close>

definition nullable :: "('v \<Rightarrow> sqlval) \<Rightarrow> 'v option \<Rightarrow> sqlval" where
  "nullable f x = (case x of None \<Rightarrow> SNull | Some v \<Rightarrow> f v)"

definition job_columns :: "Job \<Rightarrow> (string \<times> sqlval) list" where
  "job_columns j =
     [(''id'', SInt (ID j)), (''type'', SText (Type j)), (''payload'', SText (Payload j)),
      (''status'', SText (status_text (Status j))), (''attempts'', SInt (Attempts j)), (''max_attempts'', SInt (MaxAttempts j)),
      (''created_at'', STime (CreatedAt j)), (''updated_at'', STime (UpdatedAt j)), (''available_at'', STime (AvailableAt j)),
      (''worker_id'', nullable SText (WorkerID j)), (''lease_until'', nullable STime (LeaseUntil j)),
      (''last_error'', nullable SText (LastError j)), (''result_stdout'', nullable SText (ResultStdout j)),
      (''result_stderr'', nullable SText (ResultStderr j)), (''result_exit_code'', nullable SInt (ResultExitCode j)),
      (''duration_ms'', nullable SInt (DurationMS j))]"

definition select_cols :: "string list \<Rightarrow> Job \<Rightarrow> sqlval list option" where
  "select_cols cols j = those (map (map_of (job_columns j)) cols)"

section \<open>A row is read back as it is\<close>

lemma sqlval_values [simp]:
  "text_value tt (SText t) = Some t" "int_value (SInt n) = Some n" "time_value (STime x) = Some x"
  "text_value tt SNull = None" "int_value SNull = None" "time_value SNull = None" "status_value SNull = None"
  by (simp_all add: text_value_def int_value_def time_value_def status_value_def)

lemma status_value_text [simp]: "status_value (SText (status_text s)) = Some s"
  by (cases s) (simp_all add: status_value_def all_statuses_def)

lemma into_ptr_nullable [simp]:
  "(\<And>x. rd (f x) = Some x) \<Longrightarrow> (\<And>x. f x \<noteq> SNull) \<Longrightarrow> into_ptr rd put (nullable f v) a = Inr (put v a)"
  by (cases v) (simp_all add: into_ptr_def into_def nullable_def)

lemma select_jobCols: "select_cols jobCols j = Some (map snd (job_columns j))"
  by (simp add: select_cols_def jobCols_def job_columns_def)

text \<open>
  C35. What a statement reads is what the row holds: the columns of \<open>jobCols\<close>, in their order, scanned by position give back exactly the
  row, every absent value included; a row with another number of columns, or with NULL where the schema forbids it, is an
  error and never a job with a made-up value.
\<close>

theorem scan_reads_back:
  "map_option (scanJob tt) (select_cols jobCols j) = Some (Inr j) \<and>
   (length vs \<noteq> length jobCols \<longrightarrow> (\<exists>e. scanJob tt vs = Inl e)) \<and>
   (\<forall>i < 9. \<exists>e. scanJob tt ((map snd (job_columns j))[i := SNull]) = Inl e)"
proof (intro conjI allI impI)
  show "map_option (scanJob tt) (select_cols jobCols j) = Some (Inr j)"
    by (simp add: select_jobCols scanJob_def Scan_def job_columns_def into_def zero_job_def)
  show "\<exists>e. scanJob tt vs = Inl e" if "length vs \<noteq> length jobCols"
    using that by (simp add: scanJob_def Scan_def jobCols_def)
  fix i :: nat assume "i < 9"
  then have "i \<in> {0, 1, 2, 3, 4, 5, 6, 7, 8}" by auto
  then show "\<exists>e. scanJob tt ((map snd (job_columns j))[i := SNull]) = Inl e"
    by (auto simp: scanJob_def Scan_def job_columns_def into_def zero_job_def)
qed

theorem scan_reads_back_witness:
  "scanJob (\<lambda>_. []) [] \<noteq> Inr zero_job \<and>
   map_option (scanJob (\<lambda>_. [])) (select_cols jobCols (zero_job\<lparr>WorkerID := Some ''w''\<rparr>)) =
     Some (Inr (zero_job\<lparr>WorkerID := Some ''w''\<rparr>))"
proof -
  have "length ([] :: sqlval list) \<noteq> length jobCols" by (simp add: jobCols_def)
  with scan_reads_back [of "\<lambda>_. []" "zero_job\<lparr>WorkerID := Some ''w''\<rparr>" "[]"] show ?thesis by auto
qed

end
