(* ===== verification/Tx_Interleave.thy ===== *)
theory Tx_Interleave
  imports History Store_Reap
begin

text \<open>
  Transactions that overlap. The store's methods with more than one statement in a transaction (\<open>Claim\<close>, \<open>Complete\<close>,
  \<open>Fail\<close>, \<open>ReapExpiredLeases\<close>) are taken apart: the statement that reads and locks job rows is one step, the commit is a
  later one, and any number of other connections take steps in between. What the rest of the development assumes of one
  call (its transaction acts at once, on rows nobody else holds) is proved here of the row locks: \<open>FOR UPDATE SKIP LOCKED\<close> passes
  over rows that are held, and every other write to a held row waits.
\<close>

section \<open>Connections and row locks\<close>

text \<open>
  A transaction that has locked its job rows and not yet committed, with the rows as it read them. The worker row it
  writes as well is taken at the commit: a lock on it only delays others further.
\<close>

datatype tx =
  ClaimTx session worker_id duration Job
| ReportTx session "Job \<Rightarrow> Job" job_id worker_id Job
| ReapTx session int "Job list"

fun tx_rows :: "tx \<Rightarrow> Job list" where
  "tx_rows (ClaimTx s w lease j) = [j]"
| "tx_rows (ReportTx s upd i w j) = [j]"
| "tx_rows (ReapTx s batch es) = es"

text \<open>What the commit makes visible: the new versions of the locked rows, and the worker rows.\<close>

fun tx_commit :: "BackoffConfig \<Rightarrow> tx \<Rightarrow> db \<Rightarrow> db" where
  "tx_commit cfg (ClaimTx s w lease j) d =
     d\<lparr>jobs := update_where (\<lambda>r. ID r = ID j) (\<lambda>_. claim_set s w lease j) (jobs d),
       workers := update_where (\<lambda>r. WID r = w) (claim_worker_set s (ID j)) (workers d)\<rparr>"
| "tx_commit cfg (ReportTx s upd i w j) d =
     d\<lparr>jobs := update_where (\<lambda>r. ID r = ID j) (\<lambda>_. upd j) (jobs d),
       workers := update_where (\<lambda>r. WID r = w) (done_worker_set s) (workers d)\<rparr>"
| "tx_commit cfg (ReapTx s batch es) d = foldl (\<lambda>d e. reap_worker e (reap_job s cfg e d)) d es"

text \<open>The committed tables, the transaction open on each connection, and the claims acknowledged so far.\<close>

record cluster =
  committed :: db
  flight :: "nat \<rightharpoonup> tx"
  served :: "Job list"

definition start :: "db \<Rightarrow> cluster" where
  "start d = \<lparr>committed = d, flight = Map.empty, served = []\<rparr>"

definition held :: "(nat \<rightharpoonup> tx) \<Rightarrow> job_id set" where
  "held fl = (\<Union>t \<in> ran fl. ID ` set (tx_rows t))"

text \<open>
  The job a commit hands to the client: that of a claim whose acknowledgement arrives.
\<close>

fun handed :: "bool \<Rightarrow> tx \<Rightarrow> Job list" where
  "handed acked (ClaimTx s w lease j) = (if acked then [claim_set s w lease j] else [])"
| "handed acked _ = []"

text \<open>The updates of the two reports.\<close>

inductive report_update :: "session \<Rightarrow> worker_id \<Rightarrow> (Job \<Rightarrow> Job) \<Rightarrow> bool" for s w where
  completion: "report_update s w (complete_set s w res)"
| failure: "report_update s w (fail_set s w res delay)"

section \<open>Steps\<close>

text \<open>
  \<^item> \<open>lock_claim\<close>, \<open>lock_reap\<close>: the first statement, passing over held rows;
  \<^item> \<open>lock_report\<close>: the guarded UPDATE, which waits while the row is held;
  \<^item> \<open>commit\<close>: a claim commits only with a registered worker; \<open>acked\<close> says whether the acknowledgement arrives;
  \<^item> \<open>rollback\<close>: a fault, an unknown worker, a deadlock broken by the database;
  \<^item> \<open>call\<close>: a whole call of another connection (all of those with a single statement, too), which waits for held rows.
\<close>

inductive tx_step :: "BackoffConfig \<Rightarrow> cluster \<Rightarrow> cluster \<Rightarrow> bool" for cfg where
  lock_claim: "flight c n = None \<Longrightarrow> claim_pick (s\<lparr>locked := held (flight c)\<rparr>) (committed c) = Some j \<Longrightarrow>
     tx_step cfg c (c\<lparr>flight := (flight c)(n \<mapsto> ClaimTx s w lease j)\<rparr>)"
| lock_report: "flight c n = None \<Longrightarrow> i \<notin> held (flight c) \<Longrightarrow> report_update s w upd \<Longrightarrow>
     find (owned i w) (jobs (committed c)) = Some j \<Longrightarrow>
     tx_step cfg c (c\<lparr>flight := (flight c)(n \<mapsto> ReportTx s upd i w j)\<rparr>)"
| lock_reap: "flight c n = None \<Longrightarrow>
     tx_step cfg c (c\<lparr>flight := (flight c)(n \<mapsto>
       ReapTx s batch (reap_select (s\<lparr>locked := held (flight c)\<rparr>) (eff_batch batch) (committed c)))\<rparr>)"
| commit: "flight c n = Some t \<Longrightarrow>
     (\<And>s w lease j. t = ClaimTx s w lease j \<Longrightarrow> w \<in> WID ` set (workers (committed c))) \<Longrightarrow>
     tx_step cfg c (c\<lparr>committed := tx_commit cfg t (committed c), flight := (flight c)(n := None),
                      served := served c @ handed acked t\<rparr>)"
| rollback: "flight c n = Some t \<Longrightarrow> tx_step cfg c (c\<lparr>flight := (flight c)(n := None)\<rparr>)"
| call: "session_ok s \<Longrightarrow> exec cfg op s (committed c) = (out, d') \<Longrightarrow>
     (\<forall>j \<in> set (jobs (committed c)). ID j \<in> held (flight c) \<longrightarrow> j \<in> set (jobs d')) \<Longrightarrow>
     tx_step cfg c (c\<lparr>committed := d', served := served c @ out\<rparr>)"

section \<open>The locking invariant\<close>

text \<open>What an open transaction may rely on: its rows are still as it read them.\<close>

fun tx_ok :: "tx \<Rightarrow> bool" where
  "tx_ok (ClaimTx s w lease j) \<longleftrightarrow> claimable s j"
| "tx_ok (ReportTx s upd i w j) \<longleftrightarrow> owned i w j \<and> report_update s w upd"
| "tx_ok (ReapTx s batch es) \<longleftrightarrow>
     int (length es) \<le> eff_batch batch \<and> distinct (map ID es) \<and> (\<forall>e \<in> set es. expired s e)"

definition locks_ok :: "cluster \<Rightarrow> bool" where
  "locks_ok c \<longleftrightarrow>
     (\<forall>n t. flight c n = Some t \<longrightarrow> tx_ok t \<and> set (tx_rows t) \<subseteq> set (jobs (committed c))) \<and>
     (\<forall>n m t u. flight c n = Some t \<longrightarrow> flight c m = Some u \<longrightarrow> n \<noteq> m \<longrightarrow>
        ID ` set (tx_rows t) \<inter> ID ` set (tx_rows u) = {})"

text \<open>What is known of the claims served: each has an attempt its row has reached, and no two the same.\<close>

definition served_ok :: "cluster \<Rightarrow> bool" where
  "served_ok c \<longleftrightarrow>
     distinct (map (\<lambda>j. (ID j, Attempts j)) (served c)) \<and>
     (\<forall>k \<in> set (served c). Status k = StatusRunning \<and> job_ok k \<and>
        (\<exists>r \<in> set (jobs (committed c)). ID r = ID k \<and> Attempts k \<le> Attempts r \<and> MaxAttempts r = MaxAttempts k))"

lemma heldI: "fl n = Some t \<Longrightarrow> j \<in> set (tx_rows t) \<Longrightarrow> ID j \<in> held fl"
  by (auto simp: held_def ran_def)

lemma flight_row:
  "locks_ok c \<Longrightarrow> flight c n = Some t \<Longrightarrow> j \<in> set (tx_rows t) \<Longrightarrow> j \<in> set (jobs (committed c))"
  by (auto simp: locks_ok_def)

text \<open>A new transaction whose rows nobody holds keeps the invariant.\<close>

lemma locks_ok_lock:
  assumes "locks_ok c" "flight c n = None" "tx_ok t" "set (tx_rows t) \<subseteq> set (jobs (committed c))"
    "ID ` set (tx_rows t) \<inter> held (flight c) = {}"
  shows "locks_ok (c\<lparr>flight := (flight c)(n \<mapsto> t)\<rparr>)"
  unfolding locks_ok_def
proof (intro conjI allI impI)
  fix m u assume "flight (c\<lparr>flight := (flight c)(n \<mapsto> t)\<rparr>) m = Some u"
  then show "tx_ok u" "set (tx_rows u) \<subseteq> set (jobs (committed (c\<lparr>flight := (flight c)(n \<mapsto> t)\<rparr>)))"
    using assms(1,3,4) by (auto simp: locks_ok_def split: if_splits)
next
  fix m k u v
  assume h: "flight (c\<lparr>flight := (flight c)(n \<mapsto> t)\<rparr>) m = Some u" "flight (c\<lparr>flight := (flight c)(n \<mapsto> t)\<rparr>) k = Some v"
    "m \<noteq> k"
  have apart: "ID ` set (tx_rows t) \<inter> ID ` set (tx_rows x) = {}" if "flight c l = Some x" for l x
    using assms(5) heldI [of "flight c" l x] that by auto
  show "ID ` set (tx_rows u) \<inter> ID ` set (tx_rows v) = {}"
    using h assms(1) apart unfolding locks_ok_def by (auto split: if_splits)
qed

text \<open>A write that leaves the rows of the remaining transactions alone keeps it, too.\<close>

lemma locks_ok_write:
  assumes "locks_ok c" "fl \<subseteq>\<^sub>m flight c"
    "\<And>m u j. fl m = Some u \<Longrightarrow> j \<in> set (tx_rows u) \<Longrightarrow> j \<in> set (jobs d')"
  shows "locks_ok (c\<lparr>committed := d', flight := fl, served := out\<rparr>)"
proof -
  have sub: "flight c m = Some u" if "fl m = Some u" for m u
    using assms(2) that by (auto simp: map_le_def dom_def)
  have old: "tx_ok u" if "fl m = Some u" for m u
    using assms(1) sub [OF that] by (auto simp: locks_ok_def)
  have "ID ` set (tx_rows u) \<inter> ID ` set (tx_rows v) = {}" if "fl m = Some u" "fl k = Some v" "m \<noteq> k" for m k u v
    using assms(1) sub [OF that(1)] sub [OF that(2)] that(3) unfolding locks_ok_def by blast
  with old assms(3) show ?thesis unfolding locks_ok_def by auto
qed

section \<open>A commit is the whole transaction at once\<close>

text \<open>
  At its commit a transaction does what the store's own body does when it is run then and there, with every row but the
  transaction's own locked by somebody else.
\<close>

definition only_rows :: "session \<Rightarrow> tx \<Rightarrow> session" where
  "only_rows s t = s\<lparr>locked := - (ID ` set (tx_rows t))\<rparr>"

lemma only_rows_simps [simp]:
  "now (only_rows s t) = now s" "fault (only_rows s t) = fault s" "interval (only_rows s t) = interval s"
  "bind_ok (only_rows s t) xs = bind_ok s xs" "no_faults (only_rows s t) = no_faults s"
  "text_ok (only_rows s t) = text_ok s" "claimable (only_rows s t) = claimable s" "expired (only_rows s t) = expired s"
  "claim_set (only_rows s t) = claim_set s" "claim_worker_set (only_rows s t) = claim_worker_set s"
  "reap_set (only_rows s t) = reap_set s" "locked (only_rows s t) = - (ID ` set (tx_rows t))"
  by (simp_all add: only_rows_def bind_ok_def no_faults_def fun_eq_iff claimable_def expired_def claim_set_def
      claim_worker_set_def reap_set_def split: option.split)

lemma reap_job_only_rows [simp]: "reap_job (only_rows s t) cfg e d = reap_job s cfg e d"
  by (simp add: reap_job_def)

lemma update_own_row:
  assumes "jobs_inv d" "j \<in> set (jobs d)" "\<And>r. r \<in> set (jobs d) \<Longrightarrow> P r \<longleftrightarrow> ID r = ID j" "f j = y"
  shows "update_where P f (jobs d) = update_where (\<lambda>r. ID r = ID j) (\<lambda>_. y) (jobs d)"
  using assms jobs_inv_unique [OF assms(1) _ assms(2)] by (intro update_where_cong) auto

lemma claim_pick_own:
  assumes "jobs_inv d" "j \<in> set (jobs d)" "claimable s j"
  shows "claim_pick (only_rows s (ClaimTx s w lease j)) d = Some j"
proof -
  have "filter (\<lambda>r. claimable s r \<and> ID r = ID j) (jobs d) = [j]"
    using filter_key_single [of ID "jobs d" j] assms jobs_inv_unique [OF assms(1) _ assms(2)]
    by (subst filter_cong [OF refl, of _ _ "\<lambda>r. ID r = ID j"]) (auto simp: jobs_inv_def)
  then show ?thesis by (simp add: claim_pick_def)
qed

lemma claim_commit_eq:
  assumes "jobs_inv d" "j \<in> set (jobs d)"
  shows "tx_commit cfg (ClaimTx s w lease j) d = claimed_db s w lease j d"
  using update_own_row [OF assms, of "\<lambda>r. ID r = ID j" "claim_set s w lease"] by (simp add: claimed_db_def)

lemma report_commit_eq:
  assumes "jobs_inv d" "j \<in> set (jobs d)" "owned i w j"
  shows "tx_commit cfg (ReportTx s upd i w j) d = reported_db s upd i w d"
proof -
  have "owned i w r \<longleftrightarrow> ID r = ID j" if "r \<in> set (jobs d)" for r
    using jobs_inv_unique [OF assms(1) that assms(2)] assms(3) by (auto simp: owned_def)
  from update_own_row [OF assms(1,2) this refl] show ?thesis by (simp add: reported_db_def)
qed

subsection \<open>The reaper's commit\<close>

lemma reap_loop_foldl:
  "no_faults s \<Longrightarrow> (\<And>e. e \<in> set es \<Longrightarrow> text_ok s (reap_msg (holder e))) \<Longrightarrow>
   reap_loop s cfg es out d = (out @ map reaped_of es, None, tx_commit cfg (ReapTx s batch es) d)"
  by (induction es arbitrary: out d) (auto simp: bind_ok_def)

text \<open>The order in which the rows are taken does not matter.\<close>

lemma reap_commit_jobs:
  assumes "distinct (map ID (jobs d))" "set es \<subseteq> set (jobs d)" "distinct (map ID es)" "\<forall>e \<in> set es. Status e = StatusRunning"
  shows "jobs (tx_commit cfg (ReapTx s batch es) d) = map (\<lambda>r. if r \<in> set es then reaped_row s cfg r else r) (jobs d)"
  using assms
proof (induction es arbitrary: d)
  case Nil
  then show ?case by simp
next
  case (Cons e es)
  let ?d = "reap_worker e (reap_job s cfg e d)"
  have jobs: "jobs ?d = map (\<lambda>r. if r = e then reaped_row s cfg e else r) (jobs d)"
    using Cons.prems by (intro reap_one_jobs) auto
  have ne: "ID x \<noteq> ID e" if "x \<in> set es" for x
    using Cons.prems(3) that by (auto simp: image_iff)
  have "map ID (jobs ?d) = map ID (jobs d)" unfolding jobs by simp
  moreover have "set es \<subseteq> set (jobs ?d)" using Cons.prems(2) ne by (auto intro!: reap_one_other_rows)
  ultimately have "jobs (tx_commit cfg (ReapTx s batch es) ?d) =
      map (\<lambda>r. if r \<in> set es then reaped_row s cfg r else r) (jobs ?d)"
    using Cons.prems by (intro Cons.IH) auto
  moreover have "reaped_row s cfg e \<notin> set es" "e \<notin> set es"
    using ne [of "reaped_row s cfg e"] ne [of e] by auto
  ultimately show ?case unfolding jobs by auto
qed

definition released :: "Job list \<Rightarrow> worker_row \<Rightarrow> bool" where
  "released es r \<longleftrightarrow> (\<exists>e \<in> set es. holder e \<noteq> [] \<and> WID r = holder e \<and> CurrentJobID r = Some (ID e))"

lemma reap_turn_seq: "jobs_id_seq (reap_worker e (reap_job s cfg e d)) = jobs_id_seq d"
  by (simp add: reap_worker_def reap_job_def)

lemma reap_commit_rest:
  "workers (tx_commit cfg (ReapTx s batch es) d) = update_where (released es) (\<lambda>r. r\<lparr>CurrentJobID := None\<rparr>) (workers d)"
  "jobs_id_seq (tx_commit cfg (ReapTx s batch es) d) = jobs_id_seq d"
proof (induction es arbitrary: d)
  case Nil
  case 1
  show ?case by (simp add: released_def update_where_def)
  case 2
  show ?case by simp
next
  case (Cons e es)
  case 1
  show ?case
    using Cons.IH(1) [of "reap_worker e (reap_job s cfg e d)"]
    by (auto simp: reap_worker_def reap_job_def released_def update_where_def)
  case 2
  show ?case using Cons.IH(2) [of "reap_worker e (reap_job s cfg e d)"] by (simp add: reap_turn_seq)
qed

lemma reap_commit_set:
  assumes "jobs_inv d" "set es \<subseteq> set (jobs d)" "distinct (map ID es)" "\<forall>e \<in> set es. Status e = StatusRunning"
    "distinct (map ID es')" "set es' = set es"
  shows "tx_commit cfg (ReapTx s batch es') d = tx_commit cfg (ReapTx s batch es) d"
proof -
  have ids: "distinct (map ID (jobs d))" using assms(1) by (simp add: jobs_inv_def)
  have "jobs (tx_commit cfg (ReapTx s batch es') d) = jobs (tx_commit cfg (ReapTx s batch es) d)"
    using assms by (simp only: reap_commit_jobs [OF ids])
  moreover have "released es' = released es" using assms(6) by (simp add: released_def fun_eq_iff)
  ultimately show ?thesis
    by (intro db.equality) (simp_all add: reap_commit_rest del: tx_commit.simps)
qed

text \<open>With every other row locked the SELECT finds the transaction's rows again.\<close>

lemma reap_select_own:
  assumes "jobs_inv d" "set es \<subseteq> set (jobs d)" "tx_ok (ReapTx s batch es)"
  shows "set (reap_select (only_rows s (ReapTx s batch es)) (eff_batch batch) d) = set es"
proof -
  let ?xs = "filter (\<lambda>j. expired s j \<and> ID j \<in> ID ` set es) (jobs d)"
  have xs: "set ?xs = set es"
  proof
    show "set es \<subseteq> set ?xs" using assms(2,3) by auto
    show "set ?xs \<subseteq> set es"
    proof
      fix r assume "r \<in> set ?xs"
      then obtain e where e: "e \<in> set es" "ID r = ID e" "r \<in> set (jobs d)" by auto
      with assms(2) have "r = e" by (intro jobs_inv_unique [OF assms(1)]) auto
      with e(1) show "r \<in> set es" by simp
    qed
  qed
  have "distinct ?xs" using assms(1) by (auto simp: jobs_inv_def distinct_map)
  then have "length ?xs = card (set es)" using distinct_card [of ?xs] xs by simp
  also have "\<dots> = length es" using assms(3) by (auto simp: distinct_map distinct_card)
  finally have "nat (eff_batch batch) \<ge> length (sort_key lease_key ?xs)" using assms(3) by auto
  then show ?thesis using xs by (simp add: reap_select_def)
qed

lemma guar_reap_commit:
  assumes "db_inv d" "set es \<subseteq> set (jobs d)" "distinct (map ID es)" "\<forall>e \<in> set es. Status e = StatusRunning"
  shows "guar d (tx_commit cfg (ReapTx s batch es) d)"
  using assms
proof (induction es arbitrary: d)
  case Nil
  then show ?case by (simp add: guar_refl)
next
  case (Cons e es)
  let ?d = "reap_worker e (reap_job s cfg e d)"
  have one: "guar d ?d" using Cons.prems by (intro guar_reap_one) auto
  have "ID x \<noteq> ID e" if "x \<in> set es" for x
    using Cons.prems(3) that by (auto simp: image_iff)
  then have "set es \<subseteq> set (jobs ?d)" using Cons.prems(2) by (auto intro!: reap_one_other_rows)
  then have "guar ?d (tx_commit cfg (ReapTx s batch es) ?d)"
    using Cons.prems guar_inv [OF one] by (intro Cons.IH) auto
  with one show ?case by (auto intro: guar_trans)
qed

lemma report_update_step: "report_update s w upd \<Longrightarrow> owned i w j \<Longrightarrow> job_step j (upd j)"
  by (erule report_update.cases) (auto intro: complete_set_step fail_set_step)

lemma expired_running: "expired s j \<Longrightarrow> Status j = StatusRunning"
  by (simp add: expired_def)

text \<open>A commit keeps the table invariant and moves its rows along the state machine; it leaves all other rows alone.\<close>

lemma commit_guar:
  assumes "db_inv d" "tx_ok t" "set (tx_rows t) \<subseteq> set (jobs d)"
  shows "guar d (tx_commit cfg t d)"
proof -
  have ji: "jobs_inv d" using assms(1) by (simp add: db_inv_def)
  show ?thesis
  proof (cases t)
    case (ClaimTx s w lease j)
    then have "claim_pick (only_rows s t) d = Some j" using assms claim_pick_own [OF ji] by simp
    from guar_claimed_db [OF assms(1) this, of w lease] show ?thesis
      using assms(3) claim_commit_eq [OF ji] ClaimTx by (simp add: claimed_db_def)
  next
    case (ReportTx s upd i w j)
    then show ?thesis
      using assms report_commit_eq [OF ji] report_update_step by (auto intro!: guar_reported_db simp del: tx_commit.simps)
  next
    case (ReapTx s batch es)
    then show ?thesis
      using assms expired_running by (auto intro!: guar_reap_commit simp del: tx_commit.simps)
  qed
qed

lemma commit_other_rows:
  "r \<in> set (jobs d) \<Longrightarrow> ID r \<notin> ID ` set (tx_rows t) \<Longrightarrow> r \<in> set (jobs (tx_commit cfg t d))"
proof (cases t)
  case (ReapTx s batch es)
  assume "r \<in> set (jobs d)" "ID r \<notin> ID ` set (tx_rows t)"
  then have "r \<in> set (jobs (tx_commit cfg (ReapTx s batch es) d))"
    unfolding ReapTx by (induction es arbitrary: d) (auto intro: reap_one_other_rows)
  then show ?thesis using ReapTx by simp
qed (auto simp: set_update_where)

lemma claim_commit_row:
  assumes "j \<in> set (jobs d)"
  shows "claim_set s w lease j \<in> set (jobs (tx_commit cfg (ClaimTx s w lease j) d))"
  using assms by (auto simp: set_update_where)

section \<open>Every step keeps the invariants\<close>

definition cluster_ok :: "db \<Rightarrow> cluster \<Rightarrow> bool" where
  "cluster_ok d0 c \<longleftrightarrow> guar d0 (committed c) \<and> locks_ok c \<and> served_ok c"

lemma cluster_ok_inv: "cluster_ok d0 c \<Longrightarrow> db_inv (committed c)"
  by (auto simp: cluster_ok_def dest: guar_inv)

lemma cluster_ok_start: "db_inv d \<Longrightarrow> cluster_ok d (start d)"
  by (simp add: cluster_ok_def start_def locks_ok_def served_ok_def guar_refl)

text \<open>Claims served earlier stay behind the rows as these evolve.\<close>

lemma served_ok_evolve:
  assumes "served_ok c" "guar (committed c) d'"
  shows "served_ok (c\<lparr>committed := d', flight := fl\<rparr>)"
proof -
  have "\<exists>r \<in> set (jobs d'). ID r = ID k \<and> Attempts k \<le> Attempts r \<and> MaxAttempts r = MaxAttempts k"
    if k: "k \<in> set (served c)" for k
  proof -
    obtain r where r: "r \<in> set (jobs (committed c))" "ID r = ID k" "Attempts k \<le> Attempts r" "MaxAttempts r = MaxAttempts k"
      using assms(1) k by (auto simp: served_ok_def)
    obtain r' where "r' \<in> set (jobs d')" "ID r' = ID r" "Attempts r \<le> Attempts r'" "MaxAttempts r' = MaxAttempts r"
      using evolved_attempts [OF assms(2) r(1)] .
    with r show ?thesis by (intro bexI [of _ r']) auto
  qed
  with assms(1) show ?thesis by (auto simp: served_ok_def)
qed

text \<open>A job handed out now, with one more attempt than its row had, is new among those served.\<close>

lemma served_ok_hand:
  assumes "served_ok c" "guar (committed c) d'" "j' \<in> set (jobs d')" "Status j' = StatusRunning"
    "\<And>r. r \<in> set (jobs (committed c)) \<Longrightarrow> ID r = ID j' \<Longrightarrow> Attempts r < Attempts j'"
  shows "served_ok (c\<lparr>committed := d', flight := fl, served := served c @ [j']\<rparr>)"
proof -
  have "(ID j', Attempts j') \<notin> (\<lambda>k. (ID k, Attempts k)) ` set (served c)"
    using assms(1,5) by (fastforce simp: served_ok_def)
  moreover have "job_ok j'" using guar_inv [OF assms(2)] assms(3) by (auto simp: db_inv_def intro: jobs_invD(3))
  ultimately show ?thesis
    using served_ok_evolve [OF assms(1,2), of fl] assms(3,4) by (auto simp: served_ok_def)
qed

lemma commit_keeps:
  assumes ok: "cluster_ok d0 c" and t: "flight c n = Some t"
  shows "cluster_ok d0 (c\<lparr>committed := tx_commit cfg t (committed c), flight := (flight c)(n := None),
    served := served c @ handed acked t\<rparr>)"
proof -
  let ?d = "committed c" and ?d' = "tx_commit cfg t (committed c)"
  have inv: "db_inv ?d" and l: "locks_ok c" and s: "served_ok c" and g0: "guar d0 ?d"
    using ok cluster_ok_inv by (auto simp: cluster_ok_def)
  have rows: "tx_ok t" "set (tx_rows t) \<subseteq> set (jobs ?d)" using l t by (auto simp: locks_ok_def)
  have g: "guar ?d ?d'" using commit_guar [OF inv rows] .
  have "j \<in> set (jobs ?d')" if "((flight c)(n := None)) m = Some u" "j \<in> set (tx_rows u)" for m u j
  proof -
    have u: "flight c m = Some u" "m \<noteq> n" using that(1) by (auto split: if_splits)
    then have "ID ` set (tx_rows u) \<inter> ID ` set (tx_rows t) = {}" using l t unfolding locks_ok_def by blast
    then show ?thesis using flight_row [OF l u(1) that(2)] that(2) by (intro commit_other_rows) auto
  qed
  then have "locks_ok (c\<lparr>committed := ?d', flight := (flight c)(n := None), served := served c @ handed acked t\<rparr>)"
    by (intro locks_ok_write [OF l]) (auto simp: map_le_def)
  moreover have "served_ok (c\<lparr>committed := ?d', flight := (flight c)(n := None), served := served c @ handed acked t\<rparr>)"
  proof (cases "handed acked t")
    case Nil
    then show ?thesis using served_ok_evolve [OF s g, of "(flight c)(n := None)"] by (simp add: served_ok_def)
  next
    case (Cons a as)
    then obtain se w lease j where tj: "t = ClaimTx se w lease j" and h: "handed acked t = [claim_set se w lease j]"
      by (cases t) (auto split: if_splits)
    have j: "j \<in> set (jobs ?d)" using rows tj by simp
    have "Attempts r < Attempts (claim_set se w lease j)" if "r \<in> set (jobs ?d)" "ID r = ID (claim_set se w lease j)" for r
      using jobs_inv_unique [OF _ that(1) j] inv that(2) by (auto simp: claim_set_def db_inv_def)
    with served_ok_hand [OF s g, of "claim_set se w lease j"] claim_commit_row [OF j] show ?thesis
      unfolding h by (auto simp: tj claim_set_def simp del: tx_commit.simps)
  qed
  ultimately show ?thesis using guar_trans [OF g0 g] by (simp add: cluster_ok_def)
qed

lemma call_keeps:
  assumes ok: "cluster_ok d0 c" and s: "session_ok s" and e: "exec cfg op s (committed c) = (out, d')"
    and waits: "\<forall>j \<in> set (jobs (committed c)). ID j \<in> held (flight c) \<longrightarrow> j \<in> set (jobs d')"
  shows "cluster_ok d0 (c\<lparr>committed := d', served := served c @ out\<rparr>)"
proof -
  have inv: "db_inv (committed c)" and l: "locks_ok c" and so: "served_ok c" and g0: "guar d0 (committed c)"
    using ok cluster_ok_inv by (auto simp: cluster_ok_def)
  have g: "guar (committed c) d'" using mExec.keeps [OF s inv, of cfg op] e by simp
  have "locks_ok (c\<lparr>committed := d', flight := flight c, served := served c @ out\<rparr>)"
    using waits heldI [of "flight c"] flight_row [OF l] by (intro locks_ok_write [OF l]) auto
  moreover have "served_ok (c\<lparr>committed := d', flight := flight c, served := served c @ out\<rparr>)"
  proof (cases out)
    case Nil
    then show ?thesis using served_ok_evolve [OF so g, of "flight c"] by simp
  next
    case (Cons j js)
    then have "j \<in> set (fst (exec cfg op s (committed c)))" using e by simp
    note h = exec_handed_out [OF inv this]
    have out: "out = [j]" and j: "j \<in> set (jobs d')" using h(1,2) e by simp_all
    show ?thesis unfolding out by (rule served_ok_hand [OF so g j h(3,4)])
  qed
  ultimately show ?thesis using guar_trans [OF g0 g] by (simp add: cluster_ok_def)
qed

lemma locking_keeps:
  assumes "cluster_ok d0 c" "flight c n = None" "tx_ok t" "set (tx_rows t) \<subseteq> set (jobs (committed c))"
    "ID ` set (tx_rows t) \<inter> held (flight c) = {}"
  shows "cluster_ok d0 (c\<lparr>flight := (flight c)(n \<mapsto> t)\<rparr>)"
  using assms locks_ok_lock [of c n t] by (auto simp: cluster_ok_def served_ok_def)

lemma step_keeps: "tx_step cfg c c' \<Longrightarrow> cluster_ok d0 c \<Longrightarrow> cluster_ok d0 c'"
proof (induction rule: tx_step.induct)
  case (lock_claim c n s j w lease)
  note p = claim_pick_Some [OF lock_claim(2)]
  from lock_claim p show ?case by (intro locking_keeps) (auto simp: claimable_def)
next
  case (lock_report c n i s w upd j)
  then have "j \<in> set (jobs (committed c))" "owned i w j" by (auto dest: find_ownedD)
  with lock_report show ?case by (intro locking_keeps) (auto simp: owned_def)
next
  case (lock_reap c n s batch)
  let ?s = "s\<lparr>locked := held (flight c)\<rparr>"
  have ji: "jobs_inv (committed c)" using cluster_ok_inv [OF lock_reap.prems] by (simp add: db_inv_def)
  note sel = reap_select_props [OF ji, of ?s "eff_batch batch"]
  have "expired ?s = expired s" by (simp add: expired_def fun_eq_iff split: option.split)
  then have "tx_ok (ReapTx s batch (reap_select ?s (eff_batch batch) (committed c)))"
    using sel(2,3) reap_select_bounds(2) [of ?s batch] by simp
  with lock_reap sel(1) show ?case by (intro locking_keeps) (auto dest: reap_select_bounds(1))
next
  case (commit c n t acked)
  then show ?case by (intro commit_keeps)
next
  case (rollback c n t)
  then have "locks_ok c" by (simp add: cluster_ok_def)
  then have "locks_ok (c\<lparr>committed := committed c, flight := (flight c)(n := None), served := served c\<rparr>)"
    by (rule locks_ok_write) (auto simp: map_le_def intro: flight_row [OF \<open>locks_ok c\<close>] split: if_splits)
  with rollback show ?case by (auto simp: cluster_ok_def served_ok_def)
next
  case (call s op c out d')
  then show ?case by (intro call_keeps)
qed

lemma steps_keep: "(tx_step cfg)\<^sup>*\<^sup>* c c' \<Longrightarrow> cluster_ok d0 c \<Longrightarrow> cluster_ok d0 c'"
  by (induction rule: rtranclp_induct) (auto intro: step_keeps)

lemma reachable_ok: "(tx_step cfg)\<^sup>*\<^sup>* (start d) c \<Longrightarrow> db_inv d \<Longrightarrow> cluster_ok d c"
  by (rule steps_keep [OF _ cluster_ok_start])

section \<open>Properties\<close>

lemma served_within_budget:
  "served_ok c \<Longrightarrow> jobs_inv (committed c) \<Longrightarrow> j \<in> set (served c) \<Longrightarrow>
   int (length (filter (\<lambda>k. ID k = ID j) (served c))) \<le> MaxAttempts j"
  by (rule dispatch_budget [of _ "jobs (committed c)"]) (auto simp: served_ok_def jobs_inv_def)

text \<open>
  C2. Row locks suffice: however the statements of concurrent claims, reports and sweeps interleave with each other and with every
  other call, with rollbacks and lost acknowledgements anywhere, no row is held by two transactions, the
  committed tables keep their invariant, no attempt of a job is handed out twice, and no job more often than its budget
  allows.
\<close>

theorem interleaved_no_double_dispatch:
  assumes "(tx_step cfg)\<^sup>*\<^sup>* (start d) c" "db_inv d"
  shows "distinct (map (\<lambda>j. (ID j, Attempts j)) (served c)) \<and>
    (\<forall>j \<in> set (served c). int (length (filter (\<lambda>k. ID k = ID j) (served c))) \<le> MaxAttempts j) \<and>
    (\<forall>n m t u. flight c n = Some t \<and> flight c m = Some u \<and> n \<noteq> m \<longrightarrow>
       ID ` set (tx_rows t) \<inter> ID ` set (tx_rows u) = {}) \<and> db_inv (committed c)"
proof -
  note ok = reachable_ok [OF assms]
  note inv = cluster_ok_inv [OF ok]
  then have "jobs_inv (committed c)" by (simp add: db_inv_def)
  with ok inv served_within_budget [of c] show ?thesis
    unfolding cluster_ok_def served_ok_def locks_ok_def by blast
qed

text \<open>Two workers lock two jobs before either commits; the second to lock commits first.\<close>

abbreviation demo_tx2 :: tx where
  "demo_tx2 \<equiv> ClaimTx (quiet 50) ''w2'' 1000 (demo_job 2 StatusPending 0 None None)"

abbreviation demo_tx3 :: tx where
  "demo_tx3 \<equiv> ClaimTx (quiet 50) ''w1'' 1000 (demo_job 3 StatusPending 0 None None)"

definition demo_locked :: cluster where
  "demo_locked = (start demo_db)\<lparr>flight := [0 \<mapsto> demo_tx2, 1 \<mapsto> demo_tx3]\<rparr>"

definition demo_raced :: cluster where
  "demo_raced =
     \<lparr>committed = tx_commit DefaultBackoff demo_tx2 (tx_commit DefaultBackoff demo_tx3 demo_db), flight = Map.empty,
      served = handed True demo_tx3 @ handed True demo_tx2\<rparr>"

lemmas demo_pick_eval = claim_pick_def claimable_def claim_order_def held_def demo_defs

lemma demo_locks: "(tx_step cfg)\<^sup>*\<^sup>* (start demo_db) demo_locked"
proof -
  let ?c1 = "(start demo_db)\<lparr>flight := (flight (start demo_db))(0 \<mapsto> demo_tx2)\<rparr>"
  have "tx_step cfg (start demo_db) ?c1"
    by (rule tx_step.lock_claim) (simp_all add: start_def demo_pick_eval quiet_def)
  moreover have "tx_step cfg ?c1 (?c1\<lparr>flight := (flight ?c1)(1 \<mapsto> demo_tx3)\<rparr>)"
    by (rule tx_step.lock_claim) (simp_all add: start_def demo_pick_eval quiet_def)
  ultimately show ?thesis
    unfolding demo_locked_def by (auto simp: start_def intro: rtranclp.rtrancl_into_rtrancl)
qed

lemma demo_race: "(tx_step DefaultBackoff)\<^sup>*\<^sup>* (start demo_db) demo_raced"
proof -
  let ?c1 = "demo_locked\<lparr>committed := tx_commit DefaultBackoff demo_tx3 (committed demo_locked),
    flight := (flight demo_locked)(1 := None), served := served demo_locked @ handed True demo_tx3\<rparr>"
  have "tx_step DefaultBackoff demo_locked ?c1"
    by (rule tx_step.commit) (auto simp: demo_locked_def start_def demo_defs)
  moreover have "tx_step DefaultBackoff ?c1 (?c1\<lparr>committed := tx_commit DefaultBackoff demo_tx2 (committed ?c1),
      flight := (flight ?c1)(0 := None), served := served ?c1 @ handed True demo_tx2\<rparr>)" (is "tx_step _ _ ?c2")
    by (rule tx_step.commit) (auto simp: demo_locked_def start_def demo_defs)
  moreover have "?c2 = demo_raced"
    by (simp add: demo_raced_def demo_locked_def start_def fun_eq_iff del: tx_commit.simps)
  ultimately show ?thesis using demo_locks [of DefaultBackoff] by (metis rtranclp.rtrancl_into_rtrancl)
qed

theorem interleaved_no_double_dispatch_witness:
  "map (\<lambda>j. (ID j, Attempts j)) (served demo_raced) = [(3, 1), (2, 1)] \<and>
   distinct (map (\<lambda>j. (ID j, Attempts j)) (served demo_raced)) \<and> db_inv (committed demo_raced)"
proof -
  have "map (\<lambda>j. (ID j, Attempts j)) (served demo_raced) = [(3, 1), (2, 1)]"
    by (simp add: demo_raced_def claim_set_def demo_job_def)
  with interleaved_no_double_dispatch [OF demo_race demo_inv] show ?thesis by blast
qed

text \<open>What a transaction needs of the service to commit: no call fails and its values are accepted.\<close>

fun tx_works :: "string list \<Rightarrow> int option \<Rightarrow> tx \<Rightarrow> db \<Rightarrow> bool" where
  "tx_works texts code (ClaimTx s w lease j) d \<longleftrightarrow> no_faults s \<and> bind_ok s [w] \<and> w \<in> WID ` set (workers d)"
| "tx_works texts code (ReportTx s upd i w j) d \<longleftrightarrow> no_faults s \<and> bind_ok s texts \<and> exit_ok code"
| "tx_works texts code (ReapTx s batch es) d \<longleftrightarrow> no_faults s \<and> (\<forall>e \<in> set es. text_ok s (reap_msg (holder e)))"

text \<open>The store's own call or transaction, run at once on the tables \<open>d\<close>: the tables it leaves, if it succeeds.\<close>

fun tx_atomic :: "BackoffConfig \<Rightarrow> string list \<Rightarrow> int option \<Rightarrow> tx \<Rightarrow> db \<Rightarrow> db option" where
  "tx_atomic cfg texts code (ClaimTx s w lease j) d =
     (case Claim (only_rows s (ClaimTx s w lease j)) w lease d of (Inr k, d') \<Rightarrow> if k = claim_set s w lease j then Some d' else None | _ \<Rightarrow> None)"
| "tx_atomic cfg texts code (ReportTx s upd i w j) d =
     (case withTx s (report_tx s texts code upd i w) d of (Inr k, d') \<Rightarrow> if k = upd j then Some d' else None | _ \<Rightarrow> None)"
| "tx_atomic cfg texts code (ReapTx s batch es) d =
     (case ReapExpiredLeases (only_rows s (ReapTx s batch es)) cfg batch d of
        ((out, None), d') \<Rightarrow> if mset out = mset (map reaped_of es) then Some d' else None
      | _ \<Rightarrow> None)"

lemma claim_atomic:
  assumes "db_inv d" "j \<in> set (jobs d)" "claimable s j" "tx_works texts code (ClaimTx s w lease j) d"
  shows "Claim (only_rows s (ClaimTx s w lease j)) w lease d
    = (Inr (claim_set s w lease j), tx_commit cfg (ClaimTx s w lease j) d)"
proof -
  have ji: "jobs_inv d" using assms(1) by (simp add: db_inv_def)
  note pick = claim_pick_own [OF ji assms(2,3), of w lease]
  have "int4_ok (Attempts j + 1)" by (rule claim_attempts_fit [OF assms(1) pick])
  moreover have "filter (\<lambda>r. WID r = w) (workers d) \<noteq> []" using assms(4) by (auto simp: filter_empty_conv)
  ultimately have "claim_tx (only_rows s (ClaimTx s w lease j)) w lease d
      = (Inr (claim_set s w lease j), claimed_db s w lease j d)"
    using assms(4) pick by (simp add: claim_tx_def claimed_db_def Let_def no_faults_def del: tx_commit.simps)
  then show ?thesis
    using assms(4) claim_commit_eq [OF ji assms(2)] by (simp add: Claim_def withTx_no_faults del: tx_commit.simps)
qed

lemma report_atomic:
  assumes "db_inv d" "j \<in> set (jobs d)" "owned i w j" "tx_works texts code (ReportTx s upd i w j) d"
  shows "withTx s (report_tx s texts code upd i w) d = (Inr (upd j), tx_commit cfg (ReportTx s upd i w j) d)"
proof -
  have ji: "jobs_inv d" using assms(1) by (simp add: db_inv_def)
  obtain k where k: "find (owned i w) (jobs d) = Some k"
    using assms(2,3) find_NoneD [of "owned i w"] by (cases "find (owned i w) (jobs d)") auto
  then have "k = j" using find_ownedD [OF k] assms(2,3) jobs_inv_unique [OF ji] by (auto simp: owned_def)
  with k have "report_tx s texts code upd i w d = (Inr (upd j), reported_db s upd i w d)"
    using assms(4) by (simp add: report_tx_def reported_db_def Let_def no_faults_def)
  then show ?thesis
    using assms(4) report_commit_eq [OF ji assms(2,3)] by (simp add: withTx_no_faults del: tx_commit.simps)
qed

lemma reap_atomic:
  assumes "db_inv d" "set es \<subseteq> set (jobs d)" "tx_ok (ReapTx s batch es)" "tx_works texts code (ReapTx s batch es) d"
  obtains out where "ReapExpiredLeases (only_rows s (ReapTx s batch es)) cfg batch d
      = ((out, None), tx_commit cfg (ReapTx s batch es) d)" "mset out = mset (map reaped_of es)"
proof -
  let ?s = "only_rows s (ReapTx s batch es)"
  let ?sel = "reap_select ?s (eff_batch batch) d"
  have ji: "jobs_inv d" using assms(1) by (simp add: db_inv_def)
  note sel = reap_select_own [OF ji assms(2,3)]
  have ids: "distinct (map ID ?sel)" by (rule reap_select_props(2) [OF ji])
  have run: "\<forall>e \<in> set es. Status e = StatusRunning" using assms(3) expired_running by auto
  have "reap_loop ?s cfg ?sel [] d = (map reaped_of ?sel, None, tx_commit cfg (ReapTx ?s batch ?sel) d)"
    using reap_loop_foldl [of ?s ?sel cfg "[]" d batch] sel assms(4) by simp
  moreover have "tx_commit cfg (ReapTx ?s batch ?sel) d = tx_commit cfg (ReapTx s batch es) d"
    using reap_commit_set [OF ji assms(2) _ run ids sel, of cfg s batch] assms(3) by simp
  ultimately have "reap_tx ?s cfg (eff_batch batch) d = (map reaped_of ?sel, None, tx_commit cfg (ReapTx s batch es) d)"
    using assms(4) by (simp add: reap_tx_def no_faults_def del: tx_commit.simps)
  then have "ReapExpiredLeases ?s cfg batch d = ((map reaped_of ?sel, None), tx_commit cfg (ReapTx s batch es) d)"
    using assms(4)
    by (simp add: ReapExpiredLeases_def withTx_no_faults eff_batch_def [symmetric] Let_def no_faults_def del: tx_commit.simps)
  moreover have "mset ?sel = mset es"
    using sel ids assms(3) by (intro set_eq_iff_mset_eq_distinct [THEN iffD1]) (auto simp: distinct_map)
  ultimately show ?thesis using that by (metis mset_map)
qed



end
