(* ===== verification/Cli_Submit.thy ===== *)
theory Cli_Submit
  imports Cli_Props
begin

text \<open>
  Submitting a job from the command line, end to end: the arguments become a request, the request a row, and the row can be read back.
\<close>

section \<open>The request\<close>

lemma Parse_payload:
  "Parse (submitFlags g) [''--payload'', p] (submit_defaults g) = Inr ((submit_defaults g)\<lparr>fPayload := p\<rparr>, [])"
  by (subst Parse.simps)
    (simp add: parse_one_def named_flag_def submitFlags_def set_value_def StringFlag_def commonFlags_def numeral_2_eq_2)

lemma find_create_route:
  "find (route_matches (sent_request g ''POST'' [''jobs''] path b)) routes =
     Some \<lparr>verb = ''POST'', pats = [Lit ''jobs''], target = handleCreateJob\<rparr>"
  by (simp add: routes_def route_matches_def verb_matches_def sent_request_def)

lemma find_get_route:
  "find (route_matches (sent_request g ''GET'' [''jobs'', FormatInt i] path b)) routes =
     Some \<lparr>verb = ''GET'', pats = [Lit ''jobs'', Wild], target = handleGetJob\<rparr>"
  by (auto simp: routes_def route_matches_def verb_matches_def FormatInt_def sent_request_def)

lemma url_segs_jobs: "url_segs ''/jobs'' = Some [''jobs'']"
  by code_simp

lemma url_segs_get:
  assumes "0 < i"
  shows "url_segs (''/jobs/'' @ FormatInt i) = Some [''jobs'', FormatInt i]"
proof -
  have p: "path_plain (FormatInt i)" using assms path_plain_dec_nat [of "nat i"] by (simp add: FormatInt_def)
  then have tw: "takeWhile (\<lambda>c. c \<noteq> CHR ''?'' \<and> c \<noteq> CHR ''#'') (''/jobs/'' @ FormatInt i) = ''/jobs/'' @ FormatInt i"
    by (intro takeWhile_eq_all_conv [THEN iffD2]) (auto simp: path_plain_def)
  show ?thesis
    unfolding url_segs_def tw using p unescape_plain [of "FormatInt i"] by (simp add: path_plain_def ctl_byte_def)
qed

definition new_body :: "string \<Rightarrow> (string \<times> json) list" where
  "new_body p = [(''max_attempts'', JInt 3), (''payload'', JStr p), (''type'', JStr TypeShell)]"

lemma decode_create:
  assumes "carries r (new_body p)"
  shows "decode create_fields \<lparr>cType = [], cPayload = [], cMaxAttempts = 0\<rparr> r =
    Inr \<lparr>cType = TypeShell, cPayload = p, cMaxAttempts = 3\<rparr>"
  by (rule decode_carries [OF assms]) (simp add: new_body_def create_fields_def lookup_field_def int64_ok_def)

section \<open>Submitting\<close>

text \<open>A payload that arrives as it was typed: valid UTF-8, and with the rest of the request within the server's limit.\<close>

definition sendable :: "db cli \<Rightarrow> Server \<Rightarrow> string \<Rightarrow> bool" where
  "sendable g sv p \<longleftrightarrow> utf8_valid p \<and> int (object_len (codec_of g) (new_body p)) \<le> MaxRequestBytes (cfg sv)"

definition submit_text :: "Job \<Rightarrow> string" where
  "submit_text j = line ''Job submitted successfully.'' @ line (''ID: '' @ FormatInt (ID j)) @ line (''Status: '' @ status_text (Status j))"

lemma TypeShell_plain [simp]: "TrimSpace TypeShell = TypeShell" "to_valid TypeShell = TypeShell"
  by code_simp+

lemma submit_body_sent: "utf8_valid p \<Longrightarrow> submit_body ((submit_defaults g)\<lparr>fPayload := p\<rparr>) = new_body p"
  by (simp add: submit_body_def submit_defaults_def new_body_def jstr_def to_valid_id)

lemma queue_submit_creates:
  assumes "talks_to g sv s" "sendable g sv p" "ValidateNew TypeShell p 3 = None" "Create s TypeShell p 3 d = (Inr j, d')"
  shows "cli_run g [''submit'', ''--payload'', p] d = Some ((submit_text j, None), d')"
proof -
  let ?r = "(sent_request g ''POST'' [''jobs''] ''/jobs'' (Some (new_body p)))
      \<lparr>body_limit := nat (MaxRequestBytes (cfg sv)), PathValue := wild_value [Lit ''jobs''] [''jobs'']\<rparr>"
  have "carries ?r (new_body p)"
    using assms(2) by (auto simp: carries_def sent_request_def build_request_def sendable_def nat_le_iff le_nat_iff)
  then have w: "handleCreateJob sv s ?r (inner d) =
      writeJSON 201 (JobBody j) (log_event LevelInfo ''job_created'' ((inner d)\<lparr>tables := d'\<rparr>))"
    using assms(3,4) by (simp add: handleCreateJob_def decode_create Let_def)
  have a: "answered (handleCreateJob sv s ?r (inner d)) 201 (JobBody j)"
    unfolding w by (rule writeJSON_answers) simp
  have "request g (web g) (default_server g) ''POST'' ''/jobs'' (Some (new_body p)) d =
      (shown g 201 (JobBody j), tables (handleCreateJob sv s ?r (inner d)))"
    by (rule request_answered [OF assms(1) url_segs_jobs find_create_route _ a]) simp_all
  then have "request_job g (web g) (default_server g) ''POST'' ''/jobs'' (Some (new_body p)) d = (Inr j, d')"
    unfolding w by (simp add: request_job_def shown_def)
  moreover have "TrimSpace p \<noteq> []" using assms(3) by (auto simp: ValidateNew_None_iff)
  moreover have "utf8_valid p" using assms(2) by (simp add: sendable_def)
  ultimately show ?thesis
    by (simp add: cli_run_def cmdSubmit_def Parse_payload submit_body_sent) (simp add: submit_defaults_def submit_text_def)
qed

lemma queue_get_reads:
  assumes "talks_to g sv s" "0 < i" "int64_ok i" "Get s GetJob i d = Inr j"
  shows "cli_run g [''get'', FormatInt i] d = Some ((show_job g False j, None), d)"
proof -
  let ?r = "(sent_request g ''GET'' [''jobs'', FormatInt i] (''/jobs/'' @ FormatInt i) None)
      \<lparr>body_limit := nat (MaxRequestBytes (cfg sv)), PathValue := wild_value [Lit ''jobs'', Wild] [''jobs'', FormatInt i]\<rparr>"
  have "(inner d)\<lparr>tables := d\<rparr> = inner d" by (simp add: inner_def fresh_def)
  with store_call_tells [of "inner d" "\<lambda>_ w. w" "(Inr j, d)"] have "tells (handleGetJob sv s ?r (inner d)) (Inr j, d)"
    using assms(2-4) ParseInt_FormatInt [OF assms(3)]
    by (simp add: handleGetJob_def pathID_def)
  then have "request_job g (web g) (default_server g) ''GET'' (''/jobs/'' @ FormatInt i) None d = (Inr j, d)"
    using request_job_tells [OF assms(1) url_segs_get [OF assms(2)] find_get_route, of None d "(Inr j, d)"] by simp
  then show ?thesis
    using assms(2) ParseInt_FormatInt [OF assms(3)] FormatInt_positional [OF assms(2)]
    by (simp add: cli_run_def cmdGet_def Parse_positional positionalID_def)
qed

text \<open>
  C36. Round trip from the command line: \<open>queue submit --payload p\<close> against the server appends one row with exactly that payload, PENDING, with no
  attempt used and claimable at once, under a fresh id that the command prints; and \<open>queue get\<close> of that id shows exactly that row
  and changes nothing.
\<close>

theorem queue_submit_then_get:
  assumes "talks_to g sv s" "talks_to g' sv s'" "no_faults s" "no_faults s'" "db_inv d" "sendable g sv p"
    "ValidateNew TypeShell p 3 = None" "bind_ok s [TypeShell, p]" "int64_ok (jobs_id_seq d)"
  shows "\<exists>j d'. cli_run g [''submit'', ''--payload'', p] d = Some ((submit_text j, None), d') \<and>
    cli_run g' [''get'', FormatInt (ID j)] d' = Some ((show_job g' False j, None), d') \<and>
    jobs d' = jobs d @ [j] \<and> ID j \<notin> ID ` set (jobs d) \<and> Payload j = p \<and> Status j = StatusPending \<and> Attempts j = 0 \<and>
    claimable s j \<and> workers d' = workers d"
proof -
  from Create_then_Get [OF assms(5,3,4,8,7)] obtain j d' where
    c: "Create s TypeShell p 3 d = (Inr j, d')" and got: "Get s' GetJob (ID j) d' = Inr j" and
    j: "ID j \<notin> ID ` set (jobs d)" "jobs d' = jobs d @ [j]" "workers d' = workers d" "Payload j = p" "Attempts j = 0"
      "Status j = StatusPending" "claimable s j" by blast
  have "ID j = jobs_id_seq d" using c by (auto simp: Create_def autocommit_def new_job_def split: if_splits option.splits)
  moreover have "0 < jobs_id_seq d" using assms(5) by (simp add: db_inv_def jobs_inv_def)
  ultimately
  have "cli_run g' [''get'', FormatInt (ID j)] d' = Some ((show_job g' False j, None), d')"
    using queue_get_reads [OF assms(2) _ _ got] assms(9) by simp
  with queue_submit_creates [OF assms(1,6,7) c] j show ?thesis by blast
qed

theorem queue_submit_then_get_witness:
  "\<exists>j d'. cli_run demo_cli [''submit'', ''--payload'', ''echo hi''] demo_db = Some ((submit_text j, None), d') \<and>
     cli_run demo_cli [''get'', FormatInt (ID j)] d' = Some ((show_job demo_cli False j, None), d') \<and> Payload j = ''echo hi''"
proof -
  have t: "talks_to demo_cli demo_server (quiet 50)" by (simp add: talks_to_def demo_cli_def)
  have v: "ValidateNew TypeShell ''echo hi'' 3 = None" by code_simp
  have q: "sendable demo_cli demo_server ''echo hi''" by code_simp
  have "int64_ok (jobs_id_seq demo_db)" by code_simp
  with queue_submit_then_get [OF t t _ _ demo_inv q v] show ?thesis by auto
qed

end
