(* ===== verification/Bench_Cleanup.thy ===== *)
theory Bench_Cleanup
  imports Bench_Props Cli_Props
begin

text \<open>
  How the load generator leaves the queue: \<open>cancelPending\<close> lists and cancels page by page until a page is empty.
\<close>

section \<open>Single requests\<close>

lemma bench_do_answered:
  assumes "token b = AuthToken (cfg sv)" "url_segs path = Some sg"
    "find (route_matches r) routes = Some t"
    "r = (build_request \<lparr>BaseURL = server b, Token = token b\<rparr> k meth sg bdy)\<lparr>query := query_of path\<rparr>"
    "w = target t sv s (r\<lparr>body_limit := nat (MaxRequestBytes (cfg sv)), PathValue := wild_value (pats t) sg\<rparr>) (inner d)"
    "answered w st v" "st < 300"
  shows "bench_do b k (server_net sv s) meth path bdy d = (Inr (Json v), tables w)"
proof -
  have "trusts sv r" "segs r = sg" using assms(1) by (simp_all add: assms(4) trusts_def build_request_def)
  with server_net_route [OF _ assms(3) _ assms(6)] assms(5) have "server_net sv s r d = (Reply st (Json v), tables w)" by simp
  with assms(2,4,7) show ?thesis by (simp add: bench_do_def)
qed

definition pending_path :: string where
  "pending_path = ''/jobs?status=pending&limit=500''"

lemma pending_path_read:
  "url_segs pending_path = Some [''jobs'']" "ToUpper (TrimSpace (query_of pending_path ''status'')) = ''PENDING''"
  "intParam (query_of pending_path ''limit'') 100 = Inr 500" "intParam (query_of pending_path ''offset'') 0 = Inr 0"
  "ValidStatus ''PENDING''"
  by code_simp+

lemma list_pending:
  assumes "token b = AuthToken (cfg sv)" "no_faults s" "text_ok s ''PENDING''"
  shows "bench_get b k (server_net sv s) pending_path d = (Inr (Json (JobsBody (take 500 (listing ''PENDING'' d)))), d)"
proof -
  let ?r = "(build_request \<lparr>BaseURL = server b, Token = token b\<rparr> k ''GET'' [''jobs''] None)\<lparr>query := query_of pending_path\<rparr>"
  let ?q = "?r\<lparr>body_limit := nat (MaxRequestBytes (cfg sv)), PathValue := wild_value [Lit ''jobs''] [''jobs'']\<rparr>"
  have route: "find (route_matches ?r) routes = Some \<lparr>verb = ''GET'', pats = [Lit ''jobs''], target = handleListJobs\<rparr>"
    by (simp add: routes_def route_matches_def verb_matches_def)
  have w: "handleListJobs sv s ?q (inner d) = writeJSON 200 (JobsBody (take 500 (listing ''PENDING'' d))) (inner d)"
    using assms(2,3) by (simp add: handleListJobs_def pending_path_read Let_def List_jobs_def listing_def bind_ok_def)
  have a: "answered (handleListJobs sv s ?q (inner d)) 200 (JobsBody (take 500 (listing ''PENDING'' d)))"
    unfolding w by (rule writeJSON_answers) simp
  have "bench_get b k (server_net sv s) pending_path d =
      (Inr (Json (JobsBody (take 500 (listing ''PENDING'' d)))), tables (handleListJobs sv s ?q (inner d)))"
    by (rule bench_do_answered [OF assms(1) pending_path_read(1) route refl _ a]) simp_all
  then show ?thesis unfolding w by simp
qed

lemma cancel_pending_row:
  assumes "token b = AuthToken (cfg sv)" "no_faults s" "alone s" "db_inv d" "j \<in> set (jobs d)" "Status j = StatusPending"
    "0 < ID j" "int64_ok (ID j)"
  shows "bench_do b k (server_net sv s) ''POST'' (job_path (ID j) ''cancel'') None d =
    (Inr (Json (JobBody (cancel_set s j))), d\<lparr>jobs := map (\<lambda>r. if r = j then cancel_set s j else r) (jobs d)\<rparr>)"
proof -
  let ?sg = "[''jobs'', FormatInt (ID j), ''cancel'']" and ?p = "[Lit ''jobs'', Wild, Lit ''cancel'']"
  let ?r = "(build_request \<lparr>BaseURL = server b, Token = token b\<rparr> k ''POST'' ?sg None)\<lparr>query := query_of (job_path (ID j) ''cancel'')\<rparr>"
  let ?q = "?r\<lparr>body_limit := nat (MaxRequestBytes (cfg sv)), PathValue := wild_value ?p ?sg\<rparr>"
  let ?d = "d\<lparr>jobs := map (\<lambda>r. if r = j then cancel_set s j else r) (jobs d)\<rparr>"
  have route: "find (route_matches ?r) routes = Some \<lparr>verb = ''POST'', pats = ?p, target = handleCancel\<rparr>"
    by (auto simp: routes_def route_matches_def verb_matches_def FormatInt_def)
  have c: "Cancel s (ID j) d = (Inr (cancel_set s j), ?d)"
    using Cancel_outcomes [OF assms(4,2,3), of "ID j"] assms(5,6) by auto
  have "tells (handleCancel sv s ?q (inner d)) (Cancel s (ID j) d)"
    by (rule handleCancel_tells) (use assms(7,8) in auto)
  then have "answered (handleCancel sv s ?q (inner d)) 200 (JobBody (cancel_set s j))" "tables (handleCancel sv s ?q (inner d)) = ?d"
    by (auto simp: c tells_def)
  from bench_do_answered [OF assms(1) url_segs_job [OF assms(7)] route refl _ this(1)] this(2) show ?thesis by simp
qed

section \<open>The loop\<close>

text \<open>What cancelling does to the rows: some PENDING ones are CANCELED, the others are as they were.\<close>

definition cancelled_row :: "Job \<Rightarrow> Job \<Rightarrow> bool" where
  "cancelled_row j j' \<longleftrightarrow> j' = j \<or> Status j = StatusPending \<and> (\<exists>s. j' = cancel_set s j)"

lemma cancelled_row_trans: "cancelled_row a b \<Longrightarrow> cancelled_row b c \<Longrightarrow> cancelled_row a c"
  by (auto simp: cancelled_row_def cancel_set_def)

definition cancelled_only :: "db \<Rightarrow> db \<Rightarrow> bool" where
  "cancelled_only d d' \<longleftrightarrow> workers d' = workers d \<and> list_all2 cancelled_row (jobs d) (jobs d')"

lemma cancelled_only_refl [simp]: "cancelled_only d d"
  by (auto simp: cancelled_only_def cancelled_row_def intro!: list.rel_refl_strong)

lemma cancelled_only_trans: "cancelled_only d d1 \<Longrightarrow> cancelled_only d1 d2 \<Longrightarrow> cancelled_only d d2"
  unfolding cancelled_only_def by (auto intro: list_all2_trans [OF cancelled_row_trans])

definition pendings :: "db \<Rightarrow> Job list" where
  "pendings d = filter (\<lambda>j. Status j = StatusPending) (jobs d)"

text \<open>A session of a database that works and is used by nobody else, and ids the API can name.\<close>

definition cancel_session :: "session \<Rightarrow> bool" where
  "cancel_session s \<longleftrightarrow> no_faults s \<and> alone s \<and> text_ok s ''PENDING''"

definition nameable :: "db \<Rightarrow> bool" where
  "nameable d \<longleftrightarrow> (\<forall>j \<in> set (jobs d). 0 < ID j \<and> int64_ok (ID j))"

lemma cancel_step:
  fixes d s defines "d1 j \<equiv> d\<lparr>jobs := map (\<lambda>r. if r = j then cancel_set s j else r) (jobs d)\<rparr>"
  assumes "token b = AuthToken (cfg sv)" "cancel_session s" "db_inv d" "nameable d" "j \<in> set (pendings d)"
  shows "bench_do b k (server_net sv s) ''POST'' (job_path (ID j) ''cancel'') None d = (Inr (Json (JobBody (cancel_set s j))), d1 j)"
    "db_inv (d1 j)" "nameable (d1 j)" "cancelled_only d (d1 j)" "pendings (d1 j) = remove1 j (pendings d)"
proof -
  have s: "no_faults s" "alone s" using assms(3) by (simp_all add: cancel_session_def)
  have j: "j \<in> set (jobs d)" "Status j = StatusPending" "0 < ID j" "int64_ok (ID j)"
    using assms(5,6) by (auto simp: pendings_def nameable_def)
  show do: "bench_do b k (server_net sv s) ''POST'' (job_path (ID j) ''cancel'') None d =
      (Inr (Json (JobBody (cancel_set s j))), d1 j)"
    unfolding d1_def by (rule cancel_pending_row [OF assms(2) s assms(4) j])
  have c: "Cancel s (ID j) d = (Inr (cancel_set s j), d1 j)"
    using Cancel_outcomes [OF assms(4) s, of "ID j"] j(1,2) by (auto simp: d1_def)
  have "session_ok s" using s(2) by (simp add: session_ok_def)
  from guar_inv [OF guar_Cancel [OF this assms(4), of "ID j"]] c show "db_inv (d1 j)" by simp
  show "nameable (d1 j)" using assms(5) j by (auto simp: nameable_def d1_def cancel_set_def)
  show "cancelled_only d (d1 j)"
    using j(2) by (auto simp: cancelled_only_def cancelled_row_def d1_def list_all2_map2 intro!: list.rel_refl_strong)
  have "distinct (jobs d)" using assms(4) by (auto simp: db_inv_def jobs_inv_def distinct_map)
  then have "distinct (pendings d)" by (simp add: pendings_def)
  moreover have "filter (\<lambda>j. Status j = StatusPending) (map (\<lambda>r. if r = j then cancel_set s j else r) js) =
      filter (\<lambda>r. r \<noteq> j) (filter (\<lambda>j. Status j = StatusPending) js)" for js
    by (induction js) (auto simp: cancel_set_def)
  then have "pendings (d1 j) = filter (\<lambda>r. r \<noteq> j) (pendings d)" by (simp add: pendings_def d1_def)
  ultimately show "pendings (d1 j) = remove1 j (pendings d)" by (auto simp: distinct_remove1_removeAll removeAll_filter_not_eq intro!: filter_cong)
qed

lemma cancel_all_cancels:
  assumes "token b = AuthToken (cfg sv)" "cancel_session s"
  shows "db_inv d \<Longrightarrow> nameable d \<Longrightarrow> set js \<subseteq> set (pendings d) \<Longrightarrow> distinct js \<Longrightarrow>
    \<exists>d'. cancel_all b k (server_net sv s) js d = (None, d') \<and> db_inv d' \<and> nameable d' \<and> cancelled_only d d' \<and>
         length (pendings d') + length js = length (pendings d)"
proof (induction js arbitrary: d)
  case Nil
  then show ?case by auto
next
  case (Cons j js)
  let ?d = "d\<lparr>jobs := map (\<lambda>r. if r = j then cancel_set s j else r) (jobs d)\<rparr>"
  have j: "j \<in> set (pendings d)" using Cons.prems(3) by simp
  note step = cancel_step [OF assms Cons.prems(1,2) j]
  have "set js \<subseteq> set (pendings ?d)"
  proof
    fix x assume "x \<in> set js"
    with Cons.prems(3,4) have "x \<noteq> j" "x \<in> set (pendings d)" by auto
    then show "x \<in> set (pendings ?d)" unfolding step(5) by simp
  qed
  from Cons.IH [OF step(2,3) this] Cons.prems(4) obtain d' where d':
    "cancel_all b k (server_net sv s) js ?d = (None, d')" "db_inv d'" "nameable d'" "cancelled_only ?d d'"
    "length (pendings d') + length js = length (pendings ?d)" by auto
  have "length (pendings ?d) + 1 = length (pendings d)"
    unfolding step(5) using j by (simp add: length_remove1) (metis Suc_pred length_pos_if_in_set)
  with d' step(1) cancelled_only_trans [OF step(4) d'(4)] show ?case by auto
qed

text \<open>
  C33. Cleaning up ends and is complete: against a server whose database works, the loop that lists and cancels PENDING jobs returns without
  an error, however many pages there are, and leaves no PENDING job behind; every row that was not PENDING is as it was, and every row
  that was is CANCELED.
\<close>

theorem cancelPending_empties:
  assumes "token b = AuthToken (cfg sv)" "\<And>n. cancel_session (s n)" "db_inv d" "nameable d"
  shows "\<exists>d'. cancelPending b k (\<lambda>n. server_net sv (s n)) n d = Some (None, d') \<and> cancelled_only d d' \<and>
    (\<forall>j \<in> set (jobs d'). Status j \<noteq> StatusPending)"
  using assms(3,4)
proof (induction "length (pendings d)" arbitrary: d n rule: less_induct)
  case less
  let ?js = "take 500 (listing ''PENDING'' d)" and ?nets = "\<lambda>n. server_net sv (s n)"
  have get: "bench_get b k (?nets n) ''/jobs?status=pending&limit=500'' d = (Inr (Json (JobsBody ?js)), d)"
    using list_pending [OF assms(1), of "s n"] assms(2) [of n] by (simp add: cancel_session_def pending_path_def)
  have st: "status_text x = ''PENDING'' \<longleftrightarrow> x = StatusPending" for x by (cases x) simp_all
  have js: "mset (listing ''PENDING'' d) = mset (pendings d)" by (simp add: listing_def pendings_def st)
  show ?case
  proof (cases "?js = []")
    case True
    then have "pendings d = []" using js by simp
    then show ?thesis using True get by (subst cancelPending.simps) (auto simp: pendings_def filter_empty_conv)
  next
    case False
    have "distinct (pendings d)"
      using less.prems(1) by (auto simp: pendings_def db_inv_def jobs_inv_def distinct_map)
    then have "distinct ?js" "set ?js \<subseteq> set (pendings d)"
      using js by (metis distinct_take mset_eq_imp_distinct_iff, metis mset_eq_setD set_take_subset)
    from cancel_all_cancels [OF assms(1,2) less.prems this(2,1)] obtain d' where d':
      "cancel_all b k (?nets n) ?js d = (None, d')" "db_inv d'" "nameable d'" "cancelled_only d d'"
      "length (pendings d') + length ?js = length (pendings d)" by blast
    have "length (pendings d') < length (pendings d)" using d'(5) False by (metis add_diff_cancel_left' diff_less length_greater_0_conv less_add_same_cancel1 add_gr_0)
    from less.hyps [OF this d'(2,3), of "Suc n"] obtain d'' where
      "cancelPending b k ?nets (Suc n) d' = Some (None, d'')" "cancelled_only d' d''" "\<forall>j \<in> set (jobs d''). Status j \<noteq> StatusPending"
      by blast
    with get d'(1) False cancelled_only_trans [OF d'(4)] show ?thesis by (subst cancelPending.simps) auto
  qed
qed

theorem cancelPending_empties_witness:
  "\<exists>d'. cancelPending demo_bench demo_codec (\<lambda>n. server_net demo_server (quiet 50)) 0 demo_db = Some (None, d')"
proof -
  have "token demo_bench = AuthToken (cfg demo_server)" "cancel_session (quiet 50)" "nameable demo_db"
    by (simp_all add: demo_bench_def cancel_session_def nameable_def demo_defs int64_ok_def alone_def no_faults_def quiet_def)
  with cancelPending_empties [of demo_bench demo_server "\<lambda>_. quiet 50" demo_db demo_codec 0] demo_inv show ?thesis by blast
qed

end
