(* ===== verification/Worker_Jitter.thy ===== *)
theory Worker_Jitter
  imports Worker_Loop
begin

text \<open>
  The worker's random waits (\<open>jitter\<close> in \<open>internal/worker/worker.go\<close>): floating point included, they stay within a quarter of the
  interval they spread.
\<close>

lemma round64_exact:
  assumes "0 < m" "m \<le> 2 ^ 53" "- 1074 \<le> j"
  shows "round64 (of_int m * pow2 j) = of_int m * pow2 j"
proof -
  have "0 < of_int m * pow2 j" using assms(1) by simp
  then show ?thesis using round64_le [of _ m j] round64_ge [of _ m j] assms by (meson order_antisym order_refl)
qed

lemma round64_between:
  assumes "of_int a * pow2 i \<le> x" "x \<le> of_int b * pow2 j" "0 \<le> a" "a \<le> 2 ^ 53" "b \<le> 2 ^ 53" "- 1074 \<le> i" "- 1074 \<le> j"
  shows "of_int a * pow2 i \<le> round64 x \<and> round64 x \<le> of_int b * pow2 j"
proof (cases "x = 0")
  case True
  with assms(1,2) show ?thesis by (simp add: round64_def)
next
  case False
  moreover have "0 \<le> of_int a * pow2 i" using assms(3) by (simp add: less_imp_le)
  ultimately have "0 < x" using assms(1) by linarith
  with assms show ?thesis using round64_le round64_ge by blast
qed

text \<open>
  C27. Waits are spread by a quarter and no more: for any interval up to twelve days and any random number in [0, 1), the wait of an
  idle worker is between three quarters and five quarters of its poll interval, rounded down to whole nanoseconds; whatever the platform does with large floats does
  not matter.
\<close>

theorem jitter_spread:
  assumes "0 < d" "d < 2 ^ 50" "0 \<le> u" "u < 1"
  shows "3 * d div 4 \<le> jitter cv u d \<and> jitter cv u d \<le> 5 * d div 4"
proof -
  have q: "pow2 (- 2) = 1 / 4" "pow2 (- 1) = 1 / 2" "pow2 1 = 2" by (simp_all add: pow2_def)
  have f: "round64 (of_int d) = of_int d" using assms by (intro round64_int) simp
  have delta: "round64 (of_int d * (1 / 4)) = of_int d * (1 / 4)"
    using round64_exact [of d "- 2"] assms by (simp add: q)
  have low: "round64 (of_int d - of_int d * (1 / 4)) = of_int (3 * d) * (1 / 4)"
    using round64_exact [of "3 * d" "- 2"] assms by (simp add: q field_simps)
  define a where "a = round64 (u * 2)"
  have a: "0 \<le> a" "a \<le> 2" using round64_between [of 0 0 "u * 2" 1 1] assms by (simp_all add: a_def q)
  define b where "b = round64 (a * (of_int d * (1 / 4)))"
  have "0 \<le> a * (of_int d * (1 / 4))" "a * (of_int d * (1 / 4)) \<le> of_int d * (1 / 2)"
    using a mult_right_mono [OF a(2), of "of_int d * (1 / 4)"] assms(1) by simp_all
  then have b: "0 \<le> b" "b \<le> of_int d * (1 / 2)"
    using round64_between [of 0 0 "a * (of_int d * (1 / 4))" d "- 1"] assms by (simp_all add: b_def q)
  define v where "v = round64 (of_int (3 * d) * (1 / 4) + b)"
  have v: "of_int (3 * d) * (1 / 4) \<le> v" "v \<le> of_int (5 * d) * (1 / 4)"
    using round64_between [of "3 * d" "- 2" "of_int (3 * d) * (1 / 4) + b" "5 * d" "- 2"] b assms by (simp_all add: v_def q)
  have fl: "3 * d div 4 \<le> \<lfloor>v\<rfloor>" "\<lfloor>v\<rfloor> \<le> 5 * d div 4" "0 \<le> v"
    using v assms(1) floor_mono [OF v(1)] floor_mono [OF v(2)] floor_divide_of_int_eq [of "3 * d" 4, where 'a = rat]
      floor_divide_of_int_eq [of "5 * d" 4, where 'a = rat] by simp_all
  then have "trunc v = \<lfloor>v\<rfloor>" "0 \<le> \<lfloor>v\<rfloor>" "\<lfloor>v\<rfloor> < 2 ^ 63" using assms(2) by (simp_all add: trunc_def, linarith)
  then have "to_int64 cv v = \<lfloor>v\<rfloor>" unfolding to_int64_def by presburger
  with fl(1,2) assms(1) show ?thesis
    unfolding jitter_def Let_def f delta low by (simp add: a_def b_def v_def)
qed

theorem jitter_spread_witness:
  "750000000 \<le> jitter (\<lambda>_. 0) (1 / 3) Second \<and> jitter (\<lambda>_. 0) (1 / 3) Second \<le> 1250000000"
  using jitter_spread [of Second "1 / 3" "\<lambda>_. 0"] by (simp add: Second_def)

end
