(* ===== verification/Spec2Isabelle.thy ===== *)
theory Spec2Isabelle
  imports Tools Daemons Api_Types Store_Rows Tx_Interleave Cli_Submit Bench_Cleanup Worker_Jitter
begin

text \<open>
  A verification of the job queue: a PostgreSQL-backed store of jobs, an HTTP server in front of it with a reaper of expired leases,
  workers that claim jobs over HTTP, run them and report, a command line client, and a load generator.

  \<^bold>\<open>How the program is put together, and which theory models which part\<close>

  \<^item> \<open>internal/jobs/job.go\<close>: \<open>Job\<close>. Rows as the records \<open>Job\<close> and \<open>Worker\<close>, statuses and sentinel errors as datatypes,
    \<open>ValidateNew\<close>, and the retry backoff \<open>Delay\<close> on wrapped 64-bit integers.
  \<^item> \<open>internal/jobs/store.go\<close> with \<open>migrations/001_init.sql\<close>: \<open>Postgres\<close> (the tables as the record \<open>db\<close>, the database's side of
    one call as the record \<open>session\<close>: clock, rows locked by others, faults of single calls, a commit whose
    acknowledgement is lost, texts it refuses, the interference of other sessions between two statements) and \<open>Store\<close>
    (one definition per method; SQL statements are named pieces such as \<open>claim_pick\<close> and \<open>claim_set\<close>). \<open>Store_Rows\<close>: the columns every
    statement reads and \<open>scanJob\<close>, by position. \<open>Tx_Interleave\<close>: several transactions in flight at once, each with the rows it has locked.
  \<^item> \<open>internal/api\<close>: \<open>Api_Http\<close> (errors.go, middleware.go and the decoding of bodies, over an explicit response
    writer), \<open>Api_Server\<close> (server.go, reaper.go: every handler, the routes, the middleware chain, the reaper's loop).
  \<^item> \<open>internal/worker\<close>: \<open>Worker_Exec\<close> (executor.go), \<open>Worker_Client\<close> (client.go), \<open>Worker_Loop\<close> (worker.go).
  \<^item> \<open>internal/database\<close>: \<open>Db_Connect\<close> (configuration, \<open>Open\<close>, \<open>WaitForDB\<close>) and \<open>Database\<close> (\<open>Migrate\<close>, with \<open>migrations/embed.go\<close>).
  \<^item> \<open>cmd/queue\<close>: \<open>Cli\<close>. \<open>cmd/queue-bench\<close>: \<open>Bench\<close>. Their \<open>main\<close> functions: \<open>Tools\<close>.
  \<^item> \<open>cmd/server\<close> and \<open>cmd/worker\<close>: \<open>Commands\<close> (settings and flags) and \<open>Daemons\<close> (logging setup, the server from startup to
    shutdown, the worker's process, exit statuses).
  \<^item> The Go library as far as it is used: \<open>Go_Lib\<close> (strings as bytes, numbers, UTF-8, durations), \<open>Go_Float\<close>
    (binary64 on rationals), \<open>Go_Flag\<close> (the flag package). \<open>Prelude\<close> has what all share.

  \<^bold>\<open>How state and effects are modelled\<close>

  State is passed explicitly. A store method takes a \<open>session\<close> and the tables and returns a result
  \<open>error + Job\<close> and the tables. A handler takes the request and a \<open>world\<close> (what was written, the log, the tables). A client takes a
  network, a function from requests to replies over a state of its own, so that the same definitions run against a
  dead network (\<open>dead\<close>), against the server (\<open>server_net\<close>) or against a server with other clients in between. Time,
  cancellation, randomness and the operating system are inputs: what a \<open>select\<close> meets is a list of events, what a
  loop sees at turn \<open>n\<close> is a function of \<open>n\<close>. Loops that may run forever are partial functions into
  \<open>option\<close>; no fuel is used, and that they return is proved where it is claimed.

  \<^bold>\<open>What is shown\<close>

  \<^item> \<open>Lifecycle\<close>, \<open>Store_Inv\<close>: the abstract state machine of a job and the contract \<open>store_method\<close> (a locale; one interpretation per
    method) that every method keeps the table invariant and moves rows along the state machine only.
  \<^item> \<open>Store_Props\<close>, \<open>Store_Reap\<close>, \<open>Store_Reads\<close>: what each method does on every branch. \<open>History\<close>: any sequence of calls, with
    faults and interference, never hands out an attempt twice. \<open>Tx_Interleave\<close>: nor does any interleaving of transactions, each of which
    commits as if it ran alone. \<open>Store_Rows\<close>: a row is read back as it is. \<open>Claim_Queue\<close>: under claims the table refines a queue
    (locale \<open>work_queue\<close>).
  \<^item> \<open>Api_Props\<close>, \<open>Api_Serve\<close>: every endpoint answers exactly once (locale \<open>api_endpoint\<close>, one interpretation per endpoint); so does the
    server, and it is one more \<open>store_method\<close>. \<open>Api_Types\<close>: the replies have the types of the API's table (locale \<open>typed_endpoint\<close>), and every
    client decodes them. \<open>Reaper_Loop\<close>: the reaper recovers every orphaned job.
  \<^item> \<open>Worker_E2E\<close>, \<open>Worker_Renew\<close>, \<open>Worker_Props\<close>: the client's calls are the store's methods end to end; renewal;
    lost acknowledgements; output the database refuses.
  \<^item> \<open>Cli_Props\<close>, \<open>Cli_Submit\<close>, \<open>Bench_Props\<close>, \<open>Bench_Cleanup\<close>: the same for the command line client, the claim race and the
    cleanup after it. \<open>Worker_Jitter\<close>: random waits stay within a quarter, on the rounding lemmas of \<open>Go_Float\<close>. \<open>Db_Connect\<close>, \<open>Daemons\<close>: waiting for the database
    ends in time; the server's exit status tells how it went; a worker stops only when told; the defaults fit together.
  \<^item> \<open>System\<close>, \<open>Bench_System\<close> and this theory: the system as a step relation on the tables, and that every client only takes
    its steps (locale \<open>client_preorder\<close>).

  \<^bold>\<open>Assumptions\<close>

  A session relied upon satisfies \<open>session_ok\<close>: other sessions, too, keep the invariant and the state machine. Calls that are
  assumed to work have \<open>no_faults\<close>. Parameters stand for code outside the repository: how PostgreSQL turns seconds into an
  interval and which texts it stores, the driver that opens a connection (\<open>dialer\<close>), the SQL engine of a migration, the shell, JSON number and text syntax (\<open>codec\<close>), the number
  syntax of the flag package, and the platform's conversion of a float outside \<open>int64\<close>.

  \<^bold>\<open>Not modelled\<close>

  The listener and the connections of \<open>net/http\<close> (what ends the service is an input of \<open>server_run\<close>), what the HTTP timeouts do, the format of
  printed log lines (a logger is its level, format and component), most log lines of the worker, the rates and progress lines the
  load generator prints, the indices of the schema, and the scanning of JSON text and of HTTP messages. Requests have a
  clean path; \<open>net/http\<close> redirects any other before a handler runs.
\<close>

section \<open>The whole system\<close>

text \<open>
  C4. The tables of a running system are always in order: after any sequence of served requests (any method, path and body, any fault of the
  database) and reaper sweeps, from the freshly migrated schema, every job row is well formed, ids are
  unique, a worker's current job is RUNNING under that worker, and every row has come from a new row by steps of the job
  state machine.
\<close>

theorem system_tables_in_order:
  assumes "(sys_step sv rp)\<^sup>*\<^sup>* empty_db d"
  shows "db_inv d \<and> (\<forall>j \<in> set (jobs d). job_ok j \<and> (\<exists>j0. is_new j0 \<and> job_steps j0 j))"
  using sys_steps_guar [OF assms db_inv_empty]
  by (fastforce simp: guar_def db_inv_def jobs_inv_def db_evolves_def empty_db_def)

theorem system_tables_in_order_witness:
  "db_inv (tables (serve demo_server (quiet 5) get_stats empty_db))"
proof -
  have "sys_step demo_server (NewReaper 0 100) empty_db (tables (serve demo_server (quiet 5) get_stats empty_db))"
    by (rule sys_step.request_served) simp
  then have "(sys_step demo_server (NewReaper 0 100))\<^sup>*\<^sup>* empty_db (tables (serve demo_server (quiet 5) get_stats empty_db))"
    by (rule r_into_rtranclp)
  from system_tables_in_order [OF this] show ?thesis by blast
qed


definition one_reg :: "db reg_env" where
  "one_reg = \<lparr>reg_net = (\<lambda>_. server_net demo_server (quiet 40)), reg_gone = (\<lambda>_. True), reg_woken = (\<lambda>_. True)\<rparr>"

definition one_turn :: "db turn_input" where
  "one_turn = \<lparr>top_gone = False, claim_net = server_net demo_server (quiet 50), after_gone = False, draw = 1 / 2,
     around = flaky_env, rereg = one_reg\<rparr>"

lemma one_reg_returns: "\<exists>b ws st'. registerWithRetry c k one_reg st = Some (b, ws, st')"
  unfolding registerWithRetry_def
  by (subst register_loop.simps) (auto simp: one_reg_def split: prod.split sum.split)

lemma one_wired: "worker_wired demo_server rp one_reg [one_turn]"
  using wired_server [of "quiet t" demo_server rp for t] wired_server [of "lost_commit 50" demo_server rp]
  by (auto simp: worker_wired_def one_turn_def turn_keeps_def around_keeps_def reg_keeps_def one_reg_def flaky_env_def
      wired_def lost_commit_def session_ok_def)




end
